(* ===== verification/LC_Prelude.thy ===== *)
theory LC_Prelude
  imports Main "HOL-Library.Word" "HOL-Library.While_Combinator"
begin

unbundle bit_operations_syntax

text \<open>
  Shared vocabulary of the Lab-Chase development: the machine-integer types of the C code, the
  result type of operations that can leave the memory of the process, bounded \<open>for\<close> loops over
  such operations, guarded \<open>while\<close> loops, and the lemmas on words, results and loops that the
  components use.
\<close>

named_theorems c_consts \<open>the constants the C code defines with #define\<close>
named_theorems unat_simps \<open>unsigned words read as natural numbers\<close>


section \<open>Machine integers\<close>

type_synonym u8 = "8 word"
type_synonym u16 = "16 word"
type_synonym u32 = "32 word"
type_synonym u64 = "64 word"

text \<open>\<open>BIT(n)\<close> of \<open>lcom/utils.h\<close>, at whatever width the context needs.\<close>

definition BIT :: "nat \<Rightarrow> 'a::len word" where
  "BIT n = push_bit n 1"

lemma and_BIT_eq_0_iff: "x AND BIT n = 0 \<longleftrightarrow> \<not> (bit x n \<and> n < LENGTH('a))"
  for x :: "'a::len word"
proof -
  have "x AND BIT n = 0 \<longleftrightarrow> (\<forall>k. \<not> bit (x AND BIT n) k)"
    by (metis bit_0_eq bit_eqI bot_apply bot_bool_def)
  also have "\<dots> \<longleftrightarrow> \<not> (bit x n \<and> n < LENGTH('a))"
    by (auto simp: BIT_def bit_simps)
  finally show ?thesis .
qed

lemma and_BIT_0_eq_1_iff: "x AND BIT 0 = 1 \<longleftrightarrow> bit x 0"
  for x :: "'a::len word"
  by (auto simp: BIT_def bit_0 and_one_eq odd_iff_mod_2_eq_one)

lemma unat_less: "unat (x :: 'a::len word) < 2 ^ LENGTH('a)"
  by (rule unsigned_less)

lemma take_bit_unat [simp]: "LENGTH('a) \<le> n \<Longrightarrow> take_bit n (unat (x :: 'a::len word)) = unat x"
  by (meson unat_less less_le_trans one_le_numeral power_increasing take_bit_nat_eq_self)

lemma unat_ucast_up [unat_simps]:
  "LENGTH('a) \<le> LENGTH('b) \<Longrightarrow> unat (ucast (x :: 'a::len word) :: 'b::len word) = unat x"
  by (simp add: is_up nat_int_comparison(1) uint_up_ucast)

lemma ucast_ucast_id [simp]:
  "LENGTH('a) \<le> LENGTH('b) \<Longrightarrow> ucast (ucast (x :: 'a::len word) :: 'b::len word) = x"
  by (rule bit_word_eqI) (simp add: bit_ucast_iff)

lemma unat_add_no_wrap [unat_simps]:
  "unat x + unat y < 2 ^ LENGTH('a) \<Longrightarrow> unat (x + y) = unat x + unat y"
  for x y :: "'a::len word"
  by (rule unat_add_lem [THEN iffD1])

lemma unat_mult_no_wrap [unat_simps]:
  "unat x * unat y < 2 ^ LENGTH('a) \<Longrightarrow> unat (x * y) = unat x * unat y"
  for x y :: "'a::len word"
  by (rule unat_mult_lem [THEN iffD1])

lemma unat_of_nat_small [unat_simps]:
  "n < 2 ^ LENGTH('a) \<Longrightarrow> unat (of_nat n :: 'a::len word) = n"
  by (simp add: unat_of_nat)

lemma unat_add_of_nat:
  "unat x + n < 2 ^ LENGTH('a) \<Longrightarrow> unat (x + of_nat n) = unat x + n"
  for x :: "'a::len word"
proof -
  assume n: "unat x + n < 2 ^ LENGTH('a)"
  then have "unat (of_nat n :: 'a word) = n"
    by (intro unat_of_nat_small) simp
  with n show ?thesis
    by (subst unat_add_no_wrap) simp_all
qed


section \<open>Results of operations that can fail\<close>

text \<open>
  An operation that can leave the memory of the process returns \<open>Inl\<close> of the fault; the C code
  has no handler, so a fault ends every computation it occurs in. \<open>Bad_access\<close> is an access outside
  the object or the mapped region, \<open>Panic\<close> a call of \<open>panic\<close>, \<open>Undefined_op\<close> a division by zero or a shift
  by the width of the type or more.
\<close>

datatype fault = Bad_access | Panic | Undefined_op

definition bind_res :: "'e + 'a \<Rightarrow> ('a \<Rightarrow> 'e + 'b) \<Rightarrow> 'e + 'b" where
  "bind_res m f = (case m of Inl e \<Rightarrow> Inl e | Inr x \<Rightarrow> f x)"

lemma bind_res_simps [simp]:
  "bind_res (Inl e) f = Inl e"
  "bind_res (Inr x) f = f x"
  by (simp_all add: bind_res_def)

lemma bind_res_Inr [simp]: "bind_res m Inr = m"
  by (cases m) simp_all

lemma bind_res_eq_Inr_iff: "bind_res m f = Inr y \<longleftrightarrow> (\<exists>x. m = Inr x \<and> f x = Inr y)"
  by (cases m) simp_all

lemma bind_res_cong [fundef_cong]:
  "m = m' \<Longrightarrow> (\<And>x. m' = Inr x \<Longrightarrow> f x = f' x) \<Longrightarrow> bind_res m f = bind_res m' f'"
  by (cases m') simp_all


section \<open>Counting loops\<close>

text \<open>\<open>for (int i = 0; i < n; i++) s = f i s\<close>, stopped by the first fault.\<close>

primrec for_n :: "nat \<Rightarrow> (nat \<Rightarrow> 's \<Rightarrow> 'e + 's) \<Rightarrow> 's \<Rightarrow> 'e + 's" where
  "for_n 0 f s = Inr s"
| "for_n (Suc n) f s = bind_res (for_n n f s) (f n)"

lemma for_n_rule:
  assumes "P 0 s"
    and "\<And>i s. i < n \<Longrightarrow> P i s \<Longrightarrow> \<exists>s'. f i s = Inr s' \<and> P (Suc i) s'"
  shows "\<exists>s'. for_n n f s = Inr s' \<and> P n s'"
  using assms
proof (induction n)
  case 0
  then show ?case by simp
next
  case (Suc n)
  then obtain t where "for_n n f s = Inr t" and "P n t"
    by (metis less_SucI)
  with Suc.prems(2) [of n t] show ?case by simp
qed

lemma for_n_preserves:
  assumes "for_n n f s = Inr s'" and "P s"
    and "\<And>i t t'. i < n \<Longrightarrow> f i t = Inr t' \<Longrightarrow> P t \<Longrightarrow> P t'"
  shows "P s'"
  using assms
proof (induction n arbitrary: s')
  case 0
  then show ?case by simp
next
  case (Suc n)
  then obtain t where t: "for_n n f s = Inr t" and "f n t = Inr s'"
    by (auto simp: bind_res_eq_Inr_iff)
  moreover have "P t"
    using Suc.IH [OF t] Suc.prems(2,3) less_SucI by blast
  ultimately show ?case
    using Suc.prems(3) [of n t s'] by simp
qed

lemma for_n_cong_inv:
  assumes "P s" and "\<And>i t. i < n \<Longrightarrow> P t \<Longrightarrow> f i t = g i t"
    and "\<And>i t t'. i < n \<Longrightarrow> f i t = Inr t' \<Longrightarrow> P t \<Longrightarrow> P t'"
  shows "for_n n f s = for_n n g s"
  using assms
proof (induction n)
  case 0
  then show ?case by simp
next
  case (Suc n)
  have eq: "for_n n f s = for_n n g s"
    using Suc.prems by (intro Suc.IH) (blast intro: less_SucI)+
  show ?case
  proof (cases "for_n n f s")
    case (Inr t)
    have "P t"
      using Inr Suc.prems(1) by (rule for_n_preserves) (use Suc.prems(3) in \<open>blast intro: less_SucI\<close>)
    with Inr eq Suc.prems(2) show ?thesis by (metis bind_res_simps(2) for_n.simps(2) lessI)
  qed (use eq in simp)
qed

lemma for_n_Inr_step:
  "for_n n f s = Inr s' \<Longrightarrow> i < n \<Longrightarrow> \<exists>t t'. for_n i f s = Inr t \<and> f i t = Inr t'"
  by (induction n arbitrary: s') (auto simp: bind_res_eq_Inr_iff less_Suc_eq)

lemma for_n_Inl: "for_n n f s = Inl e \<Longrightarrow> \<exists>i t. i < n \<and> f i t = Inl e"
proof (induction n)
  case (Suc n)
  then show ?case
    by (cases "for_n n f s") (auto intro: less_SucI)
qed simp

lemma for_n_cong [cong]:
  "n = n' \<Longrightarrow> (\<And>i s. i < n' \<Longrightarrow> f i s = g i s) \<Longrightarrow> for_n n f = for_n n' g"
proof (rule ext)
  fix s
  assume "n = n'" and fg: "\<And>i s. i < n' \<Longrightarrow> f i s = g i s"
  moreover have "for_n n' f s = for_n n' g s"
    using fg
  proof (induction n')
    case 0
    then show ?case by simp
  next
    case (Suc n')
    then have "for_n n' f s = for_n n' g s" by simp
    then show ?case by (cases "for_n n' g s") (simp_all add: Suc.prems)
  qed
  ultimately show "for_n n f s = for_n n' g s" by simp
qed


section \<open>Loops that may not end\<close>

text \<open>
  \<open>while (b s) s = c s\<close> for a body that can fault and need not end itself. The value \<open>None\<close> is a loop
  that never returns.
\<close>

partial_function (option) while_res ::
    "('s \<Rightarrow> bool) \<Rightarrow> ('s \<Rightarrow> ('e + 's) option) \<Rightarrow> 's \<Rightarrow> ('e + 's) option" where
  "while_res b c s =
     (if b s
      then Option.bind (c s) (\<lambda>r. case r of Inl e \<Rightarrow> Some (Inl e) | Inr s' \<Rightarrow> while_res b c s')
      else Some (Inr s))"

text \<open>Sequencing of such computations.\<close>

definition then_res :: "('e + 's) option \<Rightarrow> ('s \<Rightarrow> ('e + 't) option) \<Rightarrow> ('e + 't) option" where
  "then_res m f = Option.bind m (\<lambda>r. case r of Inl e \<Rightarrow> Some (Inl e) | Inr s \<Rightarrow> f s)"

lemma then_res_simps [simp]:
  "then_res None f = None"
  "then_res (Some (Inl e)) f = Some (Inl e)"
  "then_res (Some (Inr s)) f = f s"
  by (simp_all add: then_res_def)

lemma then_res_assoc: "then_res (then_res m f) g = then_res m (\<lambda>s. then_res (f s) g)"
  by (cases m) (auto simp: then_res_def split: sum.splits)

lemma then_res_eq_Some_Inr:
  "then_res m f = Some (Inr t) \<longleftrightarrow> (\<exists>s. m = Some (Inr s) \<and> f s = Some (Inr t))"
  by (cases m; cases "the m") auto

lemma while_res_unfold: "while_res b c s = (if b s then then_res (c s) (while_res b c) else Some (Inr s))"
  unfolding then_res_def by (rule while_res.simps)

lemma while_res_induct [consumes 1, case_names stop fault step]:
  assumes "while_res b c s = Some r"
    and "\<And>s. \<not> b s \<Longrightarrow> P s (Inr s)"
    and "\<And>s e. b s \<Longrightarrow> c s = Some (Inl e) \<Longrightarrow> P s (Inl e)"
    and "\<And>s s' r. b s \<Longrightarrow> c s = Some (Inr s') \<Longrightarrow> while_res b c s' = Some r \<Longrightarrow> P s' r \<Longrightarrow> P s r"
  shows "P s r"
proof -
  define Q where "Q b' c' s r \<longleftrightarrow> (b' = b \<and> c' = c \<longrightarrow> while_res b c s = Some r \<and> P s r)" for b' c' s r
  have "Q b c s r"
    using assms(1)
  proof (rule while_res.raw_induct [of Q, rotated])
    fix w b' c' s r
    assume IH: "\<And>b c s r. w b c s = Some r \<Longrightarrow> Q b c s r"
      and eq: "(if b' s then Option.bind (c' s) (\<lambda>r. case r of Inl e \<Rightarrow> Some (Inl e) | Inr s' \<Rightarrow> w b' c' s')
        else Some (Inr s)) = Some r"
    show "Q b' c' s r"
      unfolding Q_def
    proof (intro impI)
      assume bc: "b' = b \<and> c' = c"
      show "while_res b c s = Some r \<and> P s r"
      proof (cases "b s")
        case True
        then obtain x where x: "c s = Some x" "(case x of Inl e \<Rightarrow> Some (Inl e) | Inr s' \<Rightarrow> w b c s') = Some r"
          using eq bc by (auto simp: bind_eq_Some_conv)
        then show ?thesis
          using True IH [of b c _ r] assms(3,4) by (cases x) (auto simp: Q_def while_res_unfold [of b c s])
      next
        case False
        with eq bc assms(2) show ?thesis by (auto simp: while_res_unfold [of b c s])
      qed
    qed
  qed
  then show ?thesis by (simp add: Q_def)
qed

lemma while_res_exit:
  "while_res b c s = Some (Inr s') \<Longrightarrow> \<not> b s'"
proof -
  have "r = Inr s' \<longrightarrow> \<not> b s'" if "while_res b c s = Some r" for r
    using that by (induction rule: while_res_induct) auto
  then show "while_res b c s = Some (Inr s') \<Longrightarrow> \<not> b s'" by blast
qed

end
