(* ===== verification/Frame_Memory.thy ===== *)
theory Frame_Memory
  imports LC_Prelude
begin

text \<open>
  The bytes behind a pointer, as the drawing code accesses them with \<open>memcpy\<close> and \<open>memset\<close>:
  little-endian loads and stores of colours, block copies and fills; and the contract of a
  frame buffer, in which lines and rectangles are derived once for the drawing code of the game and
  of \<open>lab5\<close>.
\<close>

type_synonym mem = "nat \<Rightarrow> u8"


section \<open>Colours in memory\<close>

text \<open>\<open>memcpy(&color, p, n)\<close> into a zeroed colour and \<open>memcpy(p, &color, n)\<close>, on a little-endian machine.\<close>

primrec load_le :: "mem \<Rightarrow> nat \<Rightarrow> nat \<Rightarrow> u32" where
  "load_le m a 0 = 0"
| "load_le m a (Suc n) = ucast (m a) OR push_bit 8 (load_le m (Suc a) n)"

definition store_le :: "u32 \<Rightarrow> nat \<Rightarrow> nat \<Rightarrow> mem \<Rightarrow> mem" where
  "store_le c n a m = (\<lambda>k. if a \<le> k \<and> k < a + n then ucast (drop_bit (8 * (k - a)) c) else m k)"

text \<open>\<open>memcpy\<close> of a list of bytes, and \<open>memset\<close>.\<close>

definition copy_in :: "u8 list \<Rightarrow> nat \<Rightarrow> mem \<Rightarrow> mem" where
  "copy_in bs a m = (\<lambda>k. if a \<le> k \<and> k < a + length bs then bs ! (k - a) else m k)"

definition fill_mem :: "u8 \<Rightarrow> nat \<Rightarrow> mem \<Rightarrow> mem" where
  "fill_mem b n m = (\<lambda>k. if k < n then b else m k)"

lemma copy_in_Nil [simp]: "copy_in [] a m = m"
  by (rule ext) (auto simp: copy_in_def)

lemma bit_load_le:
  "bit (load_le m a n) k \<longleftrightarrow> k < 32 \<and> k < 8 * n \<and> bit (m (a + k div 8)) (k mod 8)"
proof (induction n arbitrary: a k)
  case 0
  then show ?case by simp
next
  case (Suc n)
  show ?case
  proof (cases "k < 8")
    case True
    then show ?thesis
      by (auto simp: bit_simps)
  next
    case False
    then have "k div 8 = Suc ((k - 8) div 8)" and "k mod 8 = (k - 8) mod 8"
      by (simp_all add: le_div_geq le_mod_geq)
    moreover have "\<not> bit (m a) k"
      using False bit_imp_le_length [of "m a" k] by auto
    ultimately show ?thesis
      using False by (auto simp: bit_simps Suc.IH)
  qed
qed

lemma load_le_cong:
  "(\<And>i. i < n \<Longrightarrow> m (a + i) = m' (a' + i)) \<Longrightarrow> load_le m a n = load_le m' a' n"
proof (induction n arbitrary: a a')
  case 0
  then show ?case by simp
next
  case (Suc n)
  have "m a = m' a'"
    using Suc.prems [of 0] by simp
  moreover have "load_le m (Suc a) n = load_le m' (Suc a') n"
    using Suc.prems [of "Suc i" for i] by (intro Suc.IH) simp
  ultimately show ?case by simp
qed

lemma load_store_le: "n \<le> 4 \<Longrightarrow> load_le (store_le c n a m) a n = take_bit (8 * n) c"
proof (rule bit_word_eqI)
  fix k
  assume "n \<le> 4" and "k < LENGTH(32)"
  then have k: "k < 32" by simp
  have "k < 8 * n \<Longrightarrow> k div 8 < n"
    by (simp add: less_mult_imp_div_less mult.commute)
  then show "bit (load_le (store_le c n a m) a n) k = bit (take_bit (8 * n) c) k"
    using k by (auto simp: bit_load_le store_le_def bit_simps)
qed

lemma load_store_le_other:
  "b + n \<le> a \<or> a + n \<le> b \<Longrightarrow> load_le (store_le c n a m) b n = load_le m b n"
  by (rule load_le_cong) (auto simp: store_le_def)

lemma store_le_other [simp]: "k < a \<or> a + n \<le> k \<Longrightarrow> store_le c n a m k = m k"
  by (auto simp: store_le_def)

lemma load_le_0 [simp]: "(\<And>i. i < n \<Longrightarrow> m (a + i) = 0) \<Longrightarrow> load_le m a n = 0"
  by (rule bit_word_eqI) (auto simp: bit_load_le less_mult_imp_div_less mult.commute)

lemma load_le_less: "n \<le> 4 \<Longrightarrow> take_bit (8 * n) (load_le m a n) = load_le m a n"
  by (rule bit_word_eqI) (auto simp: bit_load_le bit_take_bit_iff)

section \<open>The contract of a frame buffer\<close>

text \<open>
  A client draws pixels and reads them back. \<open>rest\<close> is everything of the state that drawing does
  not change; it determines the size of the screen and what a colour keeps when it is stored.
\<close>

locale framebuffer =
  fixes put :: "u16 \<Rightarrow> u16 \<Rightarrow> u32 \<Rightarrow> 'v \<Rightarrow> fault + 'v"
    and get :: "u16 \<Rightarrow> u16 \<Rightarrow> 'v \<Rightarrow> fault + u32"
    and rest :: "'v \<Rightarrow> 'r"
    and wid :: "'r \<Rightarrow> nat"
    and hei :: "'r \<Rightarrow> nat"
    and kept :: "'r \<Rightarrow> u32 \<Rightarrow> u32"
    and okay :: "'v \<Rightarrow> bool"
  assumes put_okay: "okay v \<Longrightarrow> unat x < wid (rest v) \<Longrightarrow> unat y < hei (rest v) \<Longrightarrow>
      \<exists>v'. put x y c v = Inr v' \<and> okay v' \<and> rest v' = rest v"
    and get_put: "okay v \<Longrightarrow> unat x < wid (rest v) \<Longrightarrow> unat y < hei (rest v) \<Longrightarrow>
      put x y c v = Inr v' \<Longrightarrow> unat x' < wid (rest v) \<Longrightarrow> unat y' < hei (rest v) \<Longrightarrow>
      get x' y' v' = (if x' = x \<and> y' = y then Inr (kept (rest v) c) else get x' y' v)"
    and wid_16: "okay v \<Longrightarrow> wid (rest v) \<le> 2 ^ 16"
    and hei_16: "okay v \<Longrightarrow> hei (rest v) \<le> 2 ^ 16"
begin

text \<open>One row, the colour of each cell given by \<open>c\<close>; then rows below each other.\<close>

lemma row:
  assumes "okay v" and "unat x + n \<le> wid (rest v)" and "unat y < hei (rest v)"
  shows "\<exists>v'. for_n n (\<lambda>i. put (x + of_nat i) y (c i)) v = Inr v' \<and> okay v' \<and> rest v' = rest v \<and>
    (\<forall>x' y'. unat x' < wid (rest v) \<and> unat y' < hei (rest v) \<longrightarrow>
       get x' y' v' = (if y' = y \<and> unat x \<le> unat x' \<and> unat x' < unat x + n
                       then Inr (kept (rest v) (c (unat x' - unat x))) else get x' y' v))"
proof -
  let ?P = "\<lambda>i u. okay u \<and> rest u = rest v \<and>
    (\<forall>x' y'. unat x' < wid (rest v) \<and> unat y' < hei (rest v) \<longrightarrow>
       get x' y' u = (if y' = y \<and> unat x \<le> unat x' \<and> unat x' < unat x + i
                      then Inr (kept (rest v) (c (unat x' - unat x))) else get x' y' v))"
  have "\<exists>v'. for_n n (\<lambda>i. put (x + of_nat i) y (c i)) v = Inr v' \<and> ?P n v'"
  proof (rule for_n_rule)
    show "?P 0 v" using assms(1) by auto
  next
    fix i u
    assume i: "i < n" and P: "?P i u"
    have xi: "unat (x + of_nat i) = unat x + i"
      using i assms(2) wid_16 [OF assms(1)] by (intro unat_add_of_nat) simp
    have on: "unat (x + of_nat i) < wid (rest u)" "unat y < hei (rest u)"
      using xi i assms(2,3) P by simp_all
    obtain u' where u': "put (x + of_nat i) y (c i) u = Inr u'" "okay u'" "rest u' = rest u"
      using put_okay [OF _ on] P by blast
    have "get x' y' u' = (if y' = y \<and> unat x \<le> unat x' \<and> unat x' < unat x + Suc i
        then Inr (kept (rest v) (c (unat x' - unat x))) else get x' y' v)"
      if "unat x' < wid (rest v)" "unat y' < hei (rest v)" for x' y'
    proof -
      have "x' = x + of_nat i \<longleftrightarrow> unat x' = unat x + i"
        by (simp add: xi word_unat_eq_iff)
      then show ?thesis
        using get_put [OF _ on u'(1), of x' y'] P that by auto
    qed
    with u' P show "\<exists>u'. put (x + of_nat i) y (c i) u = Inr u' \<and> ?P (Suc i) u'"
      by auto
  qed
  then show ?thesis by blast
qed

lemma cells:
  assumes "okay v" and "unat x + w \<le> wid (rest v)" and "unat y + h \<le> hei (rest v)"
  shows "\<exists>v'. for_n h (\<lambda>j. for_n w (\<lambda>i. put (x + of_nat i) (y + of_nat j) (c i j))) v = Inr v'
    \<and> okay v' \<and> rest v' = rest v \<and>
    (\<forall>x' y'. unat x' < wid (rest v) \<and> unat y' < hei (rest v) \<longrightarrow>
       get x' y' v' = (if unat x \<le> unat x' \<and> unat x' < unat x + w
                          \<and> unat y \<le> unat y' \<and> unat y' < unat y + h
                       then Inr (kept (rest v) (c (unat x' - unat x) (unat y' - unat y))) else get x' y' v))"
proof -
  let ?P = "\<lambda>j u. okay u \<and> rest u = rest v \<and>
    (\<forall>x' y'. unat x' < wid (rest v) \<and> unat y' < hei (rest v) \<longrightarrow>
       get x' y' u = (if unat x \<le> unat x' \<and> unat x' < unat x + w
                          \<and> unat y \<le> unat y' \<and> unat y' < unat y + j
                      then Inr (kept (rest v) (c (unat x' - unat x) (unat y' - unat y))) else get x' y' v))"
  have "\<exists>v'. for_n h (\<lambda>j. for_n w (\<lambda>i. put (x + of_nat i) (y + of_nat j) (c i j))) v = Inr v' \<and> ?P h v'"
  proof (rule for_n_rule)
    show "?P 0 v" using assms(1) by auto
  next
    fix j u
    assume j: "j < h" and P: "?P j u"
    have yj: "unat (y + of_nat j) = unat y + j"
      using j assms(3) hei_16 [OF assms(1)] by (intro unat_add_of_nat) simp
    have on: "unat x + w \<le> wid (rest u)" "unat (y + of_nat j) < hei (rest u)"
      using yj j assms(2,3) P by simp_all
    obtain u' where u': "for_n w (\<lambda>i. put (x + of_nat i) (y + of_nat j) (c i j)) u = Inr u'"
      "okay u'" "rest u' = rest u"
      and g: "\<And>x' y'. unat x' < wid (rest u) \<Longrightarrow> unat y' < hei (rest u) \<Longrightarrow>
        get x' y' u' = (if y' = y + of_nat j \<and> unat x \<le> unat x' \<and> unat x' < unat x + w
          then Inr (kept (rest u) (c (unat x' - unat x) j)) else get x' y' u)"
      using row [OF _ on, of "\<lambda>i. c i j"] P by blast
    have "get x' y' u' = (if unat x \<le> unat x' \<and> unat x' < unat x + w
        \<and> unat y \<le> unat y' \<and> unat y' < unat y + Suc j
        then Inr (kept (rest v) (c (unat x' - unat x) (unat y' - unat y))) else get x' y' v)"
      if "unat x' < wid (rest v)" "unat y' < hei (rest v)" for x' y'
    proof -
      have "y' = y + of_nat j \<longleftrightarrow> unat y' = unat y + j"
        by (simp add: yj word_unat_eq_iff)
      then show ?thesis
        using g [of x' y'] P that by auto
    qed
    with u' P show "\<exists>u'. for_n w (\<lambda>i. put (x + of_nat i) (y + of_nat j) (c i j)) u = Inr u' \<and> ?P (Suc j) u'"
      by auto
  qed
  then show ?thesis by blast
qed

lemmas hline = row [of _ _ _ _ "\<lambda>_. c" for c]

lemmas rectangle = cells [of _ _ _ _ _ "\<lambda>_ _. c" for c]

end

end
