(* ===== verification/Sys_Interface.thy ===== *)
theory Sys_Interface
  imports LC_Prelude
begin

text \<open>
  What the program uses of MINIX and of the LCF library: the message and endpoint macros of the
  headers, the data types of the LCF headers, and the system calls. The code of the calls is not
  part of the repository, so they are the fields of a record \<open>'w sys\<close> over an arbitrary type
  \<open>'w\<close> of states of the outside world; every definition that makes a call takes the record as
  an argument. Out-parameters are results. The theory ends with concrete instances
  of the record that the witnesses run the code on.
\<close>


section \<open>Messages\<close>

text \<open>The part of \<open>message\<close> the program reads: \<open>m_source\<close> and \<open>m_notify.interrupts\<close>.\<close>

record message =
  m_source :: int
  interrupts :: u64

definition MAX_NR_TASKS :: int where
  [c_consts]: "MAX_NR_TASKS = 1023"

definition ENDPOINT_GENERATION_SIZE :: int where
  [c_consts]: "ENDPOINT_GENERATION_SIZE = 32768"

definition HARDWARE :: int where
  [c_consts]: "HARDWARE = -1"

definition ENDPOINT_P :: "int \<Rightarrow> int" where
  "ENDPOINT_P e = ((e + MAX_NR_TASKS) AND (ENDPOINT_GENERATION_SIZE - 1)) - MAX_NR_TASKS"

definition is_ipc_notify :: "int \<Rightarrow> bool" where
  "is_ipc_notify status \<longleftrightarrow> status AND 0x3F = 4"

text \<open>The process slot of generation 0 is the endpoint itself, for kernel tasks too.\<close>

lemma ENDPOINT_P_generation_0:
  "- MAX_NR_TASKS \<le> p \<Longrightarrow> p < ENDPOINT_GENERATION_SIZE - MAX_NR_TASKS \<Longrightarrow> ENDPOINT_P p = p"
proof -
  assume "- MAX_NR_TASKS \<le> p" "p < ENDPOINT_GENERATION_SIZE - MAX_NR_TASKS"
  then have p: "0 \<le> p + 1023" "p + 1023 < 2 ^ 15" by (simp_all add: c_consts)
  have "(p + 1023) AND mask 15 = take_bit 15 (p + 1023)"
    by (simp add: take_bit_eq_mask)
  also have "\<dots> = p + 1023"
    using p by (simp add: take_bit_int_eq_self)
  finally show ?thesis
    by (simp add: ENDPOINT_P_def c_consts mask_eq_exp_minus_1)
qed

lemma ENDPOINT_P_HARDWARE [simp]: "ENDPOINT_P HARDWARE = HARDWARE"
  by (rule ENDPOINT_P_generation_0) (simp_all add: c_consts)


section \<open>Data types of the LCF headers\<close>

datatype timer_status_field = tsf_all | tsf_initial | tsf_mode | tsf_base

text \<open>\<open>union timer_status_field_val\<close>, with the member that was written last.\<close>

datatype timer_status_field_val =
    TSF_byte u8
  | TSF_in_mode u8
  | TSF_count_mode u8
  | TSF_bcd bool

record packet =
  pbytes :: "u8 list"
  rb :: bool
  mb :: bool
  lb :: bool
  delta_x :: u16
  delta_y :: u16
  x_ov :: bool
  y_ov :: bool

datatype xpm_image_type =
    XPM_INDEXED | XPM_1_5_5_5 | XPM_5_6_5 | XPM_8_8_8 | XPM_8_8_8_8
  | XPM_GRAY_1_5_5_5 | XPM_GRAY_5_6_5 | XPM_GRAY_8_8_8 | XPM_GRAY_8_8_8_8 | INVALID_XPM

text \<open>\<open>xpm_image_t\<close>; \<open>bytes\<close> lists what the pointer gives access to.\<close>

record xpm_image =
  img_type :: xpm_image_type
  width :: u16
  height :: u16
  img_size :: u32
  bytes :: "u8 list"

type_synonym xpm_map = "string list"

text \<open>The fields of \<open>vbe_mode_info_t\<close> the program reads.\<close>

record vbe_mode_info =
  BytesPerScanLine :: u16
  XResolution :: u16
  YResolution :: u16
  BitsPerPixel :: u8
  info_RedMaskSize :: u8
  info_GreenMaskSize :: u8
  info_BlueMaskSize :: u8
  PhysBasePtr :: u32

text \<open>The fields of \<open>reg86_t\<close> the program writes; the others are zero.\<close>

record reg86 =
  intno :: u8
  ah :: u8
  al :: u8
  bx :: u16


section \<open>System calls\<close>

definition OK :: int where
  [c_consts, simp]: "OK = 0"

definition IRQ_REENABLE :: int where
  [c_consts]: "IRQ_REENABLE = 1"

definition IRQ_EXCLUSIVE :: int where
  [c_consts]: "IRQ_EXCLUSIVE = 2"

text \<open>
  A call maps its arguments and the state of the world to its results and the new state.
  \<^item> \<open>sys_inb\<close> gives the return code and the content of the out-variable after the call;
  \<^item> \<open>sys_irqsetpolicy\<close> and \<open>sys_irqrmpolicy\<close> give the return code and the new hook id;
  \<^item> \<open>driver_receive\<close> gives the return code, the message and the IPC status;
  \<^item> \<open>vm_map_phys\<close> gives nothing (\<open>MAP_FAILED\<close>), or the bytes that can be reached from the
    returned address and how many of them can be accessed before the process is killed;
  \<^item> \<open>xpm_load\<close> gives the content of the image structure after the call.
\<close>

record 'w sys =
  sys_inb :: "int \<Rightarrow> 'w \<Rightarrow> int \<times> u32 \<times> 'w"
  sys_outb :: "int \<Rightarrow> u32 \<Rightarrow> 'w \<Rightarrow> int \<times> 'w"
  sys_irqsetpolicy :: "int \<Rightarrow> int \<Rightarrow> int \<Rightarrow> 'w \<Rightarrow> int \<times> int \<times> 'w"
  sys_irqrmpolicy :: "int \<Rightarrow> 'w \<Rightarrow> int \<times> int \<times> 'w"
  sys_irqenable :: "int \<Rightarrow> 'w \<Rightarrow> int \<times> int \<times> 'w"
  sys_irqdisable :: "int \<Rightarrow> 'w \<Rightarrow> int \<times> int \<times> 'w"
  tickdelay :: "u32 \<Rightarrow> 'w \<Rightarrow> 'w"
  micros_to_ticks :: "u32 \<Rightarrow> u32"
  driver_receive :: "'w \<Rightarrow> int \<times> message \<times> int \<times> 'w"
  sys_int86 :: "reg86 \<Rightarrow> 'w \<Rightarrow> int \<times> 'w"
  vbe_get_mode_info :: "u16 \<Rightarrow> 'w \<Rightarrow> int \<times> vbe_mode_info \<times> 'w"
  sys_privctl_add_mem :: "u32 \<Rightarrow> u32 \<Rightarrow> 'w \<Rightarrow> int \<times> 'w"
  vm_map_phys :: "u32 \<Rightarrow> u32 \<Rightarrow> 'w \<Rightarrow> ((nat \<Rightarrow> u8) \<times> nat) option \<times> 'w"
  vg_exit :: "'w \<Rightarrow> int \<times> 'w"
  xpm_load :: "xpm_map \<Rightarrow> xpm_image_type \<Rightarrow> xpm_image \<Rightarrow> xpm_image"
  mouse_enable_data_reporting :: "'w \<Rightarrow> int \<times> 'w"
  timer_print_config :: "u8 \<Rightarrow> timer_status_field \<Rightarrow> timer_status_field_val \<Rightarrow> 'w \<Rightarrow> 'w"
  timer_print_elapsed_time :: "'w \<Rightarrow> 'w"
  kbd_print_scancode :: "bool \<Rightarrow> u8 \<Rightarrow> u8 \<Rightarrow> 'w \<Rightarrow> 'w"
  kbd_print_no_sysinb :: "u32 \<Rightarrow> 'w \<Rightarrow> 'w"
  mouse_print_packet :: "packet \<Rightarrow> 'w \<Rightarrow> 'w"

text \<open>
  The head of every driver loop: \<open>driver_receive\<close>, the test of its return code, of the IPC
  status and of the sender; what is left for the body of the loop is the set of raised
  interrupts, or nothing to do.
\<close>

definition receive_hw :: "'w sys \<Rightarrow> 'w \<Rightarrow> u64 option \<times> 'w" where
  "receive_hw S w =
     (let (r, msg, ipc_status, w') = driver_receive S w
      in if r \<noteq> 0 then (None, w')
         else if is_ipc_notify ipc_status
         then (if ENDPOINT_P (m_source msg) = HARDWARE then (Some (interrupts msg), w')
               else (None, w'))
         else (None, w'))"

text \<open>\<open>msg.m_notify.interrupts & BIT(bit_no)\<close>\<close>

definition raised :: "u64 \<Rightarrow> u8 \<Rightarrow> bool" where
  "raised ints bit_no \<longleftrightarrow> ints AND BIT (unat bit_no) \<noteq> 0"

lemma raised_iff: "raised ints b \<longleftrightarrow> bit ints (unat b) \<and> unat b < 64"
  by (simp add: raised_def and_BIT_eq_0_iff)

text \<open>The world after a sequence of port writes whose return codes are ignored.\<close>

definition outs :: "'w sys \<Rightarrow> (int \<times> u32) list \<Rightarrow> 'w \<Rightarrow> 'w" where
  "outs S pvs w = fold (\<lambda>(p, v) w. snd (sys_outb S p v w)) pvs w"

lemma outs_simps [simp]:
  "outs S [] w = w"
  "outs S ((p, v) # pvs) w = outs S pvs (snd (sys_outb S p v w))"
  by (simp_all add: outs_def)

lemma outs_append: "outs S (xs @ ys) w = outs S ys (outs S xs w)"
  by (simp add: outs_def)


section \<open>Concrete worlds\<close>

text \<open>
  The witnesses run the code on concrete instances of the record. \<open>idle_sys\<close> works over any type
  of worlds: every call succeeds and leaves the world alone, no message ever arrives, and the
  frame buffer is that of VBE mode 0x115.
\<close>

definition idle_sys :: "'w sys" where
  "idle_sys = \<lparr>
     sys_inb = (\<lambda>p w. (0, 0, w)),
     sys_outb = (\<lambda>p v w. (0, w)),
     sys_irqsetpolicy = (\<lambda>irq policy hook w. (0, hook + 100, w)),
     sys_irqrmpolicy = (\<lambda>hook w. (0, hook, w)),
     sys_irqenable = (\<lambda>hook w. (0, hook, w)),
     sys_irqdisable = (\<lambda>hook w. (0, hook, w)),
     tickdelay = (\<lambda>t w. w),
     micros_to_ticks = (\<lambda>us. us div 16666),
     driver_receive = (\<lambda>w. (1, \<lparr>m_source = 0, interrupts = 0\<rparr>, 0, w)),
     sys_int86 = (\<lambda>r w. (0, w)),
     vbe_get_mode_info = (\<lambda>m w. (0, \<lparr>BytesPerScanLine = 2400, XResolution = 800,
       YResolution = 600, BitsPerPixel = 24, info_RedMaskSize = 8, info_GreenMaskSize = 8,
       info_BlueMaskSize = 8, PhysBasePtr = 0xE0000000\<rparr>, w)),
     sys_privctl_add_mem = (\<lambda>b l w. (0, w)),
     vm_map_phys = (\<lambda>b n w. (Some (\<lambda>_. 0, unat n), w)),
     vg_exit = (\<lambda>w. (0, w)),
     xpm_load = (\<lambda>m t img. img\<lparr>img_type := t\<rparr>),
     mouse_enable_data_reporting = (\<lambda>w. (0, w)),
     timer_print_config = (\<lambda>t f v w. w),
     timer_print_elapsed_time = (\<lambda>w. w),
     kbd_print_scancode = (\<lambda>m n b w. w),
     kbd_print_no_sysinb = (\<lambda>n w. w),
     mouse_print_packet = (\<lambda>p w. w)\<rparr>"

text \<open>
  In the scripted world port reads and messages come from two lists, writes go to a log, and a
  frame buffer is mapped with \<open>region\<close> accessible bytes. An exhausted list of messages makes
  \<open>driver_receive\<close> fail.
\<close>

record script =
  inputs :: "u32 list"
  inbox :: "message list"
  outlog :: "(int \<times> u32) list"
  region :: nat

definition script_inb :: "int \<Rightarrow> script \<Rightarrow> int \<times> u32 \<times> script" where
  "script_inb p w = (case inputs w of
       [] \<Rightarrow> (1, 0, w)
     | v # vs \<Rightarrow> (0, v, w\<lparr>inputs := vs\<rparr>))"

definition script_outb :: "int \<Rightarrow> u32 \<Rightarrow> script \<Rightarrow> int \<times> script" where
  "script_outb p v w = (0, w\<lparr>outlog := outlog w @ [(p, v)]\<rparr>)"

definition script_receive :: "script \<Rightarrow> int \<times> message \<times> int \<times> script" where
  "script_receive w = (case inbox w of
       [] \<Rightarrow> (1, \<lparr>m_source = 0, interrupts = 0\<rparr>, 0, w)
     | m # ms \<Rightarrow> (0, m, 4, w\<lparr>inbox := ms\<rparr>))"

definition script_sys :: "script sys" where
  "script_sys = idle_sys\<lparr>sys_inb := script_inb, sys_outb := script_outb,
     driver_receive := script_receive,
     vm_map_phys := (\<lambda>b n w. (Some (\<lambda>_. 0, region w), w))\<rparr>"

definition hw_message :: "u64 \<Rightarrow> message" where
  "hw_message i = \<lparr>m_source = HARDWARE, interrupts = i\<rparr>"

lemmas script_simps = script_sys_def idle_sys_def script_inb_def script_outb_def script_receive_def
  hw_message_def

definition demo_script :: "u32 list \<Rightarrow> message list \<Rightarrow> nat \<Rightarrow> script" where
  "demo_script ins ms n = \<lparr>inputs = ins, inbox = ms, outlog = [], region = n\<rparr>"

end
