(* ===== verification/Utils.thy ===== *)
theory Utils
  imports Sys_Interface
begin

text \<open>
  \<open>proj/src/utils.c\<close> (and its copies \<open>lab2/utils.c\<close> to \<open>lab5/utils.c\<close>): byte extraction and
  the counting wrapper of \<open>sys_inb\<close>. The record of its globals, which also carries the state of
  the world, is the root of the records of the drivers' globals.
\<close>


section \<open>State and operations\<close>

record 'w utils_st =
  world :: 'w
  countSysInb :: u32

definition util_get_LSB :: "u16 \<Rightarrow> u8" where
  "util_get_LSB val = ucast (0x00FF AND val)"

definition util_get_MSB :: "u16 \<Rightarrow> u8" where
  "util_get_MSB val = ucast (drop_bit 8 (0xFF00 AND val))"

text \<open>The value of the out-parameter and the new state; the return code is always 0.\<close>

definition util_sys_inb ::
    "'w sys \<Rightarrow> int \<Rightarrow> ('w, 'z) utils_st_scheme \<Rightarrow> int \<times> u8 \<times> ('w, 'z) utils_st_scheme" where
  "util_sys_inb S port s =
     (let (r, b, w) = sys_inb S port (world s)
      in (0, ucast b, s\<lparr>world := w, countSysInb := countSysInb s + 1\<rparr>))"

text \<open>\<open>sys_outb\<close> on the program state, for its effect.\<close>

definition outb :: "'w sys \<Rightarrow> int \<Rightarrow> u32 \<Rightarrow> ('w, 'z) utils_st_scheme \<Rightarrow> int \<times> ('w, 'z) utils_st_scheme"
  where "outb S port v s = (let (r, w) = sys_outb S port v (world s) in (r, s\<lparr>world := w\<rparr>))"

definition delay :: "'w sys \<Rightarrow> u32 \<Rightarrow> ('w, 'z) utils_st_scheme \<Rightarrow> ('w, 'z) utils_st_scheme" where
  "delay S us s = s\<lparr>world := tickdelay S (micros_to_ticks S us) (world s)\<rparr>"

text \<open>The value and the world of a port read.\<close>

definition inval :: "'w sys \<Rightarrow> int \<Rightarrow> 'w \<Rightarrow> u8" where
  "inval S port w = ucast (fst (snd (sys_inb S port w)))"

definition inworld :: "'w sys \<Rightarrow> int \<Rightarrow> 'w \<Rightarrow> 'w" where
  "inworld S port w = snd (snd (sys_inb S port w))"

lemma util_sys_inb_eq [simp]:
  "util_sys_inb S port s =
     (0, inval S port (world s),
      s\<lparr>world := inworld S port (world s), countSysInb := countSysInb s + 1\<rparr>)"
  by (simp add: util_sys_inb_def inval_def inworld_def split_beta)

lemma outb_eq: "outb S p v s = (fst (sys_outb S p v (world s)), s\<lparr>world := outs S [(p, v)] (world s)\<rparr>)"
  by (simp add: outb_def split_beta)

lemma snd_outb [simp]: "snd (outb S p v s) = s\<lparr>world := outs S [(p, v)] (world s)\<rparr>"
  by (simp add: outb_eq)


section \<open>Bytes of a 16-bit value\<close>

text \<open>A provider of the two halves of a 16-bit value, and what its clients conclude.\<close>

locale byte_halves =
  fixes lo :: "u16 \<Rightarrow> u8" and hi :: "u16 \<Rightarrow> u8"
  assumes join: "unat v = 256 * unat (hi v) + unat (lo v)"
begin

lemma halves_inj: "lo v = lo v' \<Longrightarrow> hi v = hi v' \<Longrightarrow> v = v'"
  by (metis join unsigned_word_eqI)

lemma hi_div: "unat (hi v) = unat v div 256"
  using unat_less [of "lo v"] by (simp add: join)

lemma lo_mod: "unat (lo v) = unat v mod 256"
  using unat_less [of "lo v"] by (simp add: join)

lemma join_word: "v = push_bit 8 (ucast (hi v)) OR ucast (lo v)"
proof -
  have "push_bit 8 (ucast (hi v)) AND (ucast (lo v) :: u16) = 0"
    by (rule bit_eqI) (auto simp: bit_simps dest: bit_imp_le_length)
  then have "push_bit 8 (ucast (hi v)) OR (ucast (lo v) :: u16)
      = push_bit 8 (ucast (hi v)) + ucast (lo v)"
    by (rule disjunctive_add_eq_or [symmetric])
  also have "\<dots> = of_nat (256 * unat (hi v) + unat (lo v))"
    by (simp add: push_bit_eq_mult unsigned_ucast_eq)
  finally show ?thesis
    by (simp flip: join)
qed

end
lemma util_get_LSB_mod: "unat (util_get_LSB v) = unat v mod 256"
proof -
  have "0x00FF AND v = take_bit 8 v"
    by (simp add: take_bit_eq_mask mask_eq_exp_minus_1 and.commute)
  then have "unat (util_get_LSB v) = take_bit 8 (unat v)"
    by (simp add: util_get_LSB_def unsigned_ucast_eq unsigned_take_bit_eq)
  then show ?thesis
    by (simp add: take_bit_eq_mod)
qed

lemma util_get_MSB_div: "unat (util_get_MSB v) = unat v div 256"
proof -
  have "(0xFF00 :: u16) = push_bit 8 (mask 8)"
    by (simp add: mask_eq_exp_minus_1 push_bit_eq_mult)
  then have "drop_bit 8 (0xFF00 AND v) = drop_bit 8 (push_bit 8 (mask 8) AND v)"
    by (rule arg_cong)
  also have "\<dots> = drop_bit 8 v"
    by (intro bit_eqI) (auto simp: bit_simps dest: bit_imp_le_length)
  finally have "drop_bit 8 (0xFF00 AND v) = drop_bit 8 v" .
  then have "unat (util_get_MSB v) = take_bit 8 (drop_bit 8 (unat v))"
    by (simp only: util_get_MSB_def unsigned_ucast_eq unsigned_drop_bit_eq) simp
  then show ?thesis
    using unat_less [of v] by (simp add: take_bit_eq_mod drop_bit_eq_div)
qed

interpretation halves: byte_halves util_get_LSB util_get_MSB
  by unfold_locales (simp add: util_get_LSB_mod util_get_MSB_div)

end
