(* ===== verification/Timer.thy ===== *)
theory Timer
  imports Utils
begin

text \<open>
  \<open>proj/src/timer.c\<close> and \<open>i8254.h\<close> (and the copies in \<open>lab2\<close> to \<open>lab5\<close>): the driver of the
  i8254 timers. The lemmas give the exact sequence of port accesses of every operation.
\<close>


section \<open>Constants of i8254.h\<close>

definition TIMER_FREQ :: u32 where
  [c_consts]: "TIMER_FREQ = 1193182"

definition TIMER0_IRQ :: int where
  [c_consts]: "TIMER0_IRQ = 0"

definition TIMER_0 :: int where
  [c_consts]: "TIMER_0 = 0x40"

definition TIMER_1 :: int where
  [c_consts]: "TIMER_1 = 0x41"

definition TIMER_2 :: int where
  [c_consts]: "TIMER_2 = 0x42"

definition TIMER_CTRL :: int where
  [c_consts]: "TIMER_CTRL = 0x43"

definition TIMER_RB_CMD :: u32 where
  "TIMER_RB_CMD = BIT 7 OR BIT 6"

definition TIMER_LSB :: u8 where
  "TIMER_LSB = BIT 4"

definition TIMER_MSB :: u8 where
  "TIMER_MSB = BIT 5"

definition TIMER_LSB_MSB :: u8 where
  "TIMER_LSB_MSB = TIMER_LSB OR TIMER_MSB"

definition TIMER_BCD :: u8 where
  [c_consts]: "TIMER_BCD = 0x01"

definition TIMER_RB_COUNT :: u32 where
  "TIMER_RB_COUNT = BIT 5"

definition TIMER_RB_SEL :: "nat \<Rightarrow> u32" where
  "TIMER_RB_SEL n = BIT (n + 1)"

definition TIMER_ACCESS :: u8 where
  [c_consts]: "TIMER_ACCESS = 0x30"

definition TIMER_MODE :: u8 where
  [c_consts]: "TIMER_MODE = 0x0E"


section \<open>State and operations\<close>

record 'w timer_st = "'w utils_st" +
  timer_hook_id :: int
  totalInterrupts :: u32

text \<open>
  \<open>st\<close> is the content of the out-variable before the call: an invalid timer leaves it as it is.
\<close>

definition timer_get_conf ::
    "'w sys \<Rightarrow> u8 \<Rightarrow> u8 \<Rightarrow> ('w, 'z) timer_st_scheme \<Rightarrow> int \<times> u8 \<times> ('w, 'z) timer_st_scheme" where
  "timer_get_conf S timer st s =
     (if timer = 0 then
        let ReadBack = TIMER_RB_CMD OR TIMER_RB_COUNT OR TIMER_RB_SEL 0;
            (_, s) = outb S TIMER_CTRL ReadBack s;
            (_, st, s) = util_sys_inb S TIMER_0 s
        in (0, st, s)
      else if timer = 1 then
        let ReadBack = TIMER_RB_CMD OR TIMER_RB_COUNT OR TIMER_RB_SEL 1;
            (_, s) = outb S TIMER_CTRL ReadBack s;
            (_, st, s) = util_sys_inb S TIMER_1 s
        in (0, st, s)
      else if timer = 2 then
        let ReadBack = TIMER_RB_CMD OR TIMER_RB_COUNT OR TIMER_RB_SEL 2;
            (_, s) = outb S TIMER_CTRL ReadBack s;
            (_, st, s) = util_sys_inb S TIMER_2 s
        in (0, st, s)
      else (1, st, s))"

text \<open>\<open>uninit\<close> is the content of the local \<open>initial_conf\<close>, which the code does not initialise.\<close>

definition timer_set_frequency ::
    "'w sys \<Rightarrow> u8 \<Rightarrow> u8 \<Rightarrow> u32 \<Rightarrow> ('w, 'z) timer_st_scheme \<Rightarrow> int \<times> ('w, 'z) timer_st_scheme" where
  "timer_set_frequency S uninit timer freq s =
     (let (_, initial_conf, s) = timer_get_conf S timer uninit s;
          initial_conf = initial_conf AND 0x0F;
          controlW = push_bit 6 timer OR TIMER_LSB_MSB OR initial_conf;
          (_, s) = outb S TIMER_CTRL (ucast controlW) s;
          port = (if timer = 0 then Some TIMER_0
                  else if timer = 1 then Some TIMER_1
                  else if timer = 2 then Some TIMER_2
                  else None)
      in case port of
           None \<Rightarrow> (1, s)
         | Some port \<Rightarrow>
             if freq < 18 then (1, s)
             else
               let divisor = ucast (TIMER_FREQ div freq) :: u16;
                   LSB_divisor = util_get_LSB divisor;
                   MSB_divisor = util_get_MSB divisor;
                   (_, s) = outb S port (ucast LSB_divisor) s;
                   (_, s) = outb S port (ucast MSB_divisor) s
               in (0, s))"

text \<open>The bit number for the interrupt mask, the return code and the new state.\<close>

definition timer_subscribe_int ::
    "'w sys \<Rightarrow> ('w, 'z) timer_st_scheme \<Rightarrow> u8 \<times> int \<times> ('w, 'z) timer_st_scheme" where
  "timer_subscribe_int S s =
     (let (_, hook, w) = sys_irqsetpolicy S TIMER0_IRQ IRQ_REENABLE 0 (world s)
      in (0, 0, s\<lparr>timer_hook_id := hook, world := w\<rparr>))"

definition timer_unsubscribe_int ::
    "'w sys \<Rightarrow> ('w, 'z) timer_st_scheme \<Rightarrow> int \<times> ('w, 'z) timer_st_scheme" where
  "timer_unsubscribe_int S s =
     (let (r, hook, w) = sys_irqrmpolicy S (timer_hook_id s) (world s)
      in (r, s\<lparr>timer_hook_id := hook, world := w\<rparr>))"

definition timer_int_handler :: "('w, 'z) timer_st_scheme \<Rightarrow> ('w, 'z) timer_st_scheme" where
  "timer_int_handler s = s\<lparr>totalInterrupts := totalInterrupts s + 1\<rparr>"

text \<open>The value of the union that \<open>timer_display_conf\<close> hands to the printer.\<close>

definition timer_field_val :: "u8 \<Rightarrow> timer_status_field \<Rightarrow> timer_status_field_val" where
  "timer_field_val st field =
     (let countingMode = drop_bit 1 (st AND TIMER_MODE)
      in case field of
           tsf_all \<Rightarrow> TSF_byte st
         | tsf_initial \<Rightarrow> TSF_in_mode (drop_bit 4 (st AND TIMER_ACCESS))
         | tsf_mode \<Rightarrow>
             if countingMode = 2 \<or> countingMode = 6 then TSF_count_mode 2
             else if countingMode = 3 \<or> countingMode = 7 then TSF_count_mode 3
             else TSF_count_mode countingMode
         | tsf_base \<Rightarrow> TSF_bcd (st AND TIMER_BCD \<noteq> 0))"

definition timer_display_conf ::
    "'w sys \<Rightarrow> u8 \<Rightarrow> u8 \<Rightarrow> timer_status_field \<Rightarrow> ('w, 'z) timer_st_scheme \<Rightarrow>
     int \<times> ('w, 'z) timer_st_scheme" where
  "timer_display_conf S timer st field s =
     (0, s\<lparr>world := timer_print_config S timer field (timer_field_val st field) (world s)\<rparr>)"


section \<open>Port traffic\<close>

text \<open>What the read-back command and the control word ask of the timer chip.\<close>

definition readback_word :: "u8 \<Rightarrow> u32" where
  "readback_word timer = TIMER_RB_CMD OR TIMER_RB_COUNT OR TIMER_RB_SEL (unat timer)"

definition timer_port :: "u8 \<Rightarrow> int" where
  "timer_port timer = TIMER_0 + int (unat timer)"

definition control_word :: "u8 \<Rightarrow> u8 \<Rightarrow> u8" where
  "control_word timer st = push_bit 6 timer OR TIMER_LSB_MSB OR (st AND 0x0F)"

lemma valid_timer_cases:
  fixes timer :: u8
  assumes "timer \<le> 2"
  obtains "timer = 0" | "timer = 1" | "timer = 2"
proof -
  from assms have "unat timer \<le> 2"
    by (simp add: word_le_nat_alt)
  then have "unat timer = 0 \<or> unat timer = 1 \<or> unat timer = 2"
    by linarith
  then have "timer = 0 \<or> timer = 1 \<or> timer = 2"
    by (simp add: word_unat_eq_iff)
  then show ?thesis
    using that by blast
qed

lemma timer_get_conf_valid:
  assumes "timer \<le> 2"
  shows "timer_get_conf S timer st s =
    (let w = outs S [(TIMER_CTRL, readback_word timer)] (world s)
     in (0, inval S (timer_port timer) w,
         s\<lparr>world := inworld S (timer_port timer) w, countSysInb := countSysInb s + 1\<rparr>))"
  using assms
  by (rule valid_timer_cases)
    (simp_all add: timer_get_conf_def outb_eq readback_word_def timer_port_def c_consts Let_def)

lemma timer_get_conf_invalid: "2 < timer \<Longrightarrow> timer_get_conf S timer st s = (1, st, s)"
  by (auto simp: timer_get_conf_def)

lemma control_word_fields:
  assumes "timer \<le> 2"
  shows "drop_bit 6 (control_word timer st) = timer"
    and "control_word timer st AND TIMER_ACCESS = TIMER_ACCESS"
    and "control_word timer st AND 0x0F = st AND 0x0F"
proof -
  have *: "TIMER_LSB_MSB = push_bit 4 (mask 2)" "TIMER_ACCESS = push_bit 4 (mask 2)"
    "(0x0F :: u8) = mask 4"
    by (simp_all add: TIMER_LSB_MSB_def TIMER_LSB_def TIMER_MSB_def TIMER_ACCESS_def BIT_def
        mask_eq_exp_minus_1 push_bit_eq_mult)
  have "take_bit 2 timer = timer"
    using assms by (rule valid_timer_cases) simp_all
  then have t: "bit timer n \<Longrightarrow> n < 2" for n
    by (metis bit_take_bit_iff)
  show "drop_bit 6 (control_word timer st) = timer"
    unfolding control_word_def * by (rule bit_eqI) (auto simp: bit_simps dest: t)
  show "control_word timer st AND TIMER_ACCESS = TIMER_ACCESS"
    unfolding control_word_def * by (rule bit_eqI) (auto simp: bit_simps)
  show "control_word timer st AND 0x0F = st AND 0x0F"
    unfolding control_word_def * by (rule bit_eqI) (auto simp: bit_simps dest: t)
qed

lemma timer_set_frequency_valid:
  assumes "timer \<le> 2" and "18 \<le> freq"
  shows "timer_set_frequency S uninit timer freq s =
    (let port = timer_port timer;
         w = outs S [(TIMER_CTRL, readback_word timer)] (world s);
         divisor = ucast (TIMER_FREQ div freq)
     in (0, s\<lparr>world := outs S
                 [(TIMER_CTRL, ucast (control_word timer (inval S port w))),
                  (port, ucast (util_get_LSB divisor)),
                  (port, ucast (util_get_MSB divisor))] (inworld S port w),
               countSysInb := countSysInb s + 1\<rparr>))"
proof -
  have "\<not> freq < 18"
    using assms(2) by simp
  with assms(1) show ?thesis
    unfolding timer_set_frequency_def timer_get_conf_valid [OF assms(1)]
    by (elim valid_timer_cases)
      (simp_all add: outb_eq control_word_def timer_port_def c_consts Let_def)
qed

lemma divisor_exact:
  assumes "19 \<le> freq"
  shows "unat (ucast (TIMER_FREQ div freq) :: u16) = 1193182 div unat freq"
proof -
  have "19 \<le> unat freq"
    using assms by (simp add: word_le_nat_alt)
  then have "1193182 div unat freq \<le> 1193182 div 19"
    by (intro div_le_mono2) simp_all
  then have "1193182 div unat freq < 2 ^ 16"
    by simp
  then show ?thesis
    by (simp add: TIMER_FREQ_def unsigned_ucast_eq unat_div take_bit_nat_eq_self)
qed


section \<open>Properties\<close>

definition timer_demo :: "u32 list \<Rightarrow> script timer_st" where
  "timer_demo ins = \<lparr>world = demo_script ins [] 0, countSysInb = 0,
     timer_hook_id = 0, totalInterrupts = 0\<rparr>"

text \<open>
  C39. For a valid timer and a frequency from 19 up, \<open>timer_set_frequency\<close> succeeds, and what it
  sends is: the read-back command for that timer, a control word that selects the timer, asks for
  LSB-then-MSB access and keeps the mode and BCD bits just read back, then the two bytes of
  \<open>TIMER_FREQ / freq\<close>, low byte first, on the timer's own port.
\<close>

theorem timer_set_frequency_programs_divisor:
  assumes "timer \<le> 2" and "19 \<le> freq"
  shows "\<exists>(cw :: u8) (lsb :: u8) (msb :: u8).
    timer_set_frequency S uninit timer freq s =
      (0, s\<lparr>world := outs S [(TIMER_CTRL, ucast cw), (timer_port timer, ucast lsb),
                            (timer_port timer, ucast msb)]
                 (inworld S (timer_port timer)
                   (outs S [(TIMER_CTRL, readback_word timer)] (world s))),
            countSysInb := countSysInb s + 1\<rparr>)
    \<and> 256 * unat msb + unat lsb = 1193182 div unat freq
    \<and> drop_bit 6 cw = timer
    \<and> cw AND TIMER_ACCESS = TIMER_ACCESS
    \<and> cw AND 0x0F = inval S (timer_port timer)
          (outs S [(TIMER_CTRL, readback_word timer)] (world s)) AND 0x0F"
proof -
  have "18 \<le> freq"
    using assms(2) by (simp add: word_le_nat_alt)
  note run = timer_set_frequency_valid [OF assms(1) this, of S uninit s, unfolded Let_def]
  let ?d = "ucast (TIMER_FREQ div freq) :: u16"
  let ?st = "inval S (timer_port timer) (outs S [(TIMER_CTRL, readback_word timer)] (world s))"
  have "256 * unat (util_get_MSB ?d) + unat (util_get_LSB ?d) = 1193182 div unat freq"
    by (simp add: divisor_exact [OF assms(2)] flip: halves.join)
  then show ?thesis
    using run control_word_fields [OF assms(1), of ?st] by blast
qed

theorem timer_set_frequency_programs_divisor_witness:
  "(1 :: u8) \<le> 2 \<and> (19 :: u32) \<le> 60
   \<and> fst (timer_set_frequency script_sys 0 1 60 (timer_demo [0x36])) = 0
   \<and> (\<exists>(lsb :: u8) (msb :: u8). 256 * unat msb + unat lsb = 19886)"
proof -
  have h: "(1 :: u8) \<le> 2" "(19 :: u32) \<le> 60" by simp_all
  show ?thesis
    using h timer_set_frequency_programs_divisor [OF h, of script_sys 0 "timer_demo [0x36]"]
    by auto
qed

text \<open>
  The guard \<open>freq < 18\<close> lets 18 through, whose divisor 66287 does not fit the 16-bit
  \<open>divisor\<close>: timer 0 is programmed with 751 (bytes 239 and 2) and runs at about 1588 Hz, and the
  call reports success.
\<close>

lemma timer_set_frequency_18_wraps:
  "timer_set_frequency S uninit 0 18 s =
     (0, s\<lparr>world := outs S
             [(TIMER_CTRL, ucast (control_word 0 (inval S TIMER_0
                 (outs S [(TIMER_CTRL, readback_word 0)] (world s))))),
              (TIMER_0, 239), (TIMER_0, 2)]
             (inworld S TIMER_0 (outs S [(TIMER_CTRL, readback_word 0)] (world s))),
           countSysInb := countSysInb s + 1\<rparr>)"
  by (simp add: timer_set_frequency_valid timer_port_def TIMER_FREQ_def util_get_LSB_def
      util_get_MSB_def Let_def)

text \<open>
  A rejected call (invalid timer, or frequency below 18) returns 1 and writes no count byte,
  but the control register has been written by then: for a valid timer it has received the
  read-back command and a new control word, for an invalid one a control word built from the
  uninitialised \<open>initial_conf\<close>.
\<close>

lemma timer_set_frequency_rejects:
  assumes "2 < timer \<or> freq < 18"
  shows "timer_set_frequency S uninit timer freq s =
    (if timer \<le> 2
     then let w = outs S [(TIMER_CTRL, readback_word timer)] (world s)
          in (1, s\<lparr>world := outs S [(TIMER_CTRL, ucast (control_word timer
                                    (inval S (timer_port timer) w)))]
                           (inworld S (timer_port timer) w),
                  countSysInb := countSysInb s + 1\<rparr>)
     else (1, s\<lparr>world := outs S [(TIMER_CTRL, ucast (control_word timer uninit))] (world s)\<rparr>))"
proof (cases "timer \<le> 2")
  case True
  with assms have "freq < 18" by (meson leD)
  with True show ?thesis
    unfolding timer_set_frequency_def timer_get_conf_valid [OF True]
    by (elim valid_timer_cases) (simp_all add: outb_eq control_word_def timer_port_def c_consts Let_def)
next
  case False
  then have "2 < timer" by simp
  with False show ?thesis
    by (auto simp: timer_set_frequency_def timer_get_conf_invalid outb_eq control_word_def Let_def)
qed

lemma timer_set_frequency_rejects_witness:
  "((2 :: u8) < 0 \<or> (17 :: u32) < 18)
   \<and> fst (timer_set_frequency script_sys 0 0 17 (timer_demo [0x36])) = 1"
proof -
  have h: "(2 :: u8) < 0 \<or> (17 :: u32) < 18" by simp
  show ?thesis
    using h timer_set_frequency_rejects [OF h, of script_sys 0 "timer_demo [0x36]"]
    by (simp add: Let_def)
qed

text \<open>
  \<open>timer_display_conf\<close> decodes the counting mode of every status byte into one of the six
  modes 0 to 5, with the two don't-care encodings 6 and 7 read as modes 2 and 3.
\<close>

lemma timer_display_conf_mode_canonical:
  "\<exists>m. timer_field_val st tsf_mode = TSF_count_mode m \<and> m \<le> 5
     \<and> (m = drop_bit 1 (st AND TIMER_MODE) \<or> m + 4 = drop_bit 1 (st AND TIMER_MODE))"
proof -
  define c where "c = drop_bit 1 (st AND TIMER_MODE)"
  have "c = drop_bit 1 st AND drop_bit 1 TIMER_MODE"
    by (simp only: c_def drop_bit_and)
  also have "\<dots> = drop_bit 1 st AND 7"
    by (simp add: TIMER_MODE_def)
  also have "\<dots> \<le> 7"
    by (rule word_and_le1)
  finally have "unat c \<le> 7"
    by (simp add: word_le_nat_alt)
  then have "unat c \<in> {0, 1, 2, 3, 4, 5, 6, 7}"
    by auto
  then have "c \<in> {0, 1, 2, 3, 4, 5, 6, 7}"
    by (auto simp: word_unat_eq_iff)
  then show ?thesis
    unfolding timer_field_val_def c_def [symmetric] Let_def by auto
qed

end
