(* ===== verification/Kbc.thy ===== *)
theory Kbc
  imports Timer
begin

text \<open>
  The part of \<open>proj/src/keyboard.c\<close> and \<open>keyboard.h\<close> that the keyboard and the mouse drivers
  share, and that is the same in the copies \<open>lab3\<close> to \<open>lab5\<close>: controller commands, interrupt
  subscription, and the two-register read that opens every handler; and the plain handler of the
  lab copies, which only keeps the scan code.
\<close>


section \<open>Constants of keyboard.h\<close>

definition MSB :: u8 where
  "MSB = BIT 7"

definition LSB :: u8 where
  "LSB = BIT 0"

definition ESC_BREAK_CODE :: u8 where
  [c_consts]: "ESC_BREAK_CODE = 0x81"

definition KBD_IRQ :: int where
  [c_consts]: "KBD_IRQ = 1"

definition DELAY_US :: u32 where
  [c_consts]: "DELAY_US = 20000"

definition INT_KBC :: u8 where
  [c_consts]: "INT_KBC = 0x01"

definition READ_CMD_BYTE :: u32 where
  [c_consts]: "READ_CMD_BYTE = 0x20"

definition WRITE_CMD_BYTE :: u32 where
  [c_consts]: "WRITE_CMD_BYTE = 0x60"

definition KBC_OUT_BUF :: int where
  [c_consts]: "KBC_OUT_BUF = 0x60"

definition KBC_ST_REG :: int where
  [c_consts]: "KBC_ST_REG = 0x64"

definition KBC_CMD_REG :: int where
  [c_consts]: "KBC_CMD_REG = 0x64"

definition KBC_PAR_ERR :: u8 where
  "KBC_PAR_ERR = BIT 7"

definition KBC_ST_IBF :: u8 where
  "KBC_ST_IBF = BIT 1"

definition KBC_OUT_FULL :: u8 where
  "KBC_OUT_FULL = BIT 0"

definition KBC_TO_ERR :: u8 where
  "KBC_TO_ERR = BIT 6"

definition KBC_AUX :: u8 where
  "KBC_AUX = BIT 5"

lemmas kbc_bits = MSB_def LSB_def KBC_PAR_ERR_def KBC_ST_IBF_def KBC_OUT_FULL_def KBC_TO_ERR_def
  KBC_AUX_def


section \<open>Controller commands\<close>

text \<open>
  The loop of \<open>send_KBC_command_byte\<close> with \<open>n\<close> rounds left; it works on any state that extends
  the globals of \<open>utils.c\<close>.
\<close>

primrec send_KBC_loop ::
    "nat \<Rightarrow> 'w sys \<Rightarrow> u32 \<Rightarrow> ('w, 'z) utils_st_scheme \<Rightarrow> int \<times> ('w, 'z) utils_st_scheme" where
  "send_KBC_loop 0 S cmd s = (1, s)"
| "send_KBC_loop (Suc n) S cmd s =
     (let (_, stat, s) = util_sys_inb S KBC_ST_REG s
      in if stat AND KBC_ST_IBF = 0
         then let (_, s) = outb S KBC_CMD_REG cmd s in (0, s)
         else send_KBC_loop n S cmd (delay S DELAY_US s))"

definition send_KBC_command_byte ::
    "'w sys \<Rightarrow> u32 \<Rightarrow> ('w, 'z) utils_st_scheme \<Rightarrow> int \<times> ('w, 'z) utils_st_scheme" where
  "send_KBC_command_byte S cmd s = send_KBC_loop 10 S cmd s"

definition read_command_byte ::
    "'w sys \<Rightarrow> ('w, 'z) utils_st_scheme \<Rightarrow> int \<times> u8 \<times> ('w, 'z) utils_st_scheme" where
  "read_command_byte S s = util_sys_inb S KBC_OUT_BUF s"

definition write_command_byte ::
    "'w sys \<Rightarrow> u8 \<Rightarrow> ('w, 'z) utils_st_scheme \<Rightarrow> int \<times> ('w, 'z) utils_st_scheme" where
  "write_command_byte S command s = outb S KBC_OUT_BUF (ucast command) s"

definition enableInterrupts :: "'w sys \<Rightarrow> ('w, 'z) utils_st_scheme \<Rightarrow> ('w, 'z) utils_st_scheme" where
  "enableInterrupts S s =
     (let (_, s) = send_KBC_command_byte S READ_CMD_BYTE s;
          (_, command, s) = read_command_byte S s;
          (_, s) = send_KBC_command_byte S WRITE_CMD_BYTE s;
          (_, s) = write_command_byte S (command OR INT_KBC) s
      in s)"


section \<open>State, subscription and the plain handler\<close>

record 'w kbc_st = "'w timer_st" +
  scanCode :: u8
  hook_idKEYBOARD :: int

definition keyboard_subscribe_int ::
    "'w sys \<Rightarrow> ('w, 'z) kbc_st_scheme \<Rightarrow> u8 \<times> int \<times> ('w, 'z) kbc_st_scheme" where
  "keyboard_subscribe_int S s =
     (let (r, hook, w) = sys_irqsetpolicy S KBD_IRQ (IRQ_REENABLE OR IRQ_EXCLUSIVE)
                           (hook_idKEYBOARD s) (world s)
      in (word_of_int KBD_IRQ, r, s\<lparr>hook_idKEYBOARD := hook, world := w\<rparr>))"

definition keyboard_unsubscribe_int ::
    "'w sys \<Rightarrow> ('w, 'z) kbc_st_scheme \<Rightarrow> int \<times> ('w, 'z) kbc_st_scheme" where
  "keyboard_unsubscribe_int S s =
     (let (r, hook, w) = sys_irqrmpolicy S (hook_idKEYBOARD s) (world s)
      in (r, s\<lparr>hook_idKEYBOARD := hook, world := w\<rparr>))"

text \<open>\<open>kbc_ih\<close> of \<open>lab3/keyboard.c\<close>, \<open>lab4/keyboard.c\<close> and \<open>lab5/keyboard.c\<close>.\<close>

definition lab_kbc_ih :: "'w sys \<Rightarrow> ('w, 'z) kbc_st_scheme \<Rightarrow> ('w, 'z) kbc_st_scheme" where
  "lab_kbc_ih S s =
     (let (_, status, s) = util_sys_inb S KBC_ST_REG s;
          (_, temp, s) = util_sys_inb S KBC_OUT_BUF s
      in if status AND LSB = 1 \<and> status AND (KBC_PAR_ERR OR KBC_TO_ERR OR KBC_AUX) = 0
         then s\<lparr>scanCode := temp\<rparr>
         else s)"


section \<open>Command handshake\<close>

text \<open>The world after \<open>k\<close> polls that found the input buffer full, and the test of one poll.\<close>

definition kbc_wait :: "'w sys \<Rightarrow> nat \<Rightarrow> 'w \<Rightarrow> 'w" where
  "kbc_wait S k =
     ((\<lambda>w. tickdelay S (micros_to_ticks S DELAY_US) (inworld S KBC_ST_REG w)) ^^ k)"

definition kbc_busy :: "'w sys \<Rightarrow> 'w \<Rightarrow> bool" where
  "kbc_busy S w \<longleftrightarrow> bit (inval S KBC_ST_REG w) 1"

lemma kbc_wait_0 [simp]: "kbc_wait S 0 w = w"
  by (simp add: kbc_wait_def)

lemma kbc_wait_Suc:
  "kbc_wait S (Suc k) w =
     kbc_wait S k (tickdelay S (micros_to_ticks S DELAY_US) (inworld S KBC_ST_REG w))"
  by (simp add: kbc_wait_def funpow_Suc_right del: funpow.simps)

lemma send_KBC_loop_Suc:
  "send_KBC_loop (Suc n) S cmd s =
     (if kbc_busy S (world s)
      then send_KBC_loop n S cmd
             (s\<lparr>countSysInb := countSysInb s + 1, world := kbc_wait S 1 (world s)\<rparr>)
      else (0, s\<lparr>world := outs S [(KBC_CMD_REG, cmd)] (inworld S KBC_ST_REG (world s)),
                 countSysInb := countSysInb s + 1\<rparr>))"
  by (simp add: kbc_busy_def KBC_ST_IBF_def and_BIT_eq_0_iff outb_eq delay_def kbc_wait_def)

lemma send_KBC_loop_gives_up:
  "(\<And>k. k < n \<Longrightarrow> kbc_busy S (kbc_wait S k (world s))) \<Longrightarrow>
   send_KBC_loop n S cmd s =
     (1, s\<lparr>world := kbc_wait S n (world s), countSysInb := countSysInb s + of_nat n\<rparr>)"
proof (induction n arbitrary: s)
  case 0
  then show ?case by simp
next
  case (Suc n)
  have "kbc_busy S (world s)"
    using Suc.prems [of 0] by simp
  moreover have "kbc_busy S (kbc_wait S k (kbc_wait S 1 (world s)))" if "k < n" for k
    using Suc.prems [of "Suc k"] that by (simp add: kbc_wait_Suc)
  ultimately show ?case
    by (simp add: send_KBC_loop_Suc Suc.IH kbc_wait_Suc add.assoc del: send_KBC_loop.simps)
qed

lemma send_KBC_loop_sends:
  "k < n \<Longrightarrow> \<not> kbc_busy S (kbc_wait S k (world s)) \<Longrightarrow>
   (\<And>j. j < k \<Longrightarrow> kbc_busy S (kbc_wait S j (world s))) \<Longrightarrow>
   send_KBC_loop n S cmd s =
     (0, s\<lparr>world := outs S [(KBC_CMD_REG, cmd)]
                     (inworld S KBC_ST_REG (kbc_wait S k (world s))),
           countSysInb := countSysInb s + of_nat (Suc k)\<rparr>)"
proof (induction k arbitrary: n s)
  case 0
  then show ?case
    by (cases n) (simp_all add: send_KBC_loop_Suc del: send_KBC_loop.simps)
next
  case (Suc k)
  then obtain m where n: "n = Suc m" and m: "k < m"
    by (cases n) auto
  have "kbc_busy S (world s)"
    using Suc.prems(3) [of 0] by simp
  moreover have "\<not> kbc_busy S (kbc_wait S k (kbc_wait S 1 (world s)))"
    using Suc.prems(2) by (simp add: kbc_wait_Suc)
  moreover have "kbc_busy S (kbc_wait S j (kbc_wait S 1 (world s)))" if "j < k" for j
    using Suc.prems(3) [of "Suc j"] that by (simp add: kbc_wait_Suc)
  ultimately show ?case
    using m by (simp add: n send_KBC_loop_Suc Suc.IH kbc_wait_Suc add.assoc
        del: send_KBC_loop.simps)
qed


section \<open>The two reads of a handler\<close>

definition valid_kbd_status :: "u8 \<Rightarrow> bool" where
  "valid_kbd_status status \<longleftrightarrow> bit status 0 \<and> \<not> bit status 5 \<and> \<not> bit status 6 \<and> \<not> bit status 7"

lemma status_masks:
  "status AND LSB = 1 \<and> status AND (KBC_PAR_ERR OR KBC_TO_ERR OR KBC_AUX) = 0
   \<longleftrightarrow> valid_kbd_status status"
proof -
  have "status AND (KBC_PAR_ERR OR KBC_TO_ERR OR KBC_AUX) = 0 \<longleftrightarrow>
      status AND KBC_PAR_ERR = 0 \<and> status AND KBC_TO_ERR = 0 \<and> status AND KBC_AUX = 0"
    by (simp add: bit.conj_disj_distrib or_eq_0_iff)
  then show ?thesis
    by (auto simp: kbc_bits and_BIT_eq_0_iff and_BIT_0_eq_1_iff valid_kbd_status_def)
qed

text \<open>
  The status and the data byte one interrupt reads, and the state with those two reads done:
  the shape of every handler of the controller.
\<close>

definition kbc_status :: "'w sys \<Rightarrow> 'w \<Rightarrow> u8" where
  "kbc_status S w = inval S KBC_ST_REG w"

definition kbc_data :: "'w sys \<Rightarrow> 'w \<Rightarrow> u8" where
  "kbc_data S w = inval S KBC_OUT_BUF (inworld S KBC_ST_REG w)"

definition kbc_read2 :: "'w sys \<Rightarrow> ('w, 'z) utils_st_scheme \<Rightarrow> ('w, 'z) utils_st_scheme" where
  "kbc_read2 S s =
     s\<lparr>world := inworld S KBC_OUT_BUF (inworld S KBC_ST_REG (world s)),
       countSysInb := countSysInb s + 2\<rparr>"

lemma kbc_read2_simps [simp]:
  "scanCode (kbc_read2 S s) = scanCode s"
  "totalInterrupts (kbc_read2 S s) = totalInterrupts s"
  by (simp_all add: kbc_read2_def)

lemma lab_kbc_ih_eq:
  "lab_kbc_ih S s =
     (if valid_kbd_status (kbc_status S (world s))
      then (kbc_read2 S s)\<lparr>scanCode := kbc_data S (world s)\<rparr>
      else kbc_read2 S s)"
  unfolding lab_kbc_ih_def util_sys_inb_eq
  by (simp add: status_masks kbc_status_def kbc_data_def kbc_read2_def)


section \<open>Properties\<close>

text \<open>
  C38. \<open>send_KBC_command_byte\<close> polls the status register at most ten times. If the input buffer
  is seen empty at poll \<open>k\<close>, and not before, the command byte is written once, after exactly
  \<open>k\<close> delays, and 0 is returned; if it is full at all ten polls, nothing is written and 1 is
  returned. Every status read is counted.
\<close>

theorem send_KBC_command_byte_spec:
  "send_KBC_command_byte S cmd s =
     (if \<exists>k<10. \<not> kbc_busy S (kbc_wait S k (world s))
      then let k = LEAST k. \<not> kbc_busy S (kbc_wait S k (world s))
           in (0, s\<lparr>world := outs S [(KBC_CMD_REG, cmd)]
                               (inworld S KBC_ST_REG (kbc_wait S k (world s))),
                    countSysInb := countSysInb s + of_nat (Suc k)\<rparr>)
      else (1, s\<lparr>world := kbc_wait S 10 (world s), countSysInb := countSysInb s + 10\<rparr>))"
proof (cases "\<exists>k<10. \<not> kbc_busy S (kbc_wait S k (world s))")
  case True
  define k where "k = (LEAST k. \<not> kbc_busy S (kbc_wait S k (world s)))"
  obtain j where "j < 10" and "\<not> kbc_busy S (kbc_wait S j (world s))"
    using True by blast
  then have "k < 10" and "\<not> kbc_busy S (kbc_wait S k (world s))"
    unfolding k_def by (metis (mono_tags, lifting) LeastI Least_le le_less_trans)+
  moreover have "kbc_busy S (kbc_wait S j (world s))" if "j < k" for j
    using not_less_Least that unfolding k_def by blast
  ultimately show ?thesis
    using True by (simp add: send_KBC_command_byte_def send_KBC_loop_sends Let_def
        del: send_KBC_loop.simps flip: k_def)
next
  case False
  then show ?thesis
    unfolding if_not_P [OF False] send_KBC_command_byte_def
    by (subst send_KBC_loop_gives_up) auto
qed

end
