(* ===== verification/Mouse.thy ===== *)
theory Mouse
  imports Kbc
begin

text \<open>
  \<open>proj/src/mouse.c\<close> and \<open>mouse.h\<close> (and the copy in \<open>lab4\<close>): the PS/2 mouse driver, and the
  assembly of three-byte packets that the driver loops of \<open>main.c\<close> and \<open>lab4.c\<close> do byte by byte.
\<close>


section \<open>State and operations\<close>

definition MOUSE_IRQ :: int where
  [c_consts]: "MOUSE_IRQ = 12"

record 'w mouse_st = "'w kbc_st" +
  byteFromMouse :: u8
  hook_idMOUSE :: int

definition mouse_ih :: "'w sys \<Rightarrow> ('w, 'z) mouse_st_scheme \<Rightarrow> ('w, 'z) mouse_st_scheme" where
  "mouse_ih S s =
     (let (_, status, s) = util_sys_inb S KBC_ST_REG s;
          (_, temp, s) = util_sys_inb S KBC_OUT_BUF s
      in if (status AND KBC_PAR_ERR) OR (status AND KBC_TO_ERR) = 0
            \<and> status AND KBC_OUT_FULL = 1 \<and> status AND KBC_AUX \<noteq> 0
         then s\<lparr>byteFromMouse := temp\<rparr>
         else s)"

definition parse_mouse_bytes :: "packet \<Rightarrow> packet" where
  "parse_mouse_bytes pp =
     (let b0 = pbytes pp ! 0; b1 = pbytes pp ! 1; b2 = pbytes pp ! 2
      in pp\<lparr>lb := (b0 AND BIT 0 \<noteq> 0), mb := (b0 AND BIT 2 \<noteq> 0), rb := (b0 AND BIT 1 \<noteq> 0),
            x_ov := (b0 AND BIT 6 \<noteq> 0), y_ov := (b0 AND BIT 7 \<noteq> 0),
            delta_x := (if b0 AND BIT 4 = 0 then ucast b1 else - 256 + ucast b1),
            delta_y := (if b0 AND BIT 5 = 0 then ucast b2 else - 256 + ucast b2)\<rparr>)"

definition disableDataReporting ::
    "'w sys \<Rightarrow> ('w, 'z) mouse_st_scheme \<Rightarrow> ('w, 'z) mouse_st_scheme" where
  "disableDataReporting S s =
     (let (_, s) = send_KBC_command_byte S 0xD4 s;
          s = delay S 27000 s;
          (_, _, s) = read_command_byte S s;
          (_, s) = write_command_byte S 0xF6 s;
          s = delay S 27000 s;
          (_, _, s) = read_command_byte S s
      in s)"

definition mouse_subscribe_int ::
    "'w sys \<Rightarrow> ('w, 'z) mouse_st_scheme \<Rightarrow> u8 \<times> int \<times> ('w, 'z) mouse_st_scheme" where
  "mouse_subscribe_int S s =
     (let bit_no = word_of_int (hook_idMOUSE s);
          (r, hook, w) = sys_irqsetpolicy S MOUSE_IRQ (IRQ_REENABLE OR IRQ_EXCLUSIVE)
                           (hook_idMOUSE s) (world s)
      in (bit_no, r, s\<lparr>hook_idMOUSE := hook, world := w\<rparr>))"

definition mouse_unsubscribe_int ::
    "'w sys \<Rightarrow> ('w, 'z) mouse_st_scheme \<Rightarrow> int \<times> ('w, 'z) mouse_st_scheme" where
  "mouse_unsubscribe_int S s =
     (let (r, hook, w) = sys_irqrmpolicy S (hook_idMOUSE s) (world s)
      in (r, s\<lparr>hook_idMOUSE := hook, world := w\<rparr>))"

text \<open>
  The collection step of the driver loops: a byte goes to \<open>bytes[counter]\<close> unless it would be
  the first one and lacks the always-one bit. The array has three elements.
\<close>

definition mouse_collect :: "u8 \<Rightarrow> u8 \<Rightarrow> packet \<Rightarrow> fault + (u8 \<times> packet)" where
  "mouse_collect byte counter pp =
     (if \<not> (counter = 0 \<and> byte AND BIT 3 = 0)
      then (if unat counter < 3
            then Inr (counter + 1, pp\<lparr>pbytes := (pbytes pp)[unat counter := byte]\<rparr>)
            else Inl Bad_access)
      else Inr (counter, pp))"

text \<open>
  The step as the loops make it: collect the byte, and when it was the third one, start over and
  decode. The last component says whether a packet was completed.
\<close>

definition mouse_step :: "u8 \<Rightarrow> u8 \<Rightarrow> packet \<Rightarrow> fault + (u8 \<times> packet \<times> bool)" where
  "mouse_step byte counter pp =
     bind_res (mouse_collect byte counter pp)
       (\<lambda>(counter, pp). if counter = 3 then Inr (0, parse_mouse_bytes pp, True)
                        else Inr (counter, pp, False))"


section \<open>Decoding\<close>

definition valid_mouse_status :: "u8 \<Rightarrow> bool" where
  "valid_mouse_status status \<longleftrightarrow> bit status 0 \<and> bit status 5 \<and> \<not> bit status 6 \<and> \<not> bit status 7"

lemma mouse_ih_eq:
  "mouse_ih S s =
     (if valid_mouse_status (kbc_status S (world s))
      then (kbc_read2 S s)\<lparr>byteFromMouse := kbc_data S (world s)\<rparr>
      else kbc_read2 S s)"
  unfolding mouse_ih_def util_sys_inb_eq
  by (auto simp: kbc_status_def kbc_data_def kbc_read2_def valid_mouse_status_def kbc_bits
      or_eq_0_iff and_BIT_eq_0_iff and_BIT_0_eq_1_iff)

lemma sint_ucast_byte [simp]: "sint (ucast (c :: u8) :: u16) = uint c"
proof -
  have "- (2 ^ 15) \<le> uint c" "uint c < 2 ^ 15"
    using uint_lt2p [of c] uint_ge_0 [of c] by (simp_all, linarith)
  then have "signed_take_bit 15 (uint c) = uint c"
    by (rule signed_take_bit_int_eq_self)
  then show ?thesis
    by (simp add: signed_ucast_eq)
qed

lemma sint_ucast_byte_minus [simp]: "sint (ucast (c :: u8) - 256 :: u16) = uint c - 256"
proof -
  have w: "(ucast c - 256 :: u16) = word_of_int (uint c - 256)"
    by (simp add: unsigned_ucast_eq)
  have "- (2 ^ 15) \<le> uint c - 256"
    using uint_ge_0 [of c] by simp
  moreover have "uint c - 256 < 2 ^ 15"
    using uint_lt2p [of c] by simp
  ultimately have "signed_take_bit 15 (uint c - 256) = uint c - 256"
    by (rule signed_take_bit_int_eq_self)
  then show ?thesis
    unfolding w by (simp only: signed_of_int) simp
qed

lemma parse_mouse_bytes_fields:
  assumes "pbytes pp = [b0, b1, b2]"
  shows "sint (delta_x (parse_mouse_bytes pp)) = int (unat b1) - (if bit b0 4 then 256 else 0)"
    and "sint (delta_y (parse_mouse_bytes pp)) = int (unat b2) - (if bit b0 5 then 256 else 0)"
    and "lb (parse_mouse_bytes pp) = bit b0 0"
    and "rb (parse_mouse_bytes pp) = bit b0 1"
    and "mb (parse_mouse_bytes pp) = bit b0 2"
    and "x_ov (parse_mouse_bytes pp) = bit b0 6"
    and "y_ov (parse_mouse_bytes pp) = bit b0 7"
    and "pbytes (parse_mouse_bytes pp) = pbytes pp"
  by (simp_all add: parse_mouse_bytes_def assms and_BIT_eq_0_iff Let_def)


section \<open>Packets in a byte stream\<close>

text \<open>
  The driver loop on a stream of bytes: the packets it completes, in order, with the loop's state
  \<open>(counter, pp)\<close> carried along.
\<close>

fun mouse_run :: "u8 list \<Rightarrow> u8 \<Rightarrow> packet \<Rightarrow> fault + (packet list \<times> u8 \<times> packet)" where
  "mouse_run [] counter pp = Inr ([], counter, pp)"
| "mouse_run (b # bs) counter pp =
     bind_res (mouse_step b counter pp)
       (\<lambda>(counter, pp, done). bind_res (mouse_run bs counter pp)
          (\<lambda>(ps, r). Inr (if done then pp # ps else ps, r)))"

text \<open>What a packet stream means: skip to a byte with the always-one bit, then take three bytes.\<close>

fun packets_of :: "u8 list \<Rightarrow> u8 list list" where
  "packets_of (a # b # c # r) =
     (if bit a 3 then [a, b, c] # packets_of r else packets_of (b # c # r))"
| "packets_of _ = []"

lemma mouse_step_first:
  "mouse_step b 0 pp =
     (if bit b 3 then Inr (1, pp\<lparr>pbytes := (pbytes pp)[0 := b]\<rparr>, False) else Inr (0, pp, False))"
  by (simp add: mouse_step_def mouse_collect_def and_BIT_eq_0_iff)

lemma mouse_step_second:
  "mouse_step b 1 pp = Inr (2, pp\<lparr>pbytes := (pbytes pp)[1 := b]\<rparr>, False)"
  by (simp add: mouse_step_def mouse_collect_def)

lemma mouse_step_third:
  "mouse_step b 2 pp = Inr (0, parse_mouse_bytes (pp\<lparr>pbytes := (pbytes pp)[2 := b]\<rparr>), True)"
  by (simp add: mouse_step_def mouse_collect_def)

lemmas mouse_step_simps = mouse_step_first mouse_step_second mouse_step_third

lemma mouse_run_skip: "\<not> bit a 3 \<Longrightarrow> mouse_run (a # bs) 0 pp = mouse_run bs 0 pp"
  by (simp add: mouse_step_first)

lemma counter_cases:
  fixes counter :: u8
  assumes "counter < 3"
  obtains "counter = 0" | "counter = 1" | "counter = 2"
proof -
  from assms have "unat counter = 0 \<or> unat counter = 1 \<or> unat counter = 2"
    by (simp add: word_less_nat_alt) linarith
  then have "counter = 0 \<or> counter = 1 \<or> counter = 2"
    by (simp add: word_unat_eq_iff)
  then show ?thesis
    using that by blast
qed

lemma mouse_step_invariant:
  assumes "counter < 3" and "length (pbytes pp) = 3"
  shows "\<exists>counter' pp' done. mouse_step b counter pp = Inr (counter', pp', done)
    \<and> counter' < 3 \<and> length (pbytes pp') = 3"
  using assms(1)
  by (rule counter_cases)
    (auto simp: mouse_step_simps parse_mouse_bytes_def assms(2) Let_def)

lemma parse_mouse_bytes_overwrites:
  "pbytes p = pbytes q \<Longrightarrow> parse_mouse_bytes p = parse_mouse_bytes q"
  by (cases p; cases q) (simp add: parse_mouse_bytes_def Let_def)

lemma mouse_run_packets:
  assumes "length (pbytes pp) = 3"
  shows "\<exists>counter' pp'. mouse_run bs 0 pp =
    Inr (map (\<lambda>b. parse_mouse_bytes (q\<lparr>pbytes := b\<rparr>)) (packets_of bs), counter', pp')
    \<and> counter' < 3 \<and> length (pbytes pp') = 3"
  using assms
proof (induction bs arbitrary: pp rule: packets_of.induct)
  case (1 a b c r)
  have l: "length (pbytes pp) = 3" by fact
  then obtain x y z where xyz: "pbytes pp = [x, y, z]"
    by (auto simp: numeral_3_eq_3 length_Suc_conv)
  show ?case
  proof (cases "bit a 3")
    case True
    define p where "p = parse_mouse_bytes (pp\<lparr>pbytes := [a, b, c]\<rparr>)"
    have "length (pbytes p) = 3"
      by (simp add: p_def parse_mouse_bytes_def Let_def)
    moreover have "p = parse_mouse_bytes (q\<lparr>pbytes := [a, b, c]\<rparr>)"
      unfolding p_def by (rule parse_mouse_bytes_overwrites) simp
    ultimately show ?thesis
      using "1.IH"(1) [OF True, of p] True xyz
      by (auto simp: mouse_step_simps simp flip: p_def)
  next
    case False
    then show ?thesis
      using "1.IH"(2) [OF False l] by (simp add: mouse_run_skip [OF False] del: mouse_run.simps)
  qed
qed (auto simp: mouse_step_simps)


section \<open>Properties\<close>

text \<open>The three bytes a PS/2 mouse sends: buttons, overflow flags and the displacements as 9-bit numbers.\<close>

definition encode_packet :: "bool \<Rightarrow> bool \<Rightarrow> bool \<Rightarrow> bool \<Rightarrow> bool \<Rightarrow> int \<Rightarrow> int \<Rightarrow> u8 list" where
  "encode_packet l r m xo yo dx dy =
     [of_bool l OR push_bit 1 (of_bool r) OR push_bit 2 (of_bool m) OR BIT 3
        OR push_bit 4 (of_bool (dx < 0)) OR push_bit 5 (of_bool (dy < 0))
        OR push_bit 6 (of_bool xo) OR push_bit 7 (of_bool yo),
      word_of_int dx, word_of_int dy]"

lemma uint_byte_of_9bit:
  "- 256 \<le> d \<Longrightarrow> d \<le> 255 \<Longrightarrow> uint (word_of_int d :: u8) = d + (if d < 0 then 256 else 0)"
proof -
  assume d: "- 256 \<le> d" "d \<le> 255"
  have "uint (word_of_int d :: u8) = d mod 256"
    by (simp add: uint_word_of_int)
  also have "\<dots> = d + (if d < 0 then 256 else 0)"
  proof (cases "d < 0")
    case True
    have "d mod 256 = (d + 256) mod 256" by simp
    also have "\<dots> = d + 256"
      using d True by (intro mod_pos_pos_trivial) simp_all
    finally show ?thesis using True by simp
  next
    case False
    with d show ?thesis by (simp add: mod_pos_pos_trivial)
  qed
  finally show ?thesis .
qed

lemma encode_packet_bits:
  "bit (encode_packet l r m xo yo dx dy ! 0) 0 = l"
  "bit (encode_packet l r m xo yo dx dy ! 0) 1 = r"
  "bit (encode_packet l r m xo yo dx dy ! 0) 2 = m"
  "bit (encode_packet l r m xo yo dx dy ! 0) 3"
  "bit (encode_packet l r m xo yo dx dy ! 0) 4 = (dx < 0)"
  "bit (encode_packet l r m xo yo dx dy ! 0) 5 = (dy < 0)"
  "bit (encode_packet l r m xo yo dx dy ! 0) 6 = xo"
  "bit (encode_packet l r m xo yo dx dy ! 0) 7 = yo"
  unfolding encode_packet_def nth_Cons_0 BIT_def
  by (simp_all add: bit_or_iff bit_push_bit_iff bit_of_bool_iff bit_1_iff)

text \<open>
  C37. \<open>parse_mouse_bytes\<close> inverts the PS/2 encoding: for every state of the buttons and of the two overflow
  flags and every displacement the nine-bit format can carry (-256 to 255), the decoded packet has
  exactly those buttons, flags and displacements, whatever the packet held before.
\<close>

theorem parse_mouse_bytes_roundtrip:
  assumes "- 256 \<le> dx" "dx \<le> 255" "- 256 \<le> dy" "dy \<le> 255"
    and "p = parse_mouse_bytes (pp\<lparr>pbytes := encode_packet l r m xo yo dx dy\<rparr>)"
  shows "sint (delta_x p) = dx \<and> sint (delta_y p) = dy \<and> lb p = l \<and> rb p = r \<and> mb p = m
    \<and> x_ov p = xo \<and> y_ov p = yo"
proof -
  obtain b0 where e: "encode_packet l r m xo yo dx dy = [b0, word_of_int dx, word_of_int dy]"
    by (simp add: encode_packet_def)
  note bits = encode_packet_bits [of l r m xo yo dx dy, unfolded e nth_Cons_0]
  show ?thesis
    unfolding assms(5) e
    by (simp add: parse_mouse_bytes_fields [where pp = "pp\<lparr>pbytes := [b0, word_of_int dx, word_of_int dy]\<rparr>"]
        bits uint_byte_of_9bit assms(1-4) del: One_nat_def)
qed

definition packet_demo :: packet where
  "packet_demo = \<lparr>pbytes = [0, 0, 0], rb = False, mb = False, lb = False, delta_x = 0, delta_y = 0,
     x_ov = False, y_ov = False\<rparr>"

theorem parse_mouse_bytes_roundtrip_witness:
  "sint (delta_x (parse_mouse_bytes
     (packet_demo\<lparr>pbytes := encode_packet True False False True False (-256) 17\<rparr>))) = - 256"
  using parse_mouse_bytes_roundtrip [where dx = "-256" and dy = 17 and pp = packet_demo
      and l = True and r = False and m = False and xo = True and yo = False, OF _ _ _ _ refl] by simp

text \<open>
  C36. The byte-by-byte collection of the driver loops implements packet framing: started at
  \<open>counter = 0\<close>, it never indexes outside the three-byte array, and on any stream of bytes the
  packets it completes are, in order, the decodings of the frames obtained by skipping to a byte
  with bit 3 set and taking three bytes.
\<close>

theorem mouse_run_frames_stream:
  assumes "length (pbytes pp) = 3"
  shows "\<exists>counter' pp'. mouse_run bs 0 pp =
    Inr (map (\<lambda>b. parse_mouse_bytes (pp\<lparr>pbytes := b\<rparr>)) (packets_of bs), counter', pp')
    \<and> counter' < 3 \<and> length (pbytes pp') = 3"
  using assms by (rule mouse_run_packets)

theorem mouse_run_frames_stream_witness:
  "length (pbytes packet_demo) = 3
   \<and> (\<exists>counter' pp'. mouse_run [0x01, 0x09, 5, 6, 0x08] 0 packet_demo =
        Inr ([parse_mouse_bytes (packet_demo\<lparr>pbytes := [0x09, 5, 6]\<rparr>)], counter', pp'))"
proof -
  have "packets_of [0x01, 0x09, 5, 6, 0x08] = [[0x09, 5, 6]]"
    by simp
  moreover have l: "length (pbytes packet_demo) = 3"
    by (simp add: packet_demo_def)
  ultimately show ?thesis
    using mouse_run_frames_stream [OF l, of "[0x01, 0x09, 5, 6, 0x08]"]
    by (auto simp del: mouse_run.simps)
qed

end
