(* ===== verification/Aux_Data.thy ===== *)
theory Aux_Data
  imports Sys_Interface
begin

text \<open>
  \<open>proj/src/auxiliary_data_structures.h\<close>: the enumerations and structures the components of the
  game share. C compares enumerators as integers; \<open>dir_code\<close> is that reading, and \<open>direction\<close>
  is ordered by it.
\<close>

datatype direction = UP | DOWN | LEFT | RIGHT | UNCHANGED

primrec dir_code :: "direction \<Rightarrow> int" where
  "dir_code UP = 0"
| "dir_code DOWN = 1"
| "dir_code LEFT = 2"
| "dir_code RIGHT = 3"
| "dir_code UNCHANGED = 4"

lemma dir_code_inject [simp]: "dir_code a = dir_code b \<longleftrightarrow> a = b"
  by (cases a; cases b) simp_all

instantiation direction :: linorder
begin

definition less_eq_direction :: "direction \<Rightarrow> direction \<Rightarrow> bool" where
  "less_eq_direction a b \<longleftrightarrow> dir_code a \<le> dir_code b"

definition less_direction :: "direction \<Rightarrow> direction \<Rightarrow> bool" where
  "less_direction a b \<longleftrightarrow> dir_code a < dir_code b"

instance
  by standard (auto simp: less_eq_direction_def less_direction_def)

end

datatype player = BLUE | ORANGE

record MovementInfo =
  dir :: direction
  playerColor :: player

datatype screenState = MAIN | S_GAME | M_GAME | PAUSE | GOONE | GOTWO | QUIT

record PlayerPosition =
  pos_x :: u16
  pos_y :: u16
  currentDirection :: direction

record mousePos =
  mouse_x :: u16
  mouse_y :: u16

record images =
  img_main :: xpm_image
  gameOver1 :: xpm_image
  gameOver2 :: xpm_image
  img_pause :: xpm_image
  cursor :: xpm_image

lemma direction_cases_move:
  assumes "d \<noteq> UNCHANGED"
  obtains "d = UP" | "d = DOWN" | "d = LEFT" | "d = RIGHT"
  using assms by (cases d) auto

end
