(* ===== verification/Keyboard.thy ===== *)
theory Keyboard
  imports Mouse Aux_Data
begin

text \<open>
  The part of \<open>proj/src/keyboard.c\<close> that is the game's own: the interrupt handler that turns scan
  codes into the next move and toggles the pause screen. \<open>screenState\<close> is a global of \<open>main.c\<close>
  that the handler writes.
\<close>


section \<open>State and interrupt handler\<close>

record 'w kbd_st = "'w mouse_st" +
  nextMove :: MovementInfo
  screenState :: screenState

definition kbc_ih :: "'w sys \<Rightarrow> ('w, 'z) kbd_st_scheme \<Rightarrow> ('w, 'z) kbd_st_scheme" where
  "kbc_ih S s =
     (let (_, status, s) = util_sys_inb S KBC_ST_REG s;
          (_, temp, s) = util_sys_inb S KBC_OUT_BUF s
      in if status AND LSB = 1 \<and> status AND (KBC_PAR_ERR OR KBC_TO_ERR OR KBC_AUX) = 0 then
           let s = (if temp = 153
                    then (if screenState s = PAUSE then s\<lparr>screenState := S_GAME\<rparr>
                          else s\<lparr>screenState := PAUSE\<rparr>)
                    else s);
               s = (if temp = 145 \<or> temp = 159 \<or> temp = 158 \<or> temp = 160
                    then let m = (nextMove s)\<lparr>playerColor := BLUE\<rparr>;
                             m = (if temp = 145 then m\<lparr>dir := UP\<rparr>
                                  else if temp = 159 then m\<lparr>dir := DOWN\<rparr>
                                  else if temp = 158 then m\<lparr>dir := LEFT\<rparr>
                                  else if temp = 160 then m\<lparr>dir := RIGHT\<rparr>
                                  else m)
                         in s\<lparr>nextMove := m\<rparr>
                    else s);
               s = (if temp = 200 \<or> temp = 203 \<or> temp = 205 \<or> temp = 208
                    then let m = (nextMove s)\<lparr>playerColor := ORANGE\<rparr>;
                             m = (if temp = 200 then m\<lparr>dir := UP\<rparr>
                                  else if temp = 208 then m\<lparr>dir := DOWN\<rparr>
                                  else if temp = 203 then m\<lparr>dir := LEFT\<rparr>
                                  else if temp = 205 then m\<lparr>dir := RIGHT\<rparr>
                                  else m)
                         in s\<lparr>nextMove := m\<rparr>
                    else s)
           in s\<lparr>scanCode := temp\<rparr>
         else s)"


section \<open>Scan codes\<close>

text \<open>The keys of the two players, by the break codes the handler reacts to.\<close>

definition key_move :: "u8 \<Rightarrow> MovementInfo option" where
  "key_move temp =
     map_of [(145, \<lparr>dir = UP, playerColor = BLUE\<rparr>), (159, \<lparr>dir = DOWN, playerColor = BLUE\<rparr>),
             (158, \<lparr>dir = LEFT, playerColor = BLUE\<rparr>), (160, \<lparr>dir = RIGHT, playerColor = BLUE\<rparr>),
             (200, \<lparr>dir = UP, playerColor = ORANGE\<rparr>), (208, \<lparr>dir = DOWN, playerColor = ORANGE\<rparr>),
             (203, \<lparr>dir = LEFT, playerColor = ORANGE\<rparr>), (205, \<lparr>dir = RIGHT, playerColor = ORANGE\<rparr>)]
       temp"

definition toggle_pause :: "screenState \<Rightarrow> screenState" where
  "toggle_pause sc = (if sc = PAUSE then S_GAME else PAUSE)"

text \<open>
  What the handler does: nothing but two counted reads unless the status byte says that the
  keyboard has delivered a byte without error; otherwise the pause key toggles the screen, a
  player's key becomes the next move, and the byte is kept.
\<close>

lemma kbc_ih_eq:
  "kbc_ih S s =
     (if valid_kbd_status (kbc_status S (world s))
      then let temp = kbc_data S (world s)
           in (kbc_read2 S s)\<lparr>
                screenState := (if temp = 153 then toggle_pause (screenState s) else screenState s),
                nextMove := (case key_move temp of None \<Rightarrow> nextMove s | Some m \<Rightarrow> m),
                scanCode := temp\<rparr>
      else kbc_read2 S s)"
proof -
  have m: "m\<lparr>playerColor := c, dir := d\<rparr> = \<lparr>dir = d, playerColor = c\<rparr>" for m :: MovementInfo and c d
    by (cases m) simp
  show ?thesis
    unfolding kbc_ih_def util_sys_inb_eq
    by (simp add: status_masks kbc_status_def kbc_data_def kbc_read2_def key_move_def
        toggle_pause_def m Let_def)
qed

lemma kbd_kbc_read2_simps [simp]:
  "screenState (kbc_read2 S s) = screenState s"
  "nextMove (kbc_read2 S s) = nextMove s"
  by (simp_all add: kbc_read2_def)

lemma screenState_kbc_ih:
  "screenState (kbc_ih S s) =
     (if valid_kbd_status (kbc_status S (world s)) \<and> kbc_data S (world s) = 153
      then toggle_pause (screenState s) else screenState s)"
  by (simp add: kbc_ih_eq Let_def)

lemma nextMove_kbc_ih_cases:
  "nextMove (kbc_ih S s) = nextMove s \<or> dir (nextMove (kbc_ih S s)) \<noteq> UNCHANGED"
  by (auto simp: kbc_ih_eq Let_def key_move_def split: if_splits)

lemma totalInterrupts_kbc_ih [simp]: "totalInterrupts (kbc_ih S s) = totalInterrupts s"
  by (simp add: kbc_ih_eq Let_def)


section \<open>Properties\<close>

text \<open>
  The interrupt handler reads the status and the data register once each, in that order. Unless
  the status byte reports a keyboard byte without parity or time-out error, nothing else changes;
  otherwise break code 153 (key P) toggles between the pause screen and the game, the eight break
  codes of the table replace the next move by exactly the player and direction of the key, every
  other code leaves both alone, and the byte is stored in \<open>scanCode\<close>.
\<close>

lemma kbc_ih_decodes:
  "kbc_ih S s =
     (if valid_kbd_status (kbc_status S (world s))
      then let temp = kbc_data S (world s)
           in (kbc_read2 S s)\<lparr>
                screenState := (if temp = 153 then toggle_pause (screenState s) else screenState s),
                nextMove := (case key_move temp of None \<Rightarrow> nextMove s | Some m \<Rightarrow> m),
                scanCode := temp\<rparr>
      else kbc_read2 S s)"
  by (rule kbc_ih_eq)

text \<open>
  Escape does not leave the game: no byte the keyboard can deliver makes the handler select the
  main menu, and the break code of Escape changes neither the screen nor the next move. (The
  README documents Escape as the way back to the main menu.)
\<close>

lemma kbc_ih_escape_does_not_leave_game:
  "(screenState (kbc_ih S s) = MAIN \<longrightarrow> screenState s = MAIN)
   \<and> (kbc_data S (world s) = ESC_BREAK_CODE \<longrightarrow>
        screenState (kbc_ih S s) = screenState s \<and> nextMove (kbc_ih S s) = nextMove s)"
  by (auto simp: kbc_ih_eq Let_def toggle_pause_def key_move_def ESC_BREAK_CODE_def split: if_splits)

definition kbd_demo :: "u32 list \<Rightarrow> screenState \<Rightarrow> script kbd_st" where
  "kbd_demo ins sc = \<lparr>world = demo_script ins [] 0, countSysInb = 0,
     timer_hook_id = 0, totalInterrupts = 0, scanCode = 0,
     hook_idKEYBOARD = 1, byteFromMouse = 0, hook_idMOUSE = 12,
     nextMove = \<lparr>dir = UNCHANGED, playerColor = BLUE\<rparr>, screenState = sc\<rparr>"

lemmas kbd_demo_simps = kbd_demo_def demo_script_def script_simps inval_def inworld_def
  kbc_status_def kbc_data_def kbc_read2_def c_consts

lemma kbc_ih_escape_does_not_leave_game_witness:
  "kbc_data script_sys (world (kbd_demo [0x15, 0x81] S_GAME)) = ESC_BREAK_CODE
   \<and> screenState (kbc_ih script_sys (kbd_demo [0x15, 0x81] S_GAME)) = S_GAME"
proof -
  have d: "kbc_data script_sys (world (kbd_demo [0x15, 0x81] S_GAME)) = ESC_BREAK_CODE"
    by (simp add: kbd_demo_simps)
  have "screenState (kbd_demo [0x15, 0x81] S_GAME) = S_GAME"
    by (simp add: kbd_demo_def)
  with d kbc_ih_escape_does_not_leave_game [of script_sys "kbd_demo [0x15, 0x81] S_GAME"]
  show ?thesis by simp
qed

end
