(* ===== verification/Rtc.thy ===== *)
theory Rtc
  imports Keyboard
begin

text \<open>
  \<open>proj/src/rtc.c\<close> and \<open>rtc.h\<close>: subscription to the real-time clock and access to its registers,
  with the error paths of the port accesses.
\<close>


section \<open>State and operations\<close>

definition RTC_IRQ :: int where
  [c_consts]: "RTC_IRQ = 8"

definition RTC_ADDRESS_REG :: int where
  [c_consts]: "RTC_ADDRESS_REG = 0x70"

definition RTC_DATA_REG :: int where
  [c_consts]: "RTC_DATA_REG = 0x71"

definition RTC_HOURS :: u8 where
  [c_consts]: "RTC_HOURS = 4"

definition RTC_MINUTES :: u8 where
  [c_consts]: "RTC_MINUTES = 2"

record 'w rtc_st = "'w kbd_st" +
  rtc_hook_id :: int
  time_counter :: u16

definition rtc_subscribe_int ::
    "'w sys \<Rightarrow> ('w, 'z) rtc_st_scheme \<Rightarrow> u8 \<times> int \<times> ('w, 'z) rtc_st_scheme" where
  "rtc_subscribe_int S s =
     (let (r, hook, w) = sys_irqsetpolicy S RTC_IRQ IRQ_REENABLE 8 (world s);
          s = s\<lparr>rtc_hook_id := hook, world := w\<rparr>
      in if r \<noteq> OK then (8, 1, s) else (8, 0, s))"

definition rtc_unsubscribe_int ::
    "'w sys \<Rightarrow> ('w, 'z) rtc_st_scheme \<Rightarrow> int \<times> ('w, 'z) rtc_st_scheme" where
  "rtc_unsubscribe_int S s =
     (let (r, hook, w) = sys_irqrmpolicy S (rtc_hook_id s) (world s);
          s = s\<lparr>rtc_hook_id := hook, world := w\<rparr>
      in if r \<noteq> OK then (1, s) else (0, s))"

text \<open>\<open>data\<close> is the content of the out-variable before the call.\<close>

definition rtc_read_reg ::
    "'w sys \<Rightarrow> u8 \<Rightarrow> u8 \<Rightarrow> ('w, 'z) rtc_st_scheme \<Rightarrow> int \<times> u8 \<times> ('w, 'z) rtc_st_scheme" where
  "rtc_read_reg S reg data s =
     (let (r, s) = outb S RTC_ADDRESS_REG (ucast reg) s
      in if r \<noteq> OK then (1, data, s)
         else
           let (r, temp, w) = sys_inb S RTC_DATA_REG (world s);
               s = s\<lparr>world := w\<rparr>
           in if r \<noteq> OK then (1, data, s)
              else (0, ucast temp, s))"

definition rtc_write_reg ::
    "'w sys \<Rightarrow> u8 \<Rightarrow> u8 \<Rightarrow> ('w, 'z) rtc_st_scheme \<Rightarrow> int \<times> ('w, 'z) rtc_st_scheme" where
  "rtc_write_reg S reg data s =
     (let temp = ucast data :: u32;
          (r, s) = outb S RTC_ADDRESS_REG (ucast reg) s
      in if r \<noteq> OK then (1, s)
         else
           let (r, s) = outb S RTC_DATA_REG temp s
           in if r \<noteq> OK then (1, s) else (0, s))"

definition read_hours ::
    "'w sys \<Rightarrow> u8 \<Rightarrow> ('w, 'z) rtc_st_scheme \<Rightarrow> int \<times> u8 \<times> ('w, 'z) rtc_st_scheme" where
  "read_hours S hours s =
     (let (r, hours, s) = rtc_read_reg S RTC_HOURS hours s
      in if r \<noteq> OK then (1, hours, s) else (0, hours, s))"

definition read_minutes ::
    "'w sys \<Rightarrow> u8 \<Rightarrow> ('w, 'z) rtc_st_scheme \<Rightarrow> int \<times> u8 \<times> ('w, 'z) rtc_st_scheme" where
  "read_minutes S minutes s =
     (let (r, minutes, s) = rtc_read_reg S RTC_MINUTES minutes s
      in if r \<noteq> OK then (1, minutes, s) else (0, minutes, s))"


section \<open>The chip behind the ports\<close>

text \<open>
  What a CMOS clock chip documents of its two ports (\<open>i386/cmos.h\<close>): bits 0 to 6 of what is written to the address port
  select a register (bit 7 enables the NMI), a read of the data port gives what the selected
  register holds at that moment, and a write to it stores in general purpose memory, which begins at
  0x0E. The other registers belong to the clock: they change by themselves, and a write need not last. \<open>regs\<close> and \<open>sel\<close>
  read the registers and the selection off the state of the world.
\<close>

definition cmos_index :: "u8 \<Rightarrow> u8" where
  "cmos_index reg = reg AND 0x7F"

definition cmos_ram :: "u8 set" where
  "cmos_ram = {0x0E..0x7F}"

definition same_ram :: "('w \<Rightarrow> u8 \<Rightarrow> u8) \<Rightarrow> 'w \<Rightarrow> 'w \<Rightarrow> bool" where
  "same_ram regs w w' \<longleftrightarrow> (\<forall>r \<in> cmos_ram. regs w' r = regs w r)"

definition cmos_clock :: "'w sys \<Rightarrow> ('w \<Rightarrow> u8 \<Rightarrow> u8) \<Rightarrow> ('w \<Rightarrow> u8) \<Rightarrow> bool" where
  "cmos_clock S regs sel \<longleftrightarrow>
     (\<forall>w reg. \<exists>w'. sys_outb S RTC_ADDRESS_REG (ucast reg) w = (OK, w')
        \<and> sel w' = cmos_index reg \<and> same_ram regs w w')
   \<and> (\<forall>w. \<exists>v w'. sys_inb S RTC_DATA_REG w = (OK, v, w')
        \<and> ucast v = regs w (sel w) \<and> same_ram regs w w')
   \<and> (\<forall>w d. \<exists>w'. sys_outb S RTC_DATA_REG (ucast d) w = (OK, w')
        \<and> (\<forall>r \<in> cmos_ram. regs w' r = (if r = sel w then d else regs w r)))"

text \<open>A register is read as it is when it has been selected; a write to memory stays.\<close>

lemma rtc_read_reg_cmos:
  assumes "cmos_clock S regs sel"
  obtains w s' where "sys_outb S RTC_ADDRESS_REG (ucast reg) (world s) = (OK, w)" "same_ram regs (world s) w"
    "rtc_read_reg S reg data s = (0, regs w (cmos_index reg), s')"
proof -
  obtain w where w: "sys_outb S RTC_ADDRESS_REG (ucast reg) (world s) = (OK, w)"
    "sel w = cmos_index reg" "same_ram regs (world s) w"
    using assms unfolding cmos_clock_def by blast
  obtain v w' where "sys_inb S RTC_DATA_REG w = (OK, v, w')" "ucast v = regs w (sel w)"
    using assms unfolding cmos_clock_def by blast
  with w that show ?thesis by (simp add: rtc_read_reg_def outb_def)
qed

lemma rtc_write_reg_cmos:
  assumes "cmos_clock S regs sel"
  obtains s' where "rtc_write_reg S reg d s = (0, s')"
    "\<forall>r \<in> cmos_ram. regs (world s') r = (if r = cmos_index reg then d else regs (world s) r)"
proof -
  obtain w where w: "sys_outb S RTC_ADDRESS_REG (ucast reg) (world s) = (OK, w)"
    "sel w = cmos_index reg" "same_ram regs (world s) w"
    using assms unfolding cmos_clock_def by blast
  obtain w' where "sys_outb S RTC_DATA_REG (ucast d) w = (OK, w')"
    "\<forall>r \<in> cmos_ram. regs w' r = (if r = sel w then d else regs w r)"
    using assms unfolding cmos_clock_def by blast
  with w that show ?thesis by (simp add: rtc_write_reg_def outb_def same_ram_def)
qed


section \<open>Properties\<close>

text \<open>
  C40. On a chip that keeps the documented contract of its ports, \<open>rtc_write_reg\<close> succeeds, and a \<open>rtc_read_reg\<close> after it
  succeeds with what the register holds when it is selected. In general purpose memory that is the byte written, and
  every other cell reads as before, whatever bit 7 of the two addresses. \<open>read_hours\<close> gives
  the hours register (number 4) as it is when it is selected.
\<close>

theorem rtc_read_after_write:
  assumes "cmos_clock S regs sel"
  shows "\<exists>s1. rtc_write_reg S reg d s = (0, s1)
    \<and> (\<exists>w s2. sys_outb S 0x70 (ucast reg') (world s1) = (0, w)
         \<and> rtc_read_reg S reg' data s1 = (0, regs w (cmos_index reg'), s2)
         \<and> (cmos_index reg' \<in> cmos_ram \<longrightarrow> regs w (cmos_index reg') =
              (if cmos_index reg' = cmos_index reg then d else regs (world s) (cmos_index reg'))))
    \<and> (\<exists>w s3. sys_outb S 0x70 4 (world s1) = (0, w) \<and> read_hours S data s1 = (0, regs w 4, s3))"
proof -
  obtain s1 where s1: "rtc_write_reg S reg d s = (0, s1)"
    "\<forall>r \<in> cmos_ram. regs (world s1) r = (if r = cmos_index reg then d else regs (world s) r)"
    using rtc_write_reg_cmos [OF assms] .
  obtain w s2 where "sys_outb S RTC_ADDRESS_REG (ucast reg') (world s1) = (OK, w)" "same_ram regs (world s1) w"
    "rtc_read_reg S reg' data s1 = (0, regs w (cmos_index reg'), s2)"
    using rtc_read_reg_cmos [OF assms] .
  moreover obtain u s3 where "sys_outb S RTC_ADDRESS_REG (ucast RTC_HOURS) (world s1) = (OK, u)"
    "rtc_read_reg S RTC_HOURS data s1 = (0, regs u (cmos_index RTC_HOURS), s3)"
    using rtc_read_reg_cmos [OF assms] .
  ultimately show ?thesis
    using s1 by (auto simp: read_hours_def same_ram_def c_consts cmos_index_def)
qed

text \<open>A chip whose clock goes on: every read of the data port advances the seconds.\<close>

definition cmos_sys :: "(u8 \<times> (u8 \<Rightarrow> u8)) sys" where
  "cmos_sys = idle_sys\<lparr>
     sys_outb := (\<lambda>p v (sel, regs). (0, if p = 0x70 then (cmos_index (ucast v), regs)
                                        else if p = 0x71 then (sel, regs(sel := ucast v))
                                        else (sel, regs))),
     sys_inb := (\<lambda>p (sel, regs). (0, ucast (regs sel), (sel, regs(0 := regs 0 + 1))))\<rparr>"

lemma cmos_sys_clock: "cmos_clock cmos_sys snd fst"
  by (auto simp: cmos_clock_def cmos_sys_def c_consts same_ram_def cmos_ram_def)

definition rtc_demo :: "(u8 \<times> (u8 \<Rightarrow> u8)) rtc_st" where
  "rtc_demo = \<lparr>world = (0, \<lambda>_. 0x18), countSysInb = 0, timer_hook_id = 0, totalInterrupts = 0,
     scanCode = 0, hook_idKEYBOARD = 1, byteFromMouse = 0, hook_idMOUSE = 12,
     nextMove = \<lparr>dir = UNCHANGED, playerColor = BLUE\<rparr>, screenState = MAIN,
     rtc_hook_id = 3, time_counter = 0\<rparr>"

theorem rtc_read_after_write_witness:
  "cmos_clock cmos_sys snd fst
   \<and> (\<exists>s1 s2. rtc_write_reg cmos_sys 0xA0 0x21 rtc_demo = (0, s1)
        \<and> rtc_read_reg cmos_sys 0x20 0 s1 = (0, 0x21, s2))"
proof -
  have "cmos_index 0x20 = 0x20" "cmos_index 0xA0 = 0x20" "(0x20 :: u8) \<in> cmos_ram"
    by (simp_all add: cmos_index_def cmos_ram_def)
  then show ?thesis
    using cmos_sys_clock rtc_read_after_write [OF cmos_sys_clock, of "0xA0" "0x21" rtc_demo "0x20" 0] by auto
qed

text \<open>
  Without any assumption on the ports: \<open>read_hours\<close> selects register 4 before it reads; when
  either access fails it returns 1 and leaves the caller's variable as it was, and only when both
  succeed it returns 0 with the byte read.
\<close>

lemma read_hours_error_paths:
  "read_hours S hours s =
     (let (r1, w1) = sys_outb S 0x70 4 (world s);
          (r2, v, w2) = sys_inb S 0x71 w1
      in if r1 \<noteq> 0 then (1, hours, s\<lparr>world := w1\<rparr>)
         else if r2 \<noteq> 0 then (1, hours, s\<lparr>world := w2\<rparr>)
         else (0, ucast v, s\<lparr>world := w2\<rparr>))"
  by (simp add: read_hours_def rtc_read_reg_def outb_def c_consts split_beta)

end
