(* ===== verification/Video.thy ===== *)
theory Video
  imports Frame_Memory Rtc
begin

text \<open>
  The drawing half of \<open>proj/src/video_gr.c\<close>: mode setting, frame-buffer mapping, pixels, lines,
  rectangles and images, and the mouse cursor. The module's static variables are one record;
  \<open>video_mem\<close> is the memory behind the mapped address and \<open>mapped\<close> the number of bytes that can be
  accessed there (0 before the mapping). Offsets are computed in 32-bit unsigned arithmetic, as the
  code does; coordinates are truncated to 16 bits at every call of a function that takes them so.
\<close>


section \<open>State\<close>

record video_st =
  video_mem :: mem
  mapped :: nat
  h_res :: u32
  v_res :: u32
  bytes_per_pixel :: u32
  operatingMode :: u16
  RedMaskSize :: u8
  GreenMaskSize :: u8
  BlueMaskSize :: u8
  img_height :: u16
  img_width :: u16
  bluePlayer :: PlayerPosition
  orangePlayer :: PlayerPosition
  mouse :: mousePos

record 'w prog_st = "'w rtc_st" +
  vid :: video_st

definition get_red_mask_size :: "video_st \<Rightarrow> u8" where
  "get_red_mask_size v = RedMaskSize v"

definition get_blue_mask_size :: "video_st \<Rightarrow> u8" where
  "get_blue_mask_size v = BlueMaskSize v"

definition get_green_mask_size :: "video_st \<Rightarrow> u8" where
  "get_green_mask_size v = GreenMaskSize v"

definition get_h_res :: "video_st \<Rightarrow> u32" where
  "get_h_res v = h_res v"

definition get_v_res :: "video_st \<Rightarrow> u32" where
  "get_v_res v = v_res v"

definition get_video_mem :: "video_st \<Rightarrow> mem" where
  "get_video_mem v = video_mem v"

definition get_bits_per_pixel :: "video_st \<Rightarrow> u32" where
  "get_bits_per_pixel v = bytes_per_pixel v * 8"

text \<open>Whether \<open>n\<close> bytes from offset \<open>a\<close> of the frame buffer can be accessed.\<close>

definition accessible :: "video_st \<Rightarrow> nat \<Rightarrow> nat \<Rightarrow> bool" where
  "accessible v a n \<longleftrightarrow> n = 0 \<or> a + n \<le> mapped v"


section \<open>Mode setting\<close>

definition set_mode :: "'w sys \<Rightarrow> u16 \<Rightarrow> ('w, 'z) prog_st_scheme \<Rightarrow> int \<times> ('w, 'z) prog_st_scheme" where
  "set_mode S mode s =
     (let s = s\<lparr>vid := (vid s)\<lparr>operatingMode := mode\<rparr>\<rparr>;
          reg = \<lparr>intno = 0x10, ah = 0x4F, al = 0x02, bx = mode OR BIT 14\<rparr>;
          (r, w) = sys_int86 S reg (world s);
          s = s\<lparr>world := w\<rparr>
      in if r \<noteq> OK then (1, s) else (0, s))"

definition new_vg_init ::
    "'w sys \<Rightarrow> u16 \<Rightarrow> ('w, 'z) prog_st_scheme \<Rightarrow> fault + (int \<times> ('w, 'z) prog_st_scheme)" where
  "new_vg_init S mode s =
     (let (_, info, w) = vbe_get_mode_info S mode (world s);
          vram_base = PhysBasePtr info;
          vram_size = (ucast (BitsPerPixel info) * ucast (XResolution info)
                        * ucast (YResolution info)) div 8 :: u32;
          v = (vid s)\<lparr>h_res := ucast (XResolution info),
                      v_res := ucast (YResolution info),
                      bytes_per_pixel := (ucast (BitsPerPixel info) + 7) div 8,
                      BlueMaskSize := info_BlueMaskSize info,
                      RedMaskSize := info_RedMaskSize info,
                      GreenMaskSize := info_GreenMaskSize info\<rparr>;
          (r, w) = sys_privctl_add_mem S vram_base (vram_base + vram_size) w
      in if r \<noteq> OK then Inl Panic
         else
           let (m, w) = vm_map_phys S vram_base vram_size w
           in case m of
                None \<Rightarrow> Inl Panic
              | Some (bs, n) \<Rightarrow>
                  Inr (set_mode S mode (s\<lparr>world := w, vid := v\<lparr>video_mem := bs, mapped := n\<rparr>\<rparr>)))"


section \<open>Drawing\<close>

text \<open>\<open>(y * h_res + x) * bytes_per_pixel\<close>\<close>

definition pix_off :: "video_st \<Rightarrow> u32 \<Rightarrow> u32 \<Rightarrow> nat" where
  "pix_off v x y = unat ((y * h_res v + x) * bytes_per_pixel v)"

definition vg_draw_pixel :: "u16 \<Rightarrow> u16 \<Rightarrow> u32 \<Rightarrow> video_st \<Rightarrow> fault + video_st" where
  "vg_draw_pixel x y color v =
     (let start = pix_off v (ucast x) (ucast y); n = unat (bytes_per_pixel v)
      in if n \<le> 4 \<and> accessible v start n
         then Inr (v\<lparr>video_mem := store_le color n start (video_mem v)\<rparr>)
         else Inl Bad_access)"

definition vg_draw_hline :: "u16 \<Rightarrow> u16 \<Rightarrow> u16 \<Rightarrow> u32 \<Rightarrow> video_st \<Rightarrow> fault + video_st" where
  "vg_draw_hline x y len color v =
     for_n (unat len) (\<lambda>offset_x. vg_draw_pixel (x + of_nat offset_x) y color) v"

definition find_color :: "u16 \<Rightarrow> u16 \<Rightarrow> video_st \<Rightarrow> fault + u32" where
  "find_color x y v =
     (let start = pix_off v (ucast x) (ucast y); n = unat (bytes_per_pixel v)
      in if n \<le> 4 \<and> accessible v start n
         then Inr (load_le (video_mem v) start n)
         else Inl Bad_access)"

definition vg_draw_rectangle ::
    "u16 \<Rightarrow> u16 \<Rightarrow> u16 \<Rightarrow> u16 \<Rightarrow> u32 \<Rightarrow> video_st \<Rightarrow> fault + (u8 \<times> video_st)" where
  "vg_draw_rectangle x y wd ht color v =
     bind_res (find_color x y v) (\<lambda>c.
       let flag = (if c \<noteq> 0 \<and> c \<noteq> 255 then 1 else 0)
       in bind_res (for_n (unat ht) (\<lambda>offset. vg_draw_hline x (y + of_nat offset) wd color) v)
            (\<lambda>v. Inr (flag, v)))"

text \<open>\<open>uninit\<close> is the content of the structure before \<open>xpm_load\<close> fills it in.\<close>

definition load_image :: "'w sys \<Rightarrow> xpm_image \<Rightarrow> xpm_map \<Rightarrow> xpm_image" where
  "load_image S uninit xpm = xpm_load S xpm XPM_8_8_8 uninit"

text \<open>
  \<open>draw_img2\<close> copies pixel by pixel through a colour whose upper bytes (\<open>uninit\<close>) are
  indeterminate; \<open>draw_img\<close> copies row by row.
\<close>

definition img_color :: "u32 \<Rightarrow> xpm_image \<Rightarrow> nat \<Rightarrow> nat \<Rightarrow> u32" where
  "img_color uninit img a n =
     push_bit (8 * n) (drop_bit (8 * n) uninit) OR load_le (\<lambda>i. bytes img ! i) a n"

text \<open>The body of the two loops of \<open>draw_img2\<close>.\<close>

definition draw_img2_cell ::
    "u32 \<Rightarrow> xpm_image \<Rightarrow> u16 \<Rightarrow> u16 \<Rightarrow> nat \<Rightarrow> nat \<Rightarrow> video_st \<Rightarrow> fault + video_st" where
  "draw_img2_cell uninit img x y offset_x offset_y v =
     (let n = unat (bytes_per_pixel v);
          a = unat ((of_nat offset_y * ucast (width img) + of_nat offset_x) * bytes_per_pixel v)
      in if n \<le> 4 \<and> (n = 0 \<or> a + n \<le> length (bytes img))
         then vg_draw_pixel (x + of_nat offset_x) (y + of_nat offset_y) (img_color uninit img a n) v
         else Inl Bad_access)"

definition draw_img2 :: "u32 \<Rightarrow> xpm_image \<Rightarrow> u16 \<Rightarrow> u16 \<Rightarrow> video_st \<Rightarrow> fault + video_st" where
  "draw_img2 uninit img x y v =
     for_n (unat (width img)) (\<lambda>offset_x.
       for_n (unat (height img)) (\<lambda>offset_y.
         draw_img2_cell uninit img x y offset_x offset_y)) v"

definition draw_img :: "xpm_image \<Rightarrow> u16 \<Rightarrow> u16 \<Rightarrow> video_st \<Rightarrow> fault + video_st" where
  "draw_img img x y v =
     (let numBytes = bytes_per_pixel v * ucast (width img)
      in for_n (unat (height img)) (\<lambda>offset_y v.
           let dst = pix_off v (ucast x) (ucast y + of_nat offset_y);
               src = unat ((of_nat offset_y * ucast (width img)) * bytes_per_pixel v);
               n = unat numBytes
           in if accessible v dst n \<and> (n = 0 \<or> src + n \<le> length (bytes img))
              then Inr (v\<lparr>video_mem := copy_in (take n (drop src (bytes img))) dst (video_mem v)\<rparr>)
              else Inl Bad_access) v)"

definition continueLoop :: "u16 \<Rightarrow> u16 \<Rightarrow> u16 \<Rightarrow> u16 \<Rightarrow> bool \<Rightarrow> u8 \<Rightarrow> bool" where
  "continueLoop xi xf yi yf isHorizontal scan =
     (if scan = 0x81 then False
      else if isHorizontal \<and> xi \<ge> xf then False
      else if \<not> isHorizontal \<and> yi \<ge> yf then False
      else True)"

definition start_screen ::
    "u16 \<Rightarrow> u16 \<Rightarrow> u32 \<Rightarrow> u16 \<Rightarrow> u16 \<Rightarrow> u32 \<Rightarrow> u16 \<Rightarrow> video_st \<Rightarrow> fault + (int \<times> video_st)" where
  "start_screen x1 y1 color1 x2 y2 color2 OBJ_SIZE v =
     bind_res (vg_draw_rectangle x1 y1 OBJ_SIZE OBJ_SIZE color1 v) (\<lambda>(flag, v).
       if flag \<noteq> 0 then Inr (1, v)
       else bind_res (vg_draw_rectangle x2 y2 OBJ_SIZE OBJ_SIZE color2 v) (\<lambda>(flag, v).
              if flag \<noteq> 0 then Inr (1, v) else Inr (0, v)))"


section \<open>The cursor\<close>

definition setMouseInitPos :: "xpm_image \<Rightarrow> video_st \<Rightarrow> fault + video_st" where
  "setMouseInitPos cur v =
     (let v = v\<lparr>mouse := \<lparr>mouse_x = ucast (h_res v div 2), mouse_y = ucast (v_res v div 2)\<rparr>\<rparr>
      in draw_img cur (mouse_x (mouse v)) (mouse_y (mouse v)) v)"

text \<open>The new coordinate of one axis: 16-bit wrap-around, then the two clamps in the code's order.\<close>

definition clamp_axis :: "u16 \<Rightarrow> u32 \<Rightarrow> u16" where
  "clamp_axis p res =
     (let p = (if ucast p \<ge> res - 30 then ucast (res - 30) else p);
          p = (if p \<le> 30 then 30 else p)
      in p)"

definition mouseMovement :: "u16 \<Rightarrow> u16 \<Rightarrow> xpm_image \<Rightarrow> video_st \<Rightarrow> fault + video_st" where
  "mouseMovement x y cur v =
     (let mx = mouse_x (mouse v) + x;
          my = mouse_y (mouse v) - y;
          mx = clamp_axis mx (h_res v);
          my = clamp_axis my (v_res v);
          v = v\<lparr>mouse := \<lparr>mouse_x = mx, mouse_y = my\<rparr>\<rparr>
      in draw_img cur mx my v)"

definition mouseInPlace :: "u16 \<Rightarrow> u16 \<Rightarrow> u16 \<Rightarrow> u16 \<Rightarrow> video_st \<Rightarrow> bool" where
  "mouseInPlace x1 y1 x2 y2 v \<longleftrightarrow>
     mouse_x (mouse v) \<ge> x1 \<and> mouse_x (mouse v) \<le> x2 \<and>
     mouse_y (mouse v) \<ge> y1 \<and> mouse_y (mouse v) \<le> y2"


section \<open>Geometry\<close>

text \<open>
  A mapped screen: one to four bytes per pixel, coordinates that fit 16 bits, and the whole
  frame, whose size fits 32 bits, accessible.
\<close>

abbreviation scr_w :: "video_st \<Rightarrow> nat" where
  "scr_w v \<equiv> unat (h_res v)"

abbreviation scr_h :: "video_st \<Rightarrow> nat" where
  "scr_h v \<equiv> unat (v_res v)"

abbreviation bpp :: "video_st \<Rightarrow> nat" where
  "bpp v \<equiv> unat (bytes_per_pixel v)"

definition wf_video :: "video_st \<Rightarrow> bool" where
  "wf_video v \<longleftrightarrow> 0 < bpp v \<and> bpp v \<le> 4 \<and> scr_w v \<le> 2 ^ 16 \<and> scr_h v \<le> 2 ^ 16
     \<and> scr_w v * scr_h v * bpp v < 2 ^ 32 \<and> scr_w v * scr_h v * bpp v \<le> mapped v"

text \<open>The colour of a pixel of the screen, whatever the pixel's address.\<close>

definition pixel :: "video_st \<Rightarrow> nat \<Rightarrow> nat \<Rightarrow> u32" where
  "pixel v x y = load_le (video_mem v) ((y * scr_w v + x) * bpp v) (bpp v)"

lemma cell_index_less: "x < w \<Longrightarrow> y < h \<Longrightarrow> y * w + x < w * h" for x y w h :: nat
proof -
  assume "x < w" "y < h"
  then have "y * w + x < Suc y * w" by simp
  also have "\<dots> \<le> h * w"
    using \<open>y < h\<close> by (intro mult_le_mono1) simp
  finally show ?thesis by (simp add: mult.commute)
qed

lemma byte_index_le:
  "x < w \<Longrightarrow> y < h \<Longrightarrow> (y * w + x) * b + b \<le> w * h * b" for x y w h b :: nat
  using mult_le_mono1 [OF cell_index_less [THEN Suc_leI], of x w y h b]
  by (simp add: add.commute)

lemma cell_index_inj:
  "x < w \<Longrightarrow> x' < w \<Longrightarrow> y * w + x = y' * w + x' \<longleftrightarrow> x = x' \<and> y = y'" for x y w x' y' :: nat
  by (metis add.commute div_mult_self3 mod_less mod_mult_self3 div_less
      add_cancel_right_left less_nat_zero_code)

lemma pix_off_on_screen:
  assumes "wf_video v" and "unat x < scr_w v" and "unat y < scr_h v"
  shows "pix_off v x y = (unat y * scr_w v + unat x) * bpp v"
proof -
  have i: "unat y * scr_w v + unat x < scr_w v * scr_h v"
    using assms(2,3) by (rule cell_index_less)
  have b: "(unat y * scr_w v + unat x) * bpp v < 2 ^ 32"
    using byte_index_le [OF assms(2,3), of "bpp v"] assms(1) by (simp add: wf_video_def)
  have "1 \<le> bpp v" using assms(1) by (simp add: wf_video_def)
  then have "unat y * scr_w v + unat x < 2 ^ 32"
    using b by (metis le_less_trans mult.right_neutral mult_le_mono2)
  then have "unat (y * h_res v + x) = unat y * scr_w v + unat x"
    by (subst unat_add_no_wrap; subst unat_mult_no_wrap) simp_all
  then show ?thesis
    using b by (simp add: pix_off_def unat_mult_no_wrap)
qed

lemma on_screen_accessible:
  assumes "wf_video v" and "unat x < scr_w v" and "unat y < scr_h v"
  shows "bpp v \<le> 4 \<and> accessible v (pix_off v x y) (bpp v)"
  using byte_index_le [OF assms(2,3), of "bpp v"] assms(1)
  by (simp add: accessible_def pix_off_on_screen [OF assms] wf_video_def)

lemma find_color_on_screen:
  assumes "wf_video v" and "unat x < scr_w v" and "unat y < scr_h v"
  shows "find_color x y v = Inr (pixel v (unat x) (unat y))"
  using on_screen_accessible [of v "ucast x" "ucast y"] pix_off_on_screen [of v "ucast x" "ucast y"]
    assms
  by (simp add: find_color_def pixel_def Let_def unat_ucast_up)

lemma vg_draw_pixel_on_screen:
  assumes "wf_video v" and "unat x < scr_w v" and "unat y < scr_h v"
  shows "vg_draw_pixel x y c v = Inr (v\<lparr>video_mem :=
    store_le c (bpp v) ((unat y * scr_w v + unat x) * bpp v) (video_mem v)\<rparr>)"
  using on_screen_accessible [of v "ucast x" "ucast y"] pix_off_on_screen [of v "ucast x" "ucast y"]
    assms
  by (simp add: vg_draw_pixel_def Let_def unat_ucast_up)

lemma wf_video_video_mem [simp]: "wf_video (v\<lparr>video_mem := m\<rparr>) = wf_video v"
  by (simp add: wf_video_def)

lemma pixel_store:
  assumes "wf_video v" and "x < scr_w v" and "x' < scr_w v"
  shows "pixel (v\<lparr>video_mem := store_le c (bpp v) ((y * scr_w v + x) * bpp v) (video_mem v)\<rparr>) x' y'
    = (if x' = x \<and> y' = y then take_bit (8 * bpp v) c else pixel v x' y')"
proof (cases "x' = x \<and> y' = y")
  case True
  then show ?thesis
    using assms(1) by (simp add: pixel_def load_store_le wf_video_def)
next
  case False
  then have "y' * scr_w v + x' \<noteq> y * scr_w v + x"
    using cell_index_inj [OF assms(3,2)] by auto
  then have "Suc (y' * scr_w v + x') \<le> y * scr_w v + x \<or> Suc (y * scr_w v + x) \<le> y' * scr_w v + x'"
    by linarith
  then have "Suc (y' * scr_w v + x') * bpp v \<le> (y * scr_w v + x) * bpp v
      \<or> Suc (y * scr_w v + x) * bpp v \<le> (y' * scr_w v + x') * bpp v"
    by (meson mult_le_mono1)
  then show ?thesis
    unfolding if_not_P [OF False] by (simp add: pixel_def load_store_le_other add.commute)
qed

text \<open>Everything of the module's state but the bytes of the frame buffer.\<close>

definition frame_rest :: "video_st \<Rightarrow> video_st" where
  "frame_rest v = v\<lparr>video_mem := \<lambda>_. 0\<rparr>"

lemma frame_rest_simps [simp]:
  "h_res (frame_rest v) = h_res v"
  "v_res (frame_rest v) = v_res v"
  "bytes_per_pixel (frame_rest v) = bytes_per_pixel v"
  "frame_rest (v\<lparr>video_mem := m\<rparr>) = frame_rest v"
  "video_mem (frame_rest v) = (\<lambda>_. 0)"
  by (simp_all add: frame_rest_def)

lemma frame_rest_eqD:
  assumes "frame_rest v = frame_rest v'"
  shows "h_res v = h_res v'" "v_res v = v_res v'" "bytes_per_pixel v = bytes_per_pixel v'"
    "mapped v = mapped v'" "bluePlayer v = bluePlayer v'" "orangePlayer v = orangePlayer v'"
    "mouse v = mouse v'"
  using assms by (simp_all add: frame_rest_def video_st.defs) (metis video_st.ext_inject video_st.surjective video_st.update_convs)+

interpretation fb: framebuffer vg_draw_pixel find_color frame_rest
  "\<lambda>r. unat (h_res r)" "\<lambda>r. unat (v_res r)" "\<lambda>r c. take_bit (8 * unat (bytes_per_pixel r)) c"
  wf_video
proof
  fix v v' :: video_st and x y x' y' :: u16 and c :: u32
  assume v: "wf_video v" and x: "unat x < unat (h_res (frame_rest v))"
    and y: "unat y < unat (v_res (frame_rest v))"
  then show "\<exists>v'. vg_draw_pixel x y c v = Inr v' \<and> wf_video v' \<and> frame_rest v' = frame_rest v"
    by (simp add: vg_draw_pixel_on_screen)
  assume v': "vg_draw_pixel x y c v = Inr v'"
    and "unat x' < unat (h_res (frame_rest v))" "unat y' < unat (v_res (frame_rest v))"
  with v x y show "find_color x' y' v' =
      (if x' = x \<and> y' = y then Inr (take_bit (8 * unat (bytes_per_pixel (frame_rest v))) c)
       else find_color x' y' v)"
    by (auto simp: vg_draw_pixel_on_screen find_color_on_screen pixel_store word_unat_eq_iff)
qed (simp_all add: wf_video_def)


section \<open>Rectangles\<close>

lemma pixel_eq_find_color:
  assumes "wf_video v" and "x < scr_w v" and "y < scr_h v"
  shows "find_color (of_nat x) (of_nat y) v = Inr (pixel v x y)"
proof -
  have "x < 2 ^ 16" "y < 2 ^ 16"
    using assms by (simp_all add: wf_video_def)
  then have "unat (of_nat x :: u16) = x" "unat (of_nat y :: u16) = y"
    by (simp_all add: unat_of_nat_small)
  with assms show ?thesis
    by (simp add: find_color_on_screen)
qed

text \<open>A block of cells, each with its own colour, on the screen.\<close>

lemma block_on_screen:
  assumes v: "wf_video v" and w: "unat x + w \<le> scr_w v" and h: "unat y + h \<le> scr_h v"
  obtains v' where
    "for_n h (\<lambda>j. for_n w (\<lambda>i. vg_draw_pixel (x + of_nat i) (y + of_nat j) (c i j))) v = Inr v'"
    "wf_video v'" "frame_rest v' = frame_rest v"
    "\<And>x' y'. x' < scr_w v \<Longrightarrow> y' < scr_h v \<Longrightarrow>
       pixel v' x' y' = (if unat x \<le> x' \<and> x' < unat x + w \<and> unat y \<le> y' \<and> y' < unat y + h
                         then take_bit (8 * bpp v) (c (x' - unat x) (y' - unat y)) else pixel v x' y')"
proof -
  obtain v' where v': "for_n h (\<lambda>j. for_n w (\<lambda>i. vg_draw_pixel (x + of_nat i) (y + of_nat j) (c i j))) v = Inr v'"
      "wf_video v'" "frame_rest v' = frame_rest v"
    and g: "\<And>x' y'. unat x' < scr_w v \<Longrightarrow> unat y' < scr_h v \<Longrightarrow>
       find_color x' y' v' = (if unat x \<le> unat x' \<and> unat x' < unat x + w
           \<and> unat y \<le> unat y' \<and> unat y' < unat y + h
         then Inr (take_bit (8 * bpp v) (c (unat x' - unat x) (unat y' - unat y))) else find_color x' y' v)"
    using fb.cells [OF v, of x w y h c] w h by auto
  have same: "scr_w v' = scr_w v" "scr_h v' = scr_h v"
    using frame_rest_eqD [OF v'(3)] by simp_all
  have "pixel v' x' y' = (if unat x \<le> x' \<and> x' < unat x + w \<and> unat y \<le> y' \<and> y' < unat y + h
      then take_bit (8 * bpp v) (c (x' - unat x) (y' - unat y)) else pixel v x' y')"
    if "x' < scr_w v" "y' < scr_h v" for x' y'
  proof -
    have "unat (of_nat x' :: u16) = x'" "unat (of_nat y' :: u16) = y'"
      using that v by (simp_all add: wf_video_def unat_of_nat_small)
    with g [of "of_nat x'" "of_nat y'"] that show ?thesis
      using pixel_eq_find_color [OF v that] pixel_eq_find_color [OF v'(2), of x' y'] same
      by (auto split: if_splits)
  qed
  with that v' show ?thesis by blast
qed

text \<open>What a rectangle call reports and how it changes the picture, on the screen.\<close>

lemma vg_draw_rectangle_on_screen:
  assumes v: "wf_video v" and "0 < wd" and "0 < ht"
    and w: "unat x + unat wd \<le> scr_w v" and h: "unat y + unat ht \<le> scr_h v"
  obtains v' where
    "vg_draw_rectangle x y wd ht c v =
       Inr (if pixel v (unat x) (unat y) \<noteq> 0 \<and> pixel v (unat x) (unat y) \<noteq> 255 then 1 else 0, v')"
    "wf_video v'" "frame_rest v' = frame_rest v"
    "\<And>x' y'. x' < scr_w v \<Longrightarrow> y' < scr_h v \<Longrightarrow>
       pixel v' x' y' = (if unat x \<le> x' \<and> x' < unat x + unat wd \<and> unat y \<le> y' \<and> y' < unat y + unat ht
                         then take_bit (8 * bpp v) c else pixel v x' y')"
proof -
  have "0 < unat wd" "0 < unat ht"
    using assms(2,3) by (simp_all add: word_less_nat_alt)
  with w h have xy: "unat x < scr_w v" "unat y < scr_h v"
    by simp_all
  obtain v' where v': "for_n (unat ht) (\<lambda>j. for_n (unat wd)
        (\<lambda>i. vg_draw_pixel (x + of_nat i) (y + of_nat j) c)) v = Inr v'"
      "wf_video v'" "frame_rest v' = frame_rest v"
      "\<And>x' y'. x' < scr_w v \<Longrightarrow> y' < scr_h v \<Longrightarrow>
       pixel v' x' y' = (if unat x \<le> x' \<and> x' < unat x + unat wd \<and> unat y \<le> y' \<and> y' < unat y + unat ht
                         then take_bit (8 * bpp v) c else pixel v x' y')"
    by (rule block_on_screen [OF v w h, where c = "\<lambda>_ _. c"]) blast
  moreover have "vg_draw_rectangle x y wd ht c v =
      Inr (if pixel v (unat x) (unat y) \<noteq> 0 \<and> pixel v (unat x) (unat y) \<noteq> 255 then 1 else 0, v')"
    using v'(1) by (simp add: vg_draw_rectangle_def vg_draw_hline_def find_color_on_screen [OF v xy])
  ultimately show ?thesis
    using that by blast
qed


section \<open>Images\<close>

text \<open>
  Where byte \<open>j\<close> of image pixel \<open>(a, b)\<close> goes, where it comes from, and what it means that exactly
  the pixels \<open>D\<close> of the image have been painted onto \<open>m\<close>.
\<close>

definition dst_byte :: "video_st \<Rightarrow> nat \<Rightarrow> nat \<Rightarrow> nat \<Rightarrow> nat \<Rightarrow> nat \<Rightarrow> nat" where
  "dst_byte v x y a b j = ((y + b) * scr_w v + (x + a)) * bpp v + j"

definition src_byte :: "video_st \<Rightarrow> xpm_image \<Rightarrow> nat \<Rightarrow> nat \<Rightarrow> nat \<Rightarrow> u8" where
  "src_byte v img a b j = bytes img ! ((b * unat (width img) + a) * bpp v + j)"

definition painted :: "video_st \<Rightarrow> xpm_image \<Rightarrow> nat \<Rightarrow> nat \<Rightarrow> (nat \<times> nat) set \<Rightarrow> mem \<Rightarrow> mem \<Rightarrow> bool" where
  "painted v img x y D m m' \<longleftrightarrow>
     (\<forall>a b j. (a, b) \<in> D \<and> j < bpp v \<longrightarrow> m' (dst_byte v x y a b j) = src_byte v img a b j) \<and>
     (\<forall>k. (\<forall>a b j. (a, b) \<in> D \<and> j < bpp v \<longrightarrow> k \<noteq> dst_byte v x y a b j) \<longrightarrow> m' k = m k)"

lemma dst_byte_inj:
  assumes "dst_byte v x y a b j = dst_byte v x y a' b' j'"
    and "j < bpp v" "j' < bpp v" "x + a < scr_w v" "x + a' < scr_w v"
  shows "a = a' \<and> b = b' \<and> j = j'"
proof -
  from assms have "(y + b) * scr_w v + (x + a) = (y + b') * scr_w v + (x + a') \<and> j = j'"
    unfolding dst_byte_def using cell_index_inj [of j "bpp v" j'] by simp
  then show ?thesis
    using cell_index_inj [OF assms(4,5), of "y + b" "y + b'"] by auto
qed

lemma painted_empty: "painted v img x y {} m m"
  by (simp add: painted_def)

lemma painted_trans:
  assumes "painted v img x y D m m'" and "painted v img x y E m' m''"
    and on: "\<And>a b. (a, b) \<in> D \<union> E \<Longrightarrow> x + a < scr_w v"
  shows "painted v img x y (D \<union> E) m m''"
  unfolding painted_def
proof (intro conjI allI impI)
  fix a b j
  assume ab: "(a, b) \<in> D \<union> E \<and> j < bpp v"
  show "m'' (dst_byte v x y a b j) = src_byte v img a b j"
  proof (cases "(a, b) \<in> E")
    case True
    with ab assms(2) show ?thesis by (simp add: painted_def)
  next
    case False
    have "dst_byte v x y a b j \<noteq> dst_byte v x y a' b' j'" if "(a', b') \<in> E" "j' < bpp v" for a' b' j'
      using dst_byte_inj [of v x y a b j a' b' j'] that ab on [of a b] on [of a' b'] False by auto
    then have "m'' (dst_byte v x y a b j) = m' (dst_byte v x y a b j)"
      using assms(2) by (simp add: painted_def)
    with ab False assms(1) show ?thesis by (simp add: painted_def)
  qed
next
  fix k
  assume "\<forall>a b j. (a, b) \<in> D \<union> E \<and> j < bpp v \<longrightarrow> k \<noteq> dst_byte v x y a b j"
  then have "m'' k = m' k" and "m' k = m k"
    using assms(1,2) by (simp_all add: painted_def)
  then show "m'' k = m k" by simp
qed

lemma painted_unique:
  assumes "painted v img x y D m m1" and "painted v img x y D m m2"
  shows "m1 = m2"
proof
  fix k
  show "m1 k = m2 k"
  proof (cases "\<exists>a b j. (a, b) \<in> D \<and> j < bpp v \<and> k = dst_byte v x y a b j")
    case True
    with assms show ?thesis by (auto simp: painted_def)
  next
    case False
    with assms show ?thesis unfolding painted_def by metis
  qed
qed

text \<open>The whole image lies on the screen and its pixel data is complete.\<close>

definition img_fits :: "video_st \<Rightarrow> xpm_image \<Rightarrow> nat \<Rightarrow> nat \<Rightarrow> bool" where
  "img_fits v img x y \<longleftrightarrow> wf_video v \<and> x + unat (width img) \<le> scr_w v \<and> y + unat (height img) \<le> scr_h v
     \<and> unat (width img) * unat (height img) * bpp v \<le> length (bytes img)"

lemma img_fits_video_mem [simp]: "img_fits (v\<lparr>video_mem := m\<rparr>) img x y = img_fits v img x y"
  by (simp add: img_fits_def)

lemma painted_video_mem [simp]: "painted (v\<lparr>video_mem := n\<rparr>) = painted v"
  by (simp add: painted_def dst_byte_def src_byte_def fun_eq_iff)

lemma img_bytes_32:
  assumes "img_fits v img x y"
  shows "unat (width img) * unat (height img) * bpp v < 2 ^ 32"
proof -
  have "unat (width img) * unat (height img) * bpp v \<le> scr_w v * scr_h v * bpp v"
    using assms by (intro mult_le_mono) (simp_all add: img_fits_def)
  also have "\<dots> < 2 ^ 32"
    using assms by (simp add: img_fits_def wf_video_def)
  finally show ?thesis .
qed

lemma draw_img_row:
  fixes x y :: u16
  assumes fits: "img_fits v img (unat x) (unat y)" and b: "b < unat (height img)" and w: "0 < width img"
  shows "pix_off v (ucast x) (ucast y + of_nat b) = dst_byte v (unat x) (unat y) 0 b 0"
    and "unat ((of_nat b * ucast (width img)) * bytes_per_pixel v) = b * unat (width img) * bpp v"
    and "unat (bytes_per_pixel v * ucast (width img)) = bpp v * unat (width img)"
    and "b * unat (width img) * bpp v + bpp v * unat (width img) \<le> length (bytes img)"
    and "dst_byte v (unat x) (unat y) 0 b 0 + bpp v * unat (width img) \<le> mapped v"
proof -
  have v: "wf_video v" using fits by (simp add: img_fits_def)
  have w0: "0 < unat (width img)" using w by (simp add: word_less_nat_alt)
  have on: "unat x < scr_w v" "unat y + b < scr_h v"
    using fits b w0 by (simp_all add: img_fits_def)
  have yb: "unat (ucast y + of_nat b :: u32) = unat y + b"
    using on(2) v by (subst unat_add_of_nat) (simp_all add: unat_ucast_up wf_video_def)
  show "pix_off v (ucast x) (ucast y + of_nat b) = dst_byte v (unat x) (unat y) 0 b 0"
    using on by (subst pix_off_on_screen [OF v]) (simp_all add: yb unat_ucast_up dst_byte_def)
  have "b * unat (width img) * bpp v + bpp v * unat (width img) = Suc b * unat (width img) * bpp v"
    by (simp add: algebra_simps)
  also have "\<dots> \<le> unat (height img) * unat (width img) * bpp v"
    using b by (intro mult_le_mono) simp_all
  finally have le: "b * unat (width img) * bpp v + bpp v * unat (width img)
      \<le> unat (width img) * unat (height img) * bpp v"
    by (simp add: mult.commute)
  then show "b * unat (width img) * bpp v + bpp v * unat (width img) \<le> length (bytes img)"
    using fits by (simp add: img_fits_def)
  note big = img_bytes_32 [OF fits]
  show "unat (bytes_per_pixel v * ucast (width img)) = bpp v * unat (width img)"
    using le big by (subst unat_mult_no_wrap) (simp_all add: unat_ucast_up)
  have bw: "b * unat (width img) * bpp v < 2 ^ 32"
    using le big by linarith
  moreover have "b * unat (width img) \<le> b * unat (width img) * bpp v"
    using v by (simp add: wf_video_def)
  ultimately have bw': "b * unat (width img) < 2 ^ 32"
    by linarith
  have ub: "unat (of_nat b :: u32) = b"
    using b unat_less [of "height img"] by (intro unat_of_nat_small) simp
  have "unat (of_nat b * ucast (width img) :: u32) = b * unat (width img)"
    using bw' ub by (subst unat_mult_no_wrap) (simp_all add: unat_ucast_up)
  then show "unat ((of_nat b * ucast (width img)) * bytes_per_pixel v) = b * unat (width img) * bpp v"
    using bw by (subst unat_mult_no_wrap) simp_all
  have "dst_byte v (unat x) (unat y) 0 b 0 + bpp v * unat (width img)
      \<le> ((unat y + b) * scr_w v + scr_w v) * bpp v"
  proof -
    have "unat x + unat (width img) \<le> scr_w v"
      using fits by (simp add: img_fits_def)
    then have "((unat y + b) * scr_w v + (unat x + unat (width img))) * bpp v
        \<le> ((unat y + b) * scr_w v + scr_w v) * bpp v"
      by (intro mult_le_mono) simp_all
    then show ?thesis
      by (simp add: dst_byte_def algebra_simps)
  qed
  also have "\<dots> = Suc (unat y + b) * scr_w v * bpp v"
    by simp
  also have "\<dots> \<le> scr_h v * scr_w v * bpp v"
    using on(2) by (intro mult_le_mono) simp_all
  finally show "dst_byte v (unat x) (unat y) 0 b 0 + bpp v * unat (width img) \<le> mapped v"
    using v by (simp add: wf_video_def mult.commute)
qed

lemma row_painted:
  assumes "b * unat (width img) * bpp v + bpp v * unat (width img) \<le> length (bytes img)"
  shows "painted v img x y {(a, b') | a b'. a < unat (width img) \<and> b' = b} m
    (copy_in (take (bpp v * unat (width img)) (drop (b * unat (width img) * bpp v) (bytes img)))
      (dst_byte v x y 0 b 0) m)"
proof -
  let ?w = "unat (width img)"
  let ?bs = "take (bpp v * ?w) (drop (b * ?w * bpp v) (bytes img))"
  have len: "length ?bs = bpp v * ?w"
    using assms by simp
  have d: "dst_byte v x y a b j = dst_byte v x y 0 b 0 + (a * bpp v + j)" for a j
    by (simp add: dst_byte_def algebra_simps)
  show ?thesis
    unfolding painted_def
  proof (intro conjI allI impI)
    fix a b' j
    assume "(a, b') \<in> {(a, b') | a b'. a < ?w \<and> b' = b} \<and> j < bpp v"
    then have ab: "a < ?w" "b' = b" "j < bpp v" by auto
    have i: "a * bpp v + j < bpp v * ?w"
      using cell_index_less [OF ab(3,1)] .
    then have "?bs ! (a * bpp v + j) = src_byte v img a b j"
      using assms by (simp add: src_byte_def algebra_simps)
    with i len show "copy_in ?bs (dst_byte v x y 0 b 0) m (dst_byte v x y a b' j) = src_byte v img a b' j"
      by (simp add: copy_in_def ab(2) d [of a j])
  next
    fix k
    assume k: "\<forall>a b' j. (a, b') \<in> {(a, b') | a b'. a < ?w \<and> b' = b} \<and> j < bpp v \<longrightarrow>
      k \<noteq> dst_byte v x y a b' j"
    have False if "dst_byte v x y 0 b 0 \<le> k" "k < dst_byte v x y 0 b 0 + bpp v * ?w"
    proof -
      define i where "i = k - dst_byte v x y 0 b 0"
      have i: "i < ?w * bpp v" "k = dst_byte v x y 0 b 0 + i"
        using that by (simp_all add: i_def mult.commute)
      then have "0 < bpp v" by (cases "bpp v") simp_all
      then have "i mod bpp v < bpp v" "i div bpp v < ?w"
        using i(1) by (simp_all add: less_mult_imp_div_less)
      moreover have "k = dst_byte v x y (i div bpp v) b (i mod bpp v)"
        using i(2) by (simp add: d [of "i div bpp v" "i mod bpp v"])
      ultimately show False using k by blast
    qed
    then show "copy_in ?bs (dst_byte v x y 0 b 0) m k = m k"
      using len by (auto simp: copy_in_def)
  qed
qed

text \<open>The rectangle of image pixels, and the memory a complete copy gives.\<close>

definition img_cells :: "xpm_image \<Rightarrow> (nat \<times> nat) set" where
  "img_cells img = {..<unat (width img)} \<times> {..<unat (height img)}"

lemma painted_on_screen:
  assumes "img_fits v img x y" and "D \<subseteq> img_cells img" and "(a, b) \<in> D"
  shows "x + a < scr_w v"
  using assms by (auto simp: img_fits_def img_cells_def)

lemma draw_img_paints:
  fixes x y :: u16
  assumes fits: "img_fits v img (unat x) (unat y)"
  shows "\<exists>m. draw_img img x y v = Inr (v\<lparr>video_mem := m\<rparr>)
    \<and> painted v img (unat x) (unat y) (img_cells img) (video_mem v) m"
proof -
  let ?w = "unat (width img)" and ?x = "unat x" and ?y = "unat y"
  let ?D = "\<lambda>i. {..<?w} \<times> {..<i}"
  let ?P = "\<lambda>i u. \<exists>m. u = v\<lparr>video_mem := m\<rparr> \<and> painted v img ?x ?y (?D i) (video_mem v) m"
  have "\<exists>u. draw_img img x y v = Inr u \<and> ?P (unat (height img)) u"
    unfolding draw_img_def Let_def
  proof (rule for_n_rule)
    show "?P 0 v"
      by (rule exI [of _ "video_mem v"]) (simp add: painted_empty)
  next
    fix b u
    assume b: "b < unat (height img)" and "?P b u"
    then obtain m where u: "u = v\<lparr>video_mem := m\<rparr>"
      and m: "painted v img ?x ?y (?D b) (video_mem v) m" by blast
    show "\<exists>u'. (if accessible u (pix_off u (ucast x) (ucast y + of_nat b))
                    (unat (bytes_per_pixel v * ucast (width img))) \<and>
                  (unat (bytes_per_pixel v * ucast (width img)) = 0 \<or>
                   unat (of_nat b * ucast (width img) * bytes_per_pixel u)
                     + unat (bytes_per_pixel v * ucast (width img)) \<le> length (bytes img))
               then Inr (u\<lparr>video_mem := copy_in
                      (take (unat (bytes_per_pixel v * ucast (width img)))
                        (drop (unat (of_nat b * ucast (width img) * bytes_per_pixel u)) (bytes img)))
                      (pix_off u (ucast x) (ucast y + of_nat b)) (video_mem u)\<rparr>)
               else Inl Bad_access) = Inr u' \<and> ?P (Suc b) u'"
    proof (cases "width img = 0")
      case True
      then show ?thesis
        using m by (auto simp: u accessible_def)
    next
      case False
      then have w: "0 < width img"
        by (simp add: word_neq_0_conv)
      have fitsu: "img_fits u img ?x ?y" using fits by (simp add: u)
      note row = draw_img_row [OF fitsu b w]
      have same: "bytes_per_pixel v = bytes_per_pixel u"
        by (simp add: u)
      let ?m = "copy_in (take (bpp u * ?w) (drop (b * ?w * bpp u) (bytes img)))
        (dst_byte u ?x ?y 0 b 0) (video_mem u)"
      have "painted u img ?x ?y {(a, b') | a b'. a < ?w \<and> b' = b} (video_mem u) ?m"
        using row(4) by (rule row_painted)
      then have "painted v img ?x ?y {(a, b') | a b'. a < ?w \<and> b' = b} m ?m"
        by (simp add: u)
      with m have "painted v img ?x ?y (?D b \<union> {(a, b') | a b'. a < ?w \<and> b' = b}) (video_mem v) ?m"
      proof (rule painted_trans)
        fix a b'
        assume "(a, b') \<in> ?D b \<union> {(a, b') | a b'. a < ?w \<and> b' = b}"
        then show "?x + a < scr_w v" using fits by (auto simp: img_fits_def)
      qed
      moreover have "?D b \<union> {(a, b') | a b'. a < ?w \<and> b' = b} = ?D (Suc b)"
        by (auto simp: less_Suc_eq)
      ultimately have "?P (Suc b) (u\<lparr>video_mem := ?m\<rparr>)"
        by (intro exI [of _ ?m]) (simp add: u)
      with row show ?thesis
        unfolding same by (simp add: accessible_def)
    qed
  qed
  then show ?thesis
    unfolding img_cells_def by blast
qed

lemma byte_of_img_color:
  assumes "j < n" and "n \<le> 4"
  shows "(ucast (drop_bit (8 * j) (img_color uninit img a n)) :: u8) = bytes img ! (a + j)"
proof (rule bit_word_eqI)
  fix k
  assume "k < LENGTH(8)"
  then have k: "k < 8" by simp
  then have "8 * j + k < 8 * n" and "8 * j + k < 32" and "(8 * j + k) div 8 = j" "(8 * j + k) mod 8 = k"
    using assms by simp_all
  then show "bit (ucast (drop_bit (8 * j) (img_color uninit img a n)) :: u8) k = bit (bytes img ! (a + j)) k"
    using k by (auto simp: img_color_def bit_simps bit_load_le)
qed

lemma pixel_painted:
  assumes v: "wf_video v" and "x + a < scr_w v" and "y + b < scr_h v"
  shows "painted v img x y {(a, b)} m
    (store_le (img_color uninit img ((b * unat (width img) + a) * bpp v) (bpp v)) (bpp v)
      (dst_byte v x y a b 0) m)"
proof -
  have d: "dst_byte v x y a b j = dst_byte v x y a b 0 + j" for j
    by (simp add: dst_byte_def)
  have "bpp v \<le> 4" using v by (simp add: wf_video_def)
  then show ?thesis
    unfolding painted_def store_le_def
    by (auto simp: d [of "_ + _"] d [of "Suc _"] byte_of_img_color src_byte_def dst_byte_def)
      (metis add.commute le_iff_add less_diff_conv2 nat_le_linear add_diff_cancel_left' add_less_cancel_left)
qed

lemma src_index_32:
  fixes x y :: u16
  assumes fits: "img_fits v img (unat x) (unat y)" and a: "a < unat (width img)" and b: "b < unat (height img)"
  shows "unat ((of_nat b * ucast (width img) + of_nat a) * bytes_per_pixel v)
      = (b * unat (width img) + a) * bpp v"
    and "(b * unat (width img) + a) * bpp v + bpp v \<le> length (bytes img)"
proof -
  let ?w = "unat (width img)"
  have le: "(b * ?w + a) * bpp v + bpp v \<le> ?w * unat (height img) * bpp v"
    using a b by (rule byte_index_le)
  then show "(b * ?w + a) * bpp v + bpp v \<le> length (bytes img)"
    using fits by (simp add: img_fits_def)
  have "1 \<le> bpp v" using fits by (simp add: img_fits_def wf_video_def)
  then have "b * ?w + a \<le> (b * ?w + a) * bpp v"
    using mult_le_mono2 [of 1 "bpp v" "b * ?w + a"] by simp
  with le have *: "(b * ?w + a) * bpp v < 2 ^ 32" "b * ?w + a < 2 ^ 32"
    using img_bytes_32 [OF fits] by linarith+
  have u: "unat (of_nat b :: u32) = b" "unat (of_nat a :: u32) = a"
    using a b unat_less [of "width img"] unat_less [of "height img"]
    by (simp_all add: unat_of_nat_small)
  have "unat (of_nat b * ucast (width img) :: u32) = b * ?w"
    using *(2) u by (subst unat_mult_no_wrap) (simp_all add: unat_ucast_up)
  then have "unat (of_nat b * ucast (width img) + of_nat a :: u32) = b * ?w + a"
    using *(2) u by (subst unat_add_no_wrap) simp_all
  then show "unat ((of_nat b * ucast (width img) + of_nat a) * bytes_per_pixel v) = (b * ?w + a) * bpp v"
    using *(1) by (subst unat_mult_no_wrap) simp_all
qed

text \<open>One pixel of \<open>draw_img2\<close>.\<close>

lemma draw_img2_pixel:
  fixes x y :: u16
  assumes fits: "img_fits v img (unat x) (unat y)" and a: "a < unat (width img)" and b: "b < unat (height img)"
    and D: "D \<subseteq> img_cells img" and m: "painted v img (unat x) (unat y) D (video_mem v) m"
    and u: "u = v\<lparr>video_mem := m\<rparr>"
  shows "\<exists>m'. draw_img2_cell uninit img x y a b u = Inr (v\<lparr>video_mem := m'\<rparr>)
    \<and> painted v img (unat x) (unat y) (insert (a, b) D) (video_mem v) m'"
proof -
  have v: "wf_video v" using fits by (simp add: img_fits_def)
  have on: "unat x + a < scr_w v" "unat y + b < scr_h v"
    using fits a b by (simp_all add: img_fits_def)
  have xy: "unat (x + of_nat a) = unat x + a" "unat (y + of_nat b) = unat y + b"
    using on v by (simp_all add: unat_add_of_nat wf_video_def)
  let ?i = "(b * unat (width img) + a) * bpp v"
  let ?m = "store_le (img_color uninit img ?i (bpp v)) (bpp v) (dst_byte v (unat x) (unat y) a b 0) m"
  have "vg_draw_pixel (x + of_nat a) (y + of_nat b) c u = Inr (v\<lparr>video_mem :=
      store_le c (bpp v) (dst_byte v (unat x) (unat y) a b 0) m\<rparr>)" for c
    using v on by (subst vg_draw_pixel_on_screen) (simp_all add: u xy dst_byte_def)
  moreover have "painted v img (unat x) (unat y) (D \<union> {(a, b)}) (video_mem v) ?m"
    using m pixel_painted [OF v on]
  proof (rule painted_trans)
    fix a' b'
    assume "(a', b') \<in> D \<union> {(a, b)}"
    then show "unat x + a' < scr_w v"
      using painted_on_screen [OF fits D] on(1) by auto
  qed
  moreover have "bpp v \<le> 4" using v by (simp add: wf_video_def)
  ultimately show ?thesis
    using src_index_32 [OF fits a b] by (simp add: draw_img2_cell_def u Let_def) blast
qed

lemma draw_img2_paints:
  fixes x y :: u16
  assumes fits: "img_fits v img (unat x) (unat y)"
  shows "\<exists>m. draw_img2 uninit img x y v = Inr (v\<lparr>video_mem := m\<rparr>)
    \<and> painted v img (unat x) (unat y) (img_cells img) (video_mem v) m"
proof -
  let ?w = "unat (width img)" and ?h = "unat (height img)"
  define P where "P D u \<longleftrightarrow> (\<exists>m. u = v\<lparr>video_mem := m\<rparr> \<and>
    painted v img (unat x) (unat y) D (video_mem v) m)" for D u
  have "\<exists>u. draw_img2 uninit img x y v = Inr u \<and> P ({..<?w} \<times> {..<?h}) u"
    unfolding draw_img2_def
  proof (rule for_n_rule [where P = "\<lambda>i. P ({..<i} \<times> {..<?h})"])
    show "P ({..<0} \<times> {..<?h}) v"
      unfolding P_def by (rule exI [of _ "video_mem v"]) (simp add: painted_empty)
  next
    fix a u
    assume a: "a < ?w" and u: "P ({..<a} \<times> {..<?h}) u"
    have "\<exists>u'. for_n ?h (\<lambda>b. draw_img2_cell uninit img x y a b) u = Inr u'
        \<and> P ({..<a} \<times> {..<?h} \<union> {a} \<times> {..<?h}) u'"
    proof (rule for_n_rule [where P = "\<lambda>b. P ({..<a} \<times> {..<?h} \<union> {a} \<times> {..<b})"])
      show "P ({..<a} \<times> {..<?h} \<union> {a} \<times> {..<0}) u" using u by simp
    next
      fix b t
      assume b: "b < ?h" and "P ({..<a} \<times> {..<?h} \<union> {a} \<times> {..<b}) t"
      moreover have "{..<a} \<times> {..<?h} \<union> {a} \<times> {..<b} \<subseteq> img_cells img"
        using a b by (auto simp: img_cells_def)
      moreover have "insert (a, b) ({..<a} \<times> {..<?h} \<union> {a} \<times> {..<b})
          = {..<a} \<times> {..<?h} \<union> {a} \<times> {..<Suc b}"
        by (auto simp: less_Suc_eq)
      ultimately show "\<exists>t'. draw_img2_cell uninit img x y a b t = Inr t'
          \<and> P ({..<a} \<times> {..<?h} \<union> {a} \<times> {..<Suc b}) t'"
        unfolding P_def using draw_img2_pixel [OF fits a b] by metis
    qed
    moreover have "{..<a} \<times> {..<?h} \<union> {a} \<times> {..<?h} = {..<Suc a} \<times> {..<?h}"
      by (auto simp: less_Suc_eq)
    ultimately show "\<exists>u'. for_n ?h (\<lambda>b. draw_img2_cell uninit img x y a b) u = Inr u'
        \<and> P ({..<Suc a} \<times> {..<?h}) u'"
      by simp
  qed
  then show ?thesis
    unfolding img_cells_def P_def by blast
qed


section \<open>Properties\<close>

text \<open>
  C33. \<open>draw_img\<close>, which copies an image row by row, and \<open>draw_img2\<close>, which copies it pixel by pixel
  through a colour variable with indeterminate upper bytes, leave exactly the same memory, for every
  image that lies on the screen; neither faults there.
\<close>

theorem draw_img_equiv_draw_img2:
  fixes x y :: u16
  assumes "img_fits v img (unat x) (unat y)"
  shows "draw_img img x y v = draw_img2 uninit img x y v \<and> (\<exists>v'. draw_img img x y v = Inr v')"
proof -
  obtain m where m: "draw_img img x y v = Inr (v\<lparr>video_mem := m\<rparr>)"
    "painted v img (unat x) (unat y) (img_cells img) (video_mem v) m"
    using draw_img_paints [OF assms] by blast
  obtain m2 where m2: "draw_img2 uninit img x y v = Inr (v\<lparr>video_mem := m2\<rparr>)"
    "painted v img (unat x) (unat y) (img_cells img) (video_mem v) m2"
    using draw_img2_paints [OF assms] by blast
  have "m = m2"
    using m(2) m2(2) by (rule painted_unique)
  with m(1) m2(1) show ?thesis by simp
qed

text \<open>A small screen of 8 by 6 pixels, to run the drawing code on.\<close>

definition tiny_video :: video_st where
  "tiny_video = \<lparr>video_mem = (\<lambda>_. 0), mapped = 144, h_res = 8, v_res = 6, bytes_per_pixel = 3,
     operatingMode = 0x115, RedMaskSize = 8, GreenMaskSize = 8, BlueMaskSize = 8,
     img_height = 0, img_width = 0,
     bluePlayer = \<lparr>pos_x = 0, pos_y = 0, currentDirection = RIGHT\<rparr>,
     orangePlayer = \<lparr>pos_x = 0, pos_y = 0, currentDirection = LEFT\<rparr>,
     mouse = \<lparr>mouse_x = 0, mouse_y = 0\<rparr>\<rparr>"

definition tiny_img :: xpm_image where
  "tiny_img = \<lparr>img_type = XPM_8_8_8, width = 2, height = 2, img_size = 12,
     bytes = [1, 2, 3, 4, 5, 6, 7, 8, 9, 10, 11, 12]\<rparr>"

lemma tiny_img_fits: "img_fits tiny_video tiny_img (unat (5 :: u16)) (unat (4 :: u16))"
  by (simp add: img_fits_def wf_video_def tiny_video_def tiny_img_def)

theorem draw_img_equiv_draw_img2_witness:
  "img_fits tiny_video tiny_img 5 4
   \<and> draw_img tiny_img 5 4 tiny_video = draw_img2 0xCAFEBABE tiny_img 5 4 tiny_video"
  using tiny_img_fits draw_img_equiv_draw_img2 [OF tiny_img_fits, of "0xCAFEBABE"] by simp

text \<open>
  C32. A rectangle on the screen: the call succeeds, it reports a collision exactly when the colour of
  its top left pixel before the call was neither 0 nor 255, every pixel of the rectangle gets the
  colour (the bytes of it a pixel keeps) and every other pixel, the geometry, the players and the
  cursor position stay as they were.
\<close>

theorem vg_draw_rectangle_paints:
  assumes "wf_video v" and "0 < wd" and "0 < ht"
    and "unat x + unat wd \<le> scr_w v" and "unat y + unat ht \<le> scr_h v"
  shows "\<exists>v'. vg_draw_rectangle x y wd ht c v =
       Inr (if pixel v (unat x) (unat y) \<notin> {0, 255} then 1 else 0, v')
    \<and> wf_video v' \<and> frame_rest v' = frame_rest v
    \<and> (\<forall>x' y'. x' < scr_w v \<and> y' < scr_h v \<longrightarrow> pixel v' x' y' =
         (if x' \<in> {unat x..<unat x + unat wd} \<and> y' \<in> {unat y..<unat y + unat ht}
          then take_bit (8 * bpp v) c else pixel v x' y'))"
proof -
  obtain v' where "vg_draw_rectangle x y wd ht c v =
       Inr (if pixel v (unat x) (unat y) \<noteq> 0 \<and> pixel v (unat x) (unat y) \<noteq> 255 then 1 else 0, v')"
    "wf_video v'" "frame_rest v' = frame_rest v"
    "\<And>x' y'. x' < scr_w v \<Longrightarrow> y' < scr_h v \<Longrightarrow>
       pixel v' x' y' = (if unat x \<le> x' \<and> x' < unat x + unat wd \<and> unat y \<le> y' \<and> y' < unat y + unat ht
                         then take_bit (8 * bpp v) c else pixel v x' y')"
    using vg_draw_rectangle_on_screen [OF assms] by blast
  then show ?thesis by auto
qed

lemma wf_tiny_video: "wf_video tiny_video"
  by (simp add: wf_video_def tiny_video_def)

theorem vg_draw_rectangle_paints_witness:
  "\<exists>v'. vg_draw_rectangle 1 1 5 5 0xFF5F1F tiny_video = Inr (0, v') \<and> pixel v' 3 4 = 0xFF5F1F
     \<and> pixel v' 6 4 = 0"
proof -
  have "pixel tiny_video 1 1 = 0" "pixel tiny_video 6 4 = 0"
    by (simp_all add: pixel_def tiny_video_def)
  moreover have "take_bit 24 (0xFF5F1F :: u32) = 0xFF5F1F"
    by simp
  moreover have "scr_w tiny_video = 8" "scr_h tiny_video = 6" "bpp tiny_video = 3"
    by (simp_all add: tiny_video_def)
  ultimately show ?thesis
    using vg_draw_rectangle_paints [OF wf_tiny_video, of 5 5 1 1 "0xFF5F1F"] by auto
qed

lemma vram_bits:
  fixes b :: u8 and x y :: u16
  assumes b: "unat b \<in> {8, 16, 24, 32}" and size: "unat x * unat y * unat b < 2 ^ 31"
  shows "unat ((ucast b * ucast x * ucast y) div 8 :: u32) * 8 = unat x * unat y * unat b"
proof -
  have bx: "unat b * unat x < 2 ^ 32"
    using b unat_less [of x] by auto
  have "unat (ucast b * ucast x * ucast y :: u32) = unat x * unat y * unat b"
  proof -
    have "unat (ucast b * ucast x :: u32) = unat b * unat x"
      using bx by (subst unat_mult_no_wrap) (simp_all add: unat_ucast_up)
    moreover have e: "unat b * unat x * unat y = unat x * unat y * unat b"
      by (simp add: mult.commute mult.left_commute)
    have "unat b * unat x * unat y < 2 ^ 32"
      unfolding e using size by (rule less_le_trans) simp
    ultimately have "unat (ucast b * ucast x * ucast y :: u32) = unat b * unat x * unat y"
      by (subst unat_mult_no_wrap) (simp_all add: unat_ucast_up)
    with e show ?thesis by simp
  qed
  moreover have "8 dvd unat x * unat y * unat b"
    using b by auto
  ultimately show ?thesis
    by (simp add: unat_div)
qed

definition prog_demo :: "video_st \<Rightarrow> unit prog_st" where
  "prog_demo v = \<lparr>world = (), countSysInb = 0, timer_hook_id = 0, totalInterrupts = 0,
     scanCode = 0, hook_idKEYBOARD = 1, byteFromMouse = 0, hook_idMOUSE = 12,
     nextMove = \<lparr>dir = UNCHANGED, playerColor = BLUE\<rparr>, screenState = MAIN,
     rtc_hook_id = 3, time_counter = 0, vid = v\<rparr>"

text \<open>
  C34. Graphics initialisation. When the mode has whole bytes per pixel and a frame of less than
  2 Gibit, and the memory grant and the mapping succeed with at least the requested size accessible,
  then \<open>new_vg_init\<close> returns with a well-formed screen of the mode's resolution; the last call is the
  BIOS call that sets the mode with a linear frame buffer (bit 14), and the return value is 0 exactly
  when that call succeeds.
\<close>

theorem new_vg_init_establishes_screen:
  assumes info: "vbe_get_mode_info S mode (world s) = (r, info, w1)"
    and bits: "unat (BitsPerPixel info) \<in> {8, 16, 24, 32}"
    and size: "unat (XResolution info) * unat (YResolution info) * unat (BitsPerPixel info) < 2 ^ 31"
    and grant: "\<And>a b w. fst (sys_privctl_add_mem S a b w) = OK"
    and map: "\<And>a n w. \<exists>bs k w'. vm_map_phys S a n w = (Some (bs, k), w') \<and> unat n \<le> k"
  shows "\<exists>r' s' w2. new_vg_init S mode s = Inr (r', s') \<and> wf_video (vid s')
    \<and> h_res (vid s') = ucast (XResolution info) \<and> v_res (vid s') = ucast (YResolution info)
    \<and> bpp (vid s') * 8 = unat (BitsPerPixel info)
    \<and> r' = (if fst (sys_int86 S \<lparr>intno = 0x10, ah = 0x4F, al = 0x02, bx = mode OR 0x4000\<rparr> w2) = OK
            then 0 else 1)
    \<and> world s' = snd (sys_int86 S \<lparr>intno = 0x10, ah = 0x4F, al = 0x02, bx = mode OR 0x4000\<rparr> w2)"
proof -
  let ?X = "unat (XResolution info)" and ?Y = "unat (YResolution info)"
  let ?B = "unat (BitsPerPixel info)"
  let ?sz = "(ucast (BitsPerPixel info) * ucast (XResolution info)
                        * ucast (YResolution info)) div 8 :: u32"
  have b8: "unat ((ucast (BitsPerPixel info) + 7) div 8 :: u32) * 8 = ?B"
    and b4: "0 < ?B" "?B \<le> 32"
    using bits by (auto simp: unat_div unat_add_no_wrap unat_ucast_up)
  have sz: "unat ?sz * 8 = ?X * ?Y * ?B"
    using vram_bits [OF bits size] .
  then have "unat ?sz = ?X * ?Y * unat ((ucast (BitsPerPixel info) + 7) div 8 :: u32)"
    unfolding b8 [symmetric] by simp
  moreover have "unat ?sz < 2 ^ 32"
    using unat_less [of ?sz] by simp
  ultimately have fr: "?X * ?Y * unat ((ucast (BitsPerPixel info) + 7) div 8 :: u32) < 2 ^ 32"
    "?X * ?Y * unat ((ucast (BitsPerPixel info) + 7) div 8 :: u32) = unat ?sz"
    by simp_all
  obtain w2 where g: "sys_privctl_add_mem S (PhysBasePtr info) (PhysBasePtr info + ?sz) w1 = (OK, w2)"
    using grant by (metis prod.collapse)
  obtain bs k w3 where m: "vm_map_phys S (PhysBasePtr info) ?sz w2 = (Some (bs, k), w3)" "unat ?sz \<le> k"
    using map by blast
  have X: "?X \<le> 2 ^ 16" "?Y \<le> 2 ^ 16"
    using unat_less [of "XResolution info"] unat_less [of "YResolution info"] by simp_all
  have "BIT 14 = (0x4000 :: u16)"
    by (simp add: BIT_def push_bit_eq_mult)
  with g m info show ?thesis
    unfolding new_vg_init_def set_mode_def
    using b8 b4 fr X
    by (auto simp: Let_def split_beta wf_video_def unat_ucast_up)
qed

theorem new_vg_init_establishes_screen_witness:
  "\<exists>r' s' w2. new_vg_init idle_sys 0x115 (prog_demo tiny_video) = Inr (r', s') \<and> wf_video (vid s')
     \<and> h_res (vid s') = 800 \<and> v_res (vid s') = 600"
proof -
  let ?info = "\<lparr>BytesPerScanLine = 2400, XResolution = 800,
       YResolution = 600, BitsPerPixel = 24, info_RedMaskSize = 8, info_GreenMaskSize = 8,
       info_BlueMaskSize = 8, PhysBasePtr = 0xE0000000\<rparr>"
  have i: "vbe_get_mode_info idle_sys 0x115 (world (prog_demo tiny_video)) =
      (0, ?info, world (prog_demo tiny_video))"
    by (simp add: idle_sys_def)
  show ?thesis
    using new_vg_init_establishes_screen [OF i] by (auto simp: idle_sys_def OK_def)
qed

lemma unat_clamp_axis:
  assumes "60 \<le> unat res" and "unat res \<le> 2 ^ 16"
  shows "unat (clamp_axis p res) = max 30 (min (unat p) (unat res - 30))"
proof -
  have r: "unat (res - 30) = unat res - 30"
    using assms(1) by (subst unat_sub) (simp_all add: word_le_nat_alt)
  have "unat (ucast (res - 30) :: u16) = unat res - 30"
    using assms r by (simp add: unsigned_ucast_eq take_bit_nat_eq_self)
  then show ?thesis
    using assms r by (auto simp: clamp_axis_def Let_def word_le_nat_alt unat_ucast_up max_def min_def)
qed

text \<open>A cursor image that fits into the margin the clamps leave.\<close>

definition cursor_ok :: "video_st \<Rightarrow> xpm_image \<Rightarrow> bool" where
  "cursor_ok v cur \<longleftrightarrow> unat (width cur) \<le> 30 \<and> unat (height cur) \<le> 30
     \<and> unat (width cur) * unat (height cur) * bpp v \<le> length (bytes cur)"

lemma mouseMovement_result:
  assumes v: "wf_video v" and "60 \<le> scr_w v" and "60 \<le> scr_h v" and cur: "cursor_ok v cur"
  obtains v' where "mouseMovement x y cur v = Inr v'" "wf_video v'"
    "unat (mouse_x (mouse v')) = max 30 (min (unat (mouse_x (mouse v) + x)) (scr_w v - 30))"
    "unat (mouse_y (mouse v')) = max 30 (min (unat (mouse_y (mouse v) - y)) (scr_h v - 30))"
    "frame_rest v' = frame_rest (v\<lparr>mouse := mouse v'\<rparr>)"
proof -
  let ?mx = "clamp_axis (mouse_x (mouse v) + x) (h_res v)"
  let ?my = "clamp_axis (mouse_y (mouse v) - y) (v_res v)"
  let ?v = "v\<lparr>mouse := \<lparr>mouse_x = ?mx, mouse_y = ?my\<rparr>\<rparr>"
  have x: "unat ?mx = max 30 (min (unat (mouse_x (mouse v) + x)) (scr_w v - 30))"
    and y: "unat ?my = max 30 (min (unat (mouse_y (mouse v) - y)) (scr_h v - 30))"
    using assms by (simp_all add: unat_clamp_axis wf_video_def)
  have "unat ?mx + 30 \<le> scr_w v" "unat ?my + 30 \<le> scr_h v"
    unfolding x y using assms(2,3) by simp_all
  then have "img_fits ?v cur (unat ?mx) (unat ?my)"
    using v cur by (simp add: img_fits_def cursor_ok_def wf_video_def)
  then obtain m where "draw_img cur ?mx ?my ?v = Inr (?v\<lparr>video_mem := m\<rparr>)"
    using draw_img_paints by blast
  then show ?thesis
    using v x y by (intro that [of "?v\<lparr>video_mem := m\<rparr>"]) (simp_all add: mouseMovement_def Let_def wf_video_def)
qed

text \<open>
  C35. Whatever the previous position and the displacements, the cursor ends at least 30 pixels from
  the left and top edge and at most at the resolution minus 30, at the 16-bit sum (difference) clamped
  to that range, and drawing it there does not fault; nothing but its position and the frame's bytes
  changes.
\<close>

theorem mouseMovement_in_bounds:
  assumes "wf_video v" and "60 \<le> scr_w v" and "60 \<le> scr_h v" and "cursor_ok v cur"
  shows "\<exists>v'. mouseMovement x y cur v = Inr v' \<and> wf_video v'
    \<and> unat (mouse_x (mouse v')) = max 30 (min (unat (mouse_x (mouse v) + x)) (scr_w v - 30))
    \<and> unat (mouse_y (mouse v')) = max 30 (min (unat (mouse_y (mouse v) - y)) (scr_h v - 30))
    \<and> frame_rest v' = frame_rest (v\<lparr>mouse := mouse v'\<rparr>)"
  using mouseMovement_result [OF assms, of x y] by blast

definition tiny_screen :: video_st where
  "tiny_screen = tiny_video\<lparr>mapped := 20000, h_res := 80, v_res := 80,
     mouse := \<lparr>mouse_x = 40, mouse_y = 40\<rparr>\<rparr>"

lemma tiny_screen_ok:
  "wf_video tiny_screen" "60 \<le> scr_w tiny_screen" "60 \<le> scr_h tiny_screen"
  "cursor_ok tiny_screen tiny_img"
  by (simp_all add: tiny_screen_def tiny_video_def tiny_img_def wf_video_def cursor_ok_def)

theorem mouseMovement_in_bounds_witness:
  "\<exists>v'. mouseMovement 3 0 tiny_img tiny_screen = Inr v' \<and> unat (mouse_x (mouse v')) = 43
     \<and> unat (mouse_y (mouse v')) = 40"
  using mouseMovement_in_bounds [OF tiny_screen_ok, of 3 0] by (auto simp: tiny_screen_def tiny_video_def)

text \<open>
  The position wraps around at zero before it is clamped: a packet that moves the cursor further
  left than its distance from the left edge puts it at the right end of its range, and one that moves
  it up beyond the top puts it at the bottom.
\<close>

lemma mouseMovement_wraps_to_far_edge:
  assumes v: "wf_video v" and "60 \<le> scr_w v" "scr_w v \<le> 32768" and "60 \<le> scr_h v" "scr_h v \<le> 32768"
    and cur: "cursor_ok v cur"
    and d: "unat (mouse_x (mouse v)) < dx" "dx \<le> 256" and e: "unat (mouse_y (mouse v)) < dy" "dy \<le> 256"
  shows "\<exists>v'. mouseMovement (- of_nat dx) (of_nat dy) cur v = Inr v'
    \<and> unat (mouse_x (mouse v')) = scr_w v - 30 \<and> unat (mouse_y (mouse v')) = scr_h v - 30"
proof -
  have wrap: "32768 \<le> unat (p - of_nat k)" if "unat p < k" "k \<le> 256" for p :: u16 and k
  proof -
    have "unat (of_nat k :: u16) = k"
      using that by (intro unat_of_nat_small) simp
    then have "unat (p - of_nat k) = 2 ^ 16 + unat p - k"
      using that by (subst unat_sub_if') (simp add: word_size)
    then show ?thesis using that by simp
  qed
  obtain v' where "mouseMovement (- of_nat dx) (of_nat dy) cur v = Inr v'"
    "unat (mouse_x (mouse v')) = max 30 (min (unat (mouse_x (mouse v) + - of_nat dx)) (scr_w v - 30))"
    "unat (mouse_y (mouse v')) = max 30 (min (unat (mouse_y (mouse v) - of_nat dy)) (scr_h v - 30))"
    using mouseMovement_result [OF v assms(2,4) cur, of "- of_nat dx" "of_nat dy"] .
  then show ?thesis
    using wrap [OF d] wrap [OF e] assms(2-5) by auto
qed

lemma mouseMovement_wraps_to_far_edge_witness:
  "unat (mouse_x (mouse tiny_screen)) < 41
   \<and> (\<exists>v'. mouseMovement (- of_nat 41) (of_nat 41) tiny_img tiny_screen = Inr v'
        \<and> unat (mouse_x (mouse v')) = 50 \<and> unat (mouse_y (mouse v')) = 50)"
proof -
  have "unat (mouse_x (mouse tiny_screen)) = 40" "unat (mouse_y (mouse tiny_screen)) = 40"
    "scr_w tiny_screen = 80" "scr_h tiny_screen = 80"
    by (simp_all add: tiny_screen_def tiny_video_def)
  then show ?thesis
    using mouseMovement_wraps_to_far_edge [OF tiny_screen_ok(1,2) _ tiny_screen_ok(3) _ tiny_screen_ok(4),
        of 41 41] by simp
qed

end
