(* ===== verification/Game.thy ===== *)
theory Game
  imports Video
begin

text \<open>
  The rules of the game, the part of \<open>proj/src/video_gr.c\<close> after the comment \<open>PROJECT\<close>: the players'
  positions, their moves and the start of a game. The frame buffer is the only record of the trails:
  a player collides when the pixel at the top left of the square it moves to is neither black nor
  255. The abstract game is played on a grid of cells of 5 by 5 pixels; the code refines it on every
  move that stays on the grid, and the last group of theorems says what happens at the edges.
\<close>


section \<open>Operations\<close>

definition MOVEMENT_STEP :: u16 where
  [c_consts]: "MOVEMENT_STEP = 5"

definition SIZE_FRONT_END :: u16 where
  [c_consts]: "SIZE_FRONT_END = 5"

definition COLOR_BLUE :: u32 where
  [c_consts]: "COLOR_BLUE = 0x1F51FF"

definition COLOR_ORANGE :: u32 where
  [c_consts]: "COLOR_ORANGE = 0xFF5F1F"

definition opposite :: "int \<Rightarrow> int" where
  "opposite d =
     (if d = dir_code LEFT then dir_code RIGHT
      else if d = dir_code UP then dir_code DOWN
      else if d = dir_code DOWN then dir_code UP
      else if d = dir_code RIGHT then dir_code LEFT
      else 1)"

text \<open>
  Every branch of the switch draws the front end of the player at the new position; then
  \<open>bluePlayer\<close> or \<open>orangePlayer\<close> takes the new value and the flag of the drawing is returned.
\<close>

definition draw_front_end ::
    "player \<Rightarrow> u32 \<Rightarrow> PlayerPosition \<Rightarrow> video_st \<Rightarrow> fault + (int \<times> video_st)" where
  "draw_front_end p color tmp v =
     bind_res (vg_draw_rectangle (pos_x tmp) (pos_y tmp) SIZE_FRONT_END SIZE_FRONT_END color v)
       (\<lambda>(flag, v). Inr (uint flag, if p = BLUE then v\<lparr>bluePlayer := tmp\<rparr>
                                    else v\<lparr>orangePlayer := tmp\<rparr>))"

definition move_player :: "MovementInfo \<Rightarrow> bool \<Rightarrow> video_st \<Rightarrow> fault + (int \<times> video_st)" where
  "move_player movementInfo isPassiveMovement v =
     (let p = playerColor movementInfo;
          tmp = (if p = BLUE then bluePlayer v else orangePlayer v);
          color = (if p = BLUE then COLOR_BLUE else COLOR_ORANGE)
      in if \<not> isPassiveMovement \<and> dir movementInfo = currentDirection tmp then Inr (0, v)
         else if dir_code (dir movementInfo) = opposite (dir_code (currentDirection tmp)) then Inr (0, v)
         else
           let tmp = tmp\<lparr>currentDirection := dir movementInfo\<rparr>
           in case dir movementInfo of
                UP \<Rightarrow> draw_front_end p color (tmp\<lparr>pos_y := pos_y tmp - MOVEMENT_STEP\<rparr>) v
              | DOWN \<Rightarrow> draw_front_end p color (tmp\<lparr>pos_y := pos_y tmp + MOVEMENT_STEP\<rparr>) v
              | LEFT \<Rightarrow> draw_front_end p color (tmp\<lparr>pos_x := pos_x tmp - MOVEMENT_STEP\<rparr>) v
              | RIGHT \<Rightarrow> draw_front_end p color (tmp\<lparr>pos_x := pos_x tmp + MOVEMENT_STEP\<rparr>) v
              | UNCHANGED \<Rightarrow> Inr (1, v))"

definition passive_move_players :: "video_st \<Rightarrow> fault + (int \<times> video_st)" where
  "passive_move_players v =
     (let passive_movement_blue = \<lparr>dir = currentDirection (bluePlayer v), playerColor = BLUE\<rparr>;
          passive_movement_orange = \<lparr>dir = currentDirection (orangePlayer v), playerColor = ORANGE\<rparr>
      in bind_res (move_player passive_movement_blue True v) (\<lambda>(r, v).
           if r \<noteq> 0 then Inr (1, v)
           else bind_res (move_player passive_movement_orange True v) (\<lambda>(r, v).
                  if r \<noteq> 0 then Inr (2, v) else Inr (0, v))))"

definition start_game :: "u8 \<Rightarrow> video_st \<Rightarrow> fault + video_st" where
  "start_game hour v =
     bind_res
       (if hour \<ge> 0x19
        then let n = unat (h_res v * v_res v * bytes_per_pixel v)
             in if accessible v 0 n then Inr (v\<lparr>video_mem := fill_mem 255 n (video_mem v)\<rparr>)
                else Inl Bad_access
        else Inr v)
       (\<lambda>v. Inr (v\<lparr>
          bluePlayer := \<lparr>pos_x = ucast (h_res v div 2 - 100), pos_y = ucast (v_res v div 2),
                         currentDirection = RIGHT\<rparr>,
          orangePlayer := \<lparr>pos_x = ucast (h_res v div 2 + 100), pos_y = ucast (v_res v div 2),
                           currentDirection = LEFT\<rparr>\<rparr>))"

abbreviation the_player :: "player \<Rightarrow> video_st \<Rightarrow> PlayerPosition" where
  "the_player p v \<equiv> (if p = BLUE then bluePlayer v else orangePlayer v)"


section \<open>The abstract game\<close>

text \<open>
  A grid of cells, the set of cells that are taken, and the cell and direction of each player. A
  command is ignored when it repeats the direction (unless the clock issues it) or reverses it; a
  move off the grid is not part of the game (\<open>None\<close>).
\<close>

record tron =
  grid_w :: nat
  grid_h :: nat
  trail :: "(nat \<times> nat) set"
  cycle :: "player \<Rightarrow> (nat \<times> nat) \<times> direction"

fun turned_back :: "direction \<Rightarrow> direction" where
  "turned_back UP = DOWN"
| "turned_back DOWN = UP"
| "turned_back LEFT = RIGHT"
| "turned_back RIGHT = LEFT"
| "turned_back UNCHANGED = UNCHANGED"

fun ahead :: "tron \<Rightarrow> direction \<Rightarrow> nat \<times> nat \<Rightarrow> (nat \<times> nat) option" where
  "ahead t UP (i, j) = (if 0 < j then Some (i, j - 1) else None)"
| "ahead t DOWN (i, j) = (if j + 1 < grid_h t then Some (i, j + 1) else None)"
| "ahead t LEFT (i, j) = (if 0 < i then Some (i - 1, j) else None)"
| "ahead t RIGHT (i, j) = (if i + 1 < grid_w t then Some (i + 1, j) else None)"
| "ahead t UNCHANGED c = None"

definition tron_command :: "player \<Rightarrow> direction \<Rightarrow> bool \<Rightarrow> tron \<Rightarrow> (bool \<times> tron) option" where
  "tron_command p d passive t =
     (let (c, cur) = cycle t p
      in if \<not> passive \<and> d = cur \<or> d = turned_back cur then Some (False, t)
         else map_option (\<lambda>c'. (c' \<in> trail t,
                t\<lparr>trail := insert c' (trail t), cycle := (cycle t)(p := (c', d))\<rparr>))
              (ahead t d c))"

text \<open>One tick of the clock: blue moves, then, unless blue has crashed, orange.\<close>

definition tron_tick :: "tron \<Rightarrow> (int \<times> tron) option" where
  "tron_tick t =
     (case tron_command BLUE (snd (cycle t BLUE)) True t of
        None \<Rightarrow> None
      | Some (True, t') \<Rightarrow> Some (1, t')
      | Some (False, t') \<Rightarrow>
          (case tron_command ORANGE (snd (cycle t ORANGE)) True t' of
             None \<Rightarrow> None
           | Some (True, t'') \<Rightarrow> Some (2, t'')
           | Some (False, t'') \<Rightarrow> Some (0, t'')))"


section \<open>Abstraction\<close>

definition cell_of :: "PlayerPosition \<Rightarrow> nat \<times> nat" where
  "cell_of q = (unat (pos_x q) div 5, unat (pos_y q) div 5)"

definition free_colour :: "u32 \<Rightarrow> bool" where
  "free_colour c \<longleftrightarrow> c = 0 \<or> c = 255"

definition tron_of :: "video_st \<Rightarrow> tron" where
  "tron_of v = \<lparr>grid_w = scr_w v div 5, grid_h = scr_h v div 5,
     trail = {(i, j). i < scr_w v div 5 \<and> j < scr_h v div 5 \<and> \<not> free_colour (pixel v (5 * i) (5 * j))},
     cycle = (\<lambda>p. (cell_of (the_player p v), currentDirection (the_player p v)))\<rparr>"

text \<open>A player on the grid, facing one of the four directions; a screen with at least 16 bits per pixel.\<close>

definition on_grid :: "video_st \<Rightarrow> PlayerPosition \<Rightarrow> bool" where
  "on_grid v q \<longleftrightarrow> 5 dvd unat (pos_x q) \<and> 5 dvd unat (pos_y q)
     \<and> unat (pos_x q) + 5 \<le> scr_w v \<and> unat (pos_y q) + 5 \<le> scr_h v
     \<and> currentDirection q \<noteq> UNCHANGED"

definition tron_ok :: "video_st \<Rightarrow> bool" where
  "tron_ok v \<longleftrightarrow> wf_video v \<and> 2 \<le> bpp v \<and> on_grid v (bluePlayer v) \<and> on_grid v (orangePlayer v)"

lemma tron_of_simps [simp]:
  "grid_w (tron_of v) = scr_w v div 5"
  "grid_h (tron_of v) = scr_h v div 5"
  "cycle (tron_of v) p = (cell_of (the_player p v), currentDirection (the_player p v))"
  "(i, j) \<in> trail (tron_of v) \<longleftrightarrow>
     i < scr_w v div 5 \<and> j < scr_h v div 5 \<and> \<not> free_colour (pixel v (5 * i) (5 * j))"
  by (simp_all add: tron_of_def)

lemma opposite_turned_back:
  "d \<noteq> UNCHANGED \<Longrightarrow> dir_code e = opposite (dir_code d) \<longleftrightarrow> e = turned_back d"
  by (cases d; cases e) (simp_all add: opposite_def)

lemma player_colour_taken:
  fixes v :: video_st
  assumes "2 \<le> bpp v" and "c = COLOR_BLUE \<or> c = COLOR_ORANGE"
  shows "\<not> free_colour (take_bit (8 * bpp v) c)"
proof -
  have "bit (take_bit (8 * bpp v) c) 12"
    using assms by (auto simp: bit_take_bit_iff c_consts bit_numeral_word_iff)
  moreover have "\<not> bit (0 :: u32) 12" "\<not> bit (255 :: u32) 12"
    by simp_all
  ultimately show ?thesis
    unfolding free_colour_def by metis
qed


section \<open>Refinement of a move\<close>

lemma multiple_in_cell: "5 dvd a \<Longrightarrow> a \<le> 5 * i \<and> 5 * i < a + 5 \<longleftrightarrow> i = a div 5" for a i :: nat
  by (auto elim!: dvdE)

lemma draw_front_end_on_grid:
  assumes v: "tron_ok v" and q: "on_grid v q" and c: "c = COLOR_BLUE \<or> c = COLOR_ORANGE"
  obtains v' where
    "draw_front_end p c q v = Inr (if cell_of q \<in> trail (tron_of v) then 1 else 0, v')"
    "tron_ok v'"
    "tron_of v' = (tron_of v)\<lparr>trail := insert (cell_of q) (trail (tron_of v)),
       cycle := (cycle (tron_of v))(p := (cell_of q, currentDirection q))\<rparr>"
proof -
  let ?x = "unat (pos_x q)" and ?y = "unat (pos_y q)"
  have wf: "wf_video v" and two: "2 \<le> bpp v" using v by (simp_all add: tron_ok_def)
  have xy: "5 dvd ?x" "5 dvd ?y" "?x + 5 \<le> scr_w v" "?y + 5 \<le> scr_h v"
    using q by (simp_all add: on_grid_def)
  obtain u where u: "vg_draw_rectangle (pos_x q) (pos_y q) 5 5 c v =
      Inr (if pixel v ?x ?y \<noteq> 0 \<and> pixel v ?x ?y \<noteq> 255 then 1 else 0, u)"
      "wf_video u" "frame_rest u = frame_rest v"
    and px: "\<And>x' y'. x' < scr_w v \<Longrightarrow> y' < scr_h v \<Longrightarrow> pixel u x' y' =
      (if ?x \<le> x' \<and> x' < ?x + 5 \<and> ?y \<le> y' \<and> y' < ?y + 5 then take_bit (8 * bpp v) c else pixel v x' y')"
    using vg_draw_rectangle_on_screen [OF wf, of 5 5 "pos_x q" "pos_y q" c] xy by auto
  note same = frame_rest_eqD [OF u(3)]
  define v' where "v' = (if p = BLUE then u\<lparr>bluePlayer := q\<rparr> else u\<lparr>orangePlayer := q\<rparr>)"
  have v': "h_res v' = h_res v" "v_res v' = v_res v" "bytes_per_pixel v' = bytes_per_pixel v"
    "mapped v' = mapped v" "pixel v' = pixel u" "\<And>p'. the_player p' v' = (if p' = p then q else the_player p' v)"
    using same by (auto simp: v'_def pixel_def fun_eq_iff intro: player.exhaust)
  have taken: "cell_of q \<in> trail (tron_of v) \<longleftrightarrow> \<not> free_colour (pixel v ?x ?y)"
    using xy by (auto simp: cell_of_def elim!: dvdE)
  have cells: "pixel u (5 * i) (5 * j) =
      (if (i, j) = cell_of q then take_bit (8 * bpp v) c else pixel v (5 * i) (5 * j))"
    if "i < scr_w v div 5" "j < scr_h v div 5" for i j
    using px [of "5 * i" "5 * j"] that multiple_in_cell [OF xy(1), of i] multiple_in_cell [OF xy(2), of j]
    by (auto simp: cell_of_def)
  have "fst (cell_of q) < scr_w v div 5" "snd (cell_of q) < scr_h v div 5"
    using xy by (auto simp: cell_of_def elim!: dvdE)
  then have "(i, j) \<in> trail (tron_of v') \<longleftrightarrow> (i, j) \<in> insert (cell_of q) (trail (tron_of v))" for i j
    using cells [of i j] player_colour_taken [OF two c]
    by (cases "cell_of q"; cases "i < scr_w v div 5 \<and> j < scr_h v div 5") (auto simp: v')
  then have "trail (tron_of v') = insert (cell_of q) (trail (tron_of v))"
    by (metis subsetI subset_antisym surj_pair)
  moreover have "cycle (tron_of v') = (cycle (tron_of v))(p := (cell_of q, currentDirection q))"
    by (auto simp: fun_eq_iff v' simp del: if_split_asm)
  ultimately have "tron_of v' = (tron_of v)\<lparr>trail := insert (cell_of q) (trail (tron_of v)),
       cycle := (cycle (tron_of v))(p := (cell_of q, currentDirection q))\<rparr>"
    by (simp add: tron.equality v')
  moreover have "tron_ok v'"
    using v q u(2) same v'(6) [of BLUE] v'(6) [of ORANGE]
    by (auto simp: tron_ok_def on_grid_def wf_video_def v' split: if_splits)
  moreover have "draw_front_end p c q v = Inr (if cell_of q \<in> trail (tron_of v) then 1 else 0, v')"
    using u(1) by (simp add: draw_front_end_def c_consts taken free_colour_def v'_def)
  ultimately show ?thesis using that by blast
qed

text \<open>The position one step ahead, in the arithmetic of the code.\<close>

definition stepped :: "direction \<Rightarrow> PlayerPosition \<Rightarrow> PlayerPosition" where
  "stepped d q = (case d of
       UP \<Rightarrow> q\<lparr>currentDirection := UP, pos_y := pos_y q - 5\<rparr>
     | DOWN \<Rightarrow> q\<lparr>currentDirection := DOWN, pos_y := pos_y q + 5\<rparr>
     | LEFT \<Rightarrow> q\<lparr>currentDirection := LEFT, pos_x := pos_x q - 5\<rparr>
     | RIGHT \<Rightarrow> q\<lparr>currentDirection := RIGHT, pos_x := pos_x q + 5\<rparr>
     | UNCHANGED \<Rightarrow> q)"

abbreviation colour_of :: "player \<Rightarrow> u32" where
  "colour_of p \<equiv> (if p = BLUE then COLOR_BLUE else COLOR_ORANGE)"

lemma move_player_eq:
  "move_player m passive v =
     (let q = the_player (playerColor m) v
      in if \<not> passive \<and> dir m = currentDirection q
            \<or> dir_code (dir m) = opposite (dir_code (currentDirection q)) then Inr (0, v)
         else if dir m = UNCHANGED then Inr (1, v)
         else draw_front_end (playerColor m) (colour_of (playerColor m)) (stepped (dir m) q) v)"
  by (cases "dir m") (simp_all add: move_player_def Let_def stepped_def c_consts)

lemma stepped_ahead:
  assumes wf: "wf_video v" and q: "on_grid v q" and a: "ahead (tron_of v) d (cell_of q) = Some c"
  shows "on_grid v (stepped d q) \<and> cell_of (stepped d q) = c \<and> currentDirection (stepped d q) = d"
proof -
  obtain i j where ij: "unat (pos_x q) = 5 * i" "unat (pos_y q) = 5 * j"
    using q by (auto simp: on_grid_def elim!: dvdE)
  have le: "5 * i + 5 \<le> scr_w v" "5 * j + 5 \<le> scr_h v" "scr_w v \<le> 65536" "scr_h v \<le> 65536"
    using q ij wf by (simp_all add: on_grid_def wf_video_def)
  have plus: "unat (p + 5) = unat p + 5" if "unat p + 10 \<le> 65536" for p :: u16
    using that by (subst unat_add_no_wrap) simp_all
  have minus: "unat (p - 5) = unat p - 5" if "5 \<le> unat p" for p :: u16
    using that by (subst unat_sub) (simp_all add: word_le_nat_alt)
  show ?thesis
    using a ij le by (cases d) (auto simp: cell_of_def stepped_def on_grid_def plus minus
        dvd_diff_nat split: if_splits)
qed

lemma move_player_tron:
  assumes v: "tron_ok v" and d: "dir m \<noteq> UNCHANGED"
    and t: "tron_command (playerColor m) (dir m) passive (tron_of v) = Some (crash, t')"
  obtains v' where "move_player m passive v = Inr (if crash then 1 else 0, v')" "tron_ok v'" "tron_of v' = t'"
proof -
  let ?p = "playerColor m" let ?q = "the_player ?p v"
  have q: "on_grid v ?q" using v by (simp add: tron_ok_def)
  then have cur: "currentDirection ?q \<noteq> UNCHANGED" by (simp add: on_grid_def)
  show ?thesis
  proof (cases "\<not> passive \<and> dir m = currentDirection ?q \<or> dir m = turned_back (currentDirection ?q)")
    case True
    then have "\<not> crash" "t' = tron_of v" using t by (auto simp: tron_command_def)
    then show ?thesis
      using that [of v] v True cur
      by (auto simp: move_player_eq Let_def opposite_turned_back)
  next
    case False
    then obtain c where a: "ahead (tron_of v) (dir m) (cell_of ?q) = Some c"
      and t': "crash = (c \<in> trail (tron_of v))"
        "t' = (tron_of v)\<lparr>trail := insert c (trail (tron_of v)), cycle := (cycle (tron_of v))(?p := (c, dir m))\<rparr>"
      using t by (auto simp: tron_command_def)
    have wf: "wf_video v" using v by (simp add: tron_ok_def)
    note s = stepped_ahead [OF wf q a]
    have "colour_of ?p = COLOR_BLUE \<or> colour_of ?p = COLOR_ORANGE" by simp
    then obtain v' where "draw_front_end ?p (colour_of ?p) (stepped (dir m) ?q) v =
        Inr (if c \<in> trail (tron_of v) then 1 else 0, v')" "tron_ok v'" "tron_of v' = t'"
      using draw_front_end_on_grid [OF v, of "stepped (dir m) ?q" "colour_of ?p" ?p] s t'(2) by metis
    moreover have "move_player m passive v = draw_front_end ?p (colour_of ?p) (stepped (dir m) ?q) v"
      using False d cur by (auto simp: move_player_eq Let_def opposite_turned_back)
    ultimately show ?thesis using that t'(1) by simp
  qed
qed


section \<open>Ticks and the start of a game\<close>

lemma passive_tron_command:
  assumes "tron_ok v"
  shows "snd (cycle (tron_of v) p) \<noteq> UNCHANGED"
  using assms by (simp add: tron_ok_def on_grid_def)

lemma passive_move_players_tron:
  assumes v: "tron_ok v" and t: "tron_tick (tron_of v) = Some (r, t')"
  obtains v' where "passive_move_players v = Inr (r, v')" "tron_ok v'" "tron_of v' = t'"
proof -
  let ?b = "\<lparr>dir = currentDirection (bluePlayer v), playerColor = BLUE\<rparr>"
  let ?o = "\<lparr>dir = currentDirection (orangePlayer v), playerColor = ORANGE\<rparr>"
  have b: "dir ?b \<noteq> UNCHANGED" "dir ?o \<noteq> UNCHANGED"
    using passive_tron_command [OF v, of BLUE] passive_tron_command [OF v, of ORANGE] by simp_all
  obtain crash t1 where t1: "tron_command BLUE (dir ?b) True (tron_of v) = Some (crash, t1)"
    using t by (auto simp: tron_tick_def split: option.splits)
  then obtain v1 where v1: "move_player ?b True v = Inr (if crash then 1 else 0, v1)" "tron_ok v1" "tron_of v1 = t1"
    using move_player_tron [OF v b(1), of True crash t1] by auto
  show ?thesis
  proof (cases crash)
    case True
    then show ?thesis
      using that [of v1] t t1 v1 by (simp add: tron_tick_def passive_move_players_def)
  next
    case False
    then obtain crash2 t2 where t2: "tron_command ORANGE (dir ?o) True (tron_of v1) = Some (crash2, t2)"
      and r: "r = (if crash2 then 2 else 0)" "t' = t2"
      using t t1 v1(3) by (auto simp: tron_tick_def split: option.splits bool.splits)
    then obtain v2 where "move_player ?o True v1 = Inr (if crash2 then 1 else 0, v2)" "tron_ok v2" "tron_of v2 = t2"
      using move_player_tron [OF v1(2) b(2), of True crash2 t2] by auto
    then show ?thesis
      using that [of v2] v1(1) False r by (simp add: passive_move_players_def)
  qed
qed

lemma start_game_day:
  assumes "hour < 0x19"
  shows "start_game hour v = Inr (v\<lparr>
          bluePlayer := \<lparr>pos_x = ucast (h_res v div 2 - 100), pos_y = ucast (v_res v div 2),
                         currentDirection = RIGHT\<rparr>,
          orangePlayer := \<lparr>pos_x = ucast (h_res v div 2 + 100), pos_y = ucast (v_res v div 2),
                           currentDirection = LEFT\<rparr>\<rparr>)"
  using assms by (simp add: start_game_def not_le [symmetric])

text \<open>The picture all black, and the screen of mode 0x115.\<close>

definition black :: "video_st \<Rightarrow> bool" where
  "black v \<longleftrightarrow> (\<forall>x < scr_w v. \<forall>y < scr_h v. pixel v x y = 0)"

definition mode_115 :: "video_st \<Rightarrow> bool" where
  "mode_115 v \<longleftrightarrow> wf_video v \<and> h_res v = 800 \<and> v_res v = 600 \<and> bytes_per_pixel v = 3"

lemma start_positions:
  "(ucast (400 - 100 :: u32) :: u16) = 300" "(ucast (400 + 100 :: u32) :: u16) = 500"
  "(ucast (300 :: u32) :: u16) = 300" "(800 :: u32) div 2 = 400" "(600 :: u32) div 2 = 300"
  by simp_all

lemma start_game_tron:
  assumes v: "mode_115 v" and hour: "hour < 0x19" and b: "black v"
  obtains v' where "start_game hour v = Inr v'" "tron_ok v'" "mode_115 v'"
    "tron_of v' = \<lparr>grid_w = 160, grid_h = 120, trail = {},
       cycle = (\<lambda>p. if p = BLUE then ((60, 60), RIGHT) else ((100, 60), LEFT))\<rparr>"
proof -
  have r: "h_res v = 800" "v_res v = 600" "bytes_per_pixel v = 3" and wf: "wf_video v"
    using v by (simp_all add: mode_115_def)
  let ?v = "v\<lparr>bluePlayer := \<lparr>pos_x = 300, pos_y = 300, currentDirection = RIGHT\<rparr>,
              orangePlayer := \<lparr>pos_x = 500, pos_y = 300, currentDirection = LEFT\<rparr>\<rparr>"
  have s: "start_game hour v = Inr ?v"
    unfolding start_game_day [OF hour] r start_positions by simp
  have wf': "wf_video ?v" using wf by (simp add: wf_video_def)
  have "pixel ?v x y = 0" if "x < 800" "y < 600" for x y
    using b that by (simp add: black_def pixel_def r)
  then have "tron_of ?v = \<lparr>grid_w = 160, grid_h = 120, trail = {},
      cycle = (\<lambda>p. if p = BLUE then ((60, 60), RIGHT) else ((100, 60), LEFT))\<rparr>"
    by (auto simp: tron_of_def r free_colour_def cell_of_def fun_eq_iff)
  moreover have "tron_ok ?v"
    using wf' by (simp add: tron_ok_def on_grid_def r)
  ultimately show ?thesis
    using that [OF s] v wf' by (simp add: mode_115_def)
qed

text \<open>
  The clock without the keyboard: \<open>n\<close> ticks, until the first one that reports a collision.
\<close>

primrec passive_ticks :: "nat \<Rightarrow> video_st \<Rightarrow> fault + (int \<times> video_st)" where
  "passive_ticks 0 v = Inr (0, v)"
| "passive_ticks (Suc n) v =
     bind_res (passive_ticks n v) (\<lambda>(r, v). if r \<noteq> 0 then Inr (r, v) else passive_move_players v)"

text \<open>The abstract game after \<open>k\<close> ticks without a key: the two players approach each other on row 60.\<close>

definition head_on :: "nat \<Rightarrow> tron" where
  "head_on k = \<lparr>grid_w = 160, grid_h = 120,
     trail = ({61..60 + k} \<union> {100 - k..<100}) \<times> {60},
     cycle = (\<lambda>p. if p = BLUE then ((60 + k, 60), RIGHT) else ((100 - k, 60), LEFT))\<rparr>"

lemma head_on_tick: "k < 19 \<Longrightarrow> tron_tick (head_on k) = Some (0, head_on (Suc k))"
proof -
  assume k: "k < 19"
  let ?t = "(head_on k)\<lparr>trail := insert (61 + k, 60) (trail (head_on k)),
    cycle := (cycle (head_on k))(BLUE := ((61 + k, 60), RIGHT))\<rparr>"
  have blue: "tron_command BLUE RIGHT True (head_on k) = Some (False, ?t)"
    using k by (simp add: tron_command_def head_on_def)
  have "insert (99 - k, 60) (trail ?t) = trail (head_on (Suc k))"
    using k by (auto simp: head_on_def)
  moreover have "(cycle ?t)(ORANGE := ((99 - k, 60), LEFT)) = cycle (head_on (Suc k))"
    using k by (auto simp: head_on_def fun_eq_iff intro: player.exhaust)
  moreover have "(99 - k, 60) \<notin> trail ?t"
    using k by (auto simp: head_on_def)
  ultimately have "tron_command ORANGE LEFT True ?t = Some (False, head_on (Suc k))"
    using k by (simp add: tron_command_def head_on_def)
  with blue show ?thesis
    by (simp add: tron_tick_def head_on_def)
qed

lemma head_on_last_tick: "\<exists>t. tron_tick (head_on 19) = Some (2, t)"
  by (simp add: tron_tick_def tron_command_def head_on_def)

lemma passive_ticks_head_on:
  assumes v: "tron_ok v" "tron_of v = head_on 0" and "n \<le> 19"
  shows "\<exists>v'. passive_ticks n v = Inr (0, v') \<and> tron_ok v' \<and> tron_of v' = head_on n"
  using \<open>n \<le> 19\<close>
proof (induction n)
  case 0
  then show ?case using v by simp
next
  case (Suc n)
  then obtain u where "passive_ticks n v = Inr (0, u)" and u: "tron_ok u" "tron_of u = head_on n"
    by auto
  moreover have "tron_tick (tron_of u) = Some (0, head_on (Suc n))"
    using Suc.prems u(2) by (simp add: head_on_tick)
  moreover obtain u' where "passive_move_players u = Inr (0, u')" "tron_ok u'" "tron_of u' = head_on (Suc n)"
    using passive_move_players_tron [OF u(1) calculation(4)] .
  ultimately show ?case by simp
qed


section \<open>Edges\<close>

lemma vg_draw_pixel_Inr:
  assumes "vg_draw_pixel x y c v = Inr v'"
  shows "accessible v (pix_off v (ucast x) (ucast y)) (bpp v)" "frame_rest v' = frame_rest v"
  using assms by (auto simp: vg_draw_pixel_def Let_def split: if_splits)

lemma frame_rest_accessible:
  assumes "frame_rest v = frame_rest v'"
  shows "accessible v a n = accessible v' a n" "pix_off v x y = pix_off v' x y"
  using frame_rest_eqD [OF assms] by (simp_all add: accessible_def pix_off_def)

lemma vg_draw_hline_Inr:
  assumes "vg_draw_hline x y len c v = Inr v'"
  shows "frame_rest v' = frame_rest v"
    and "i < unat len \<Longrightarrow> accessible v (pix_off v (ucast (x + of_nat i)) (ucast y)) (bpp v)"
proof -
  have pres: "for_n n (\<lambda>i. vg_draw_pixel (x + of_nat i) y c) v = Inr u \<Longrightarrow> frame_rest u = frame_rest v" for n u
    by (erule for_n_preserves) (simp_all add: vg_draw_pixel_Inr(2))
  show "frame_rest v' = frame_rest v"
    using assms pres by (simp add: vg_draw_hline_def)
  assume "i < unat len"
  then obtain u u' where u: "for_n i (\<lambda>i. vg_draw_pixel (x + of_nat i) y c) v = Inr u"
    "vg_draw_pixel (x + of_nat i) y c u = Inr u'"
    using for_n_Inr_step [OF assms [unfolded vg_draw_hline_def]] by blast
  with pres have s: "frame_rest u = frame_rest v" by blast
  show "accessible v (pix_off v (ucast (x + of_nat i)) (ucast y)) (bpp v)"
    using vg_draw_pixel_Inr(1) [OF u(2)] frame_rest_accessible [OF s] frame_rest_eqD(3) [OF s] by simp
qed

lemma vg_draw_rectangle_Inr:
  assumes "vg_draw_rectangle x y wd ht c v = Inr (f, v')" and "i < unat wd" and "j < unat ht"
  shows "accessible v (pix_off v (ucast (x + of_nat i)) (ucast (y + of_nat j))) (bpp v)"
proof -
  let ?row = "\<lambda>j. vg_draw_hline x (y + of_nat j) wd c"
  obtain u where "for_n (unat ht) ?row v = Inr u"
    using assms(1) unfolding vg_draw_rectangle_def bind_res_eq_Inr_iff Let_def by blast
  then obtain t t' where t: "for_n j ?row v = Inr t" "?row j t = Inr t'"
    using for_n_Inr_step [OF \<open>for_n (unat ht) ?row v = Inr u\<close> assms(3)] by blast
  have s: "frame_rest t = frame_rest v"
    using t(1) by (rule for_n_preserves) (simp_all add: vg_draw_hline_Inr(1))
  show ?thesis
    using vg_draw_hline_Inr(2) [OF t(2) assms(2)] frame_rest_accessible [OF s] frame_rest_eqD(3) [OF s]
    by simp
qed

lemma drawing_faults:
  "vg_draw_pixel x y c v = Inl e \<Longrightarrow> e = Bad_access"
  "vg_draw_hline x y len c v = Inl e \<Longrightarrow> e = Bad_access"
  "find_color x y v = Inl e \<Longrightarrow> e = Bad_access"
proof -
  show px: "vg_draw_pixel x y c v = Inl e \<Longrightarrow> e = Bad_access" for x y c v
    by (auto simp: vg_draw_pixel_def Let_def split: if_splits)
  show "vg_draw_hline x y len c v = Inl e \<Longrightarrow> e = Bad_access"
    unfolding vg_draw_hline_def by (drule for_n_Inl) (auto dest: px)
qed (auto simp: find_color_def Let_def split: if_splits)

lemma vg_draw_rectangle_Inl:
  assumes "vg_draw_rectangle x y wd ht c v = Inl e"
  shows "e = Bad_access"
proof (cases "find_color x y v")
  case (Inr k)
  then have "for_n (unat ht) (\<lambda>j. vg_draw_hline x (y + of_nat j) wd c) v = Inl e"
    using assms unfolding vg_draw_rectangle_def Let_def
    by (cases "for_n (unat ht) (\<lambda>j. vg_draw_hline x (y + of_nat j) wd c) v") simp_all
  then show ?thesis
    by (auto dest!: for_n_Inl drawing_faults(2))
qed (use assms drawing_faults(3) in \<open>auto simp: vg_draw_rectangle_def\<close>)

lemma vg_draw_rectangle_faults:
  assumes "\<not> accessible v (pix_off v (ucast (x + of_nat i)) (ucast (y + of_nat j))) (bpp v)"
    and "i < unat wd" and "j < unat ht"
  shows "vg_draw_rectangle x y wd ht c v = Inl Bad_access"
proof (cases "vg_draw_rectangle x y wd ht c v")
  case (Inl e)
  then show ?thesis using vg_draw_rectangle_Inl by simp
next
  case (Inr r)
  then show ?thesis
    using vg_draw_rectangle_Inr [of x y wd ht c v "fst r" "snd r" i j] assms by simp
qed

text \<open>A square that starts \<open>k\<close> whole rows beyond the end of a row is the square \<open>k\<close> rows further down.\<close>

lemma pix_off_rows: "pix_off v (x + k * h_res v) y = pix_off v x (y + k)"
  by (simp add: pix_off_def algebra_simps)

lemma vg_draw_pixel_rows:
  assumes "ucast x = ucast x' + k * h_res v" and "ucast y' = ucast y + k"
  shows "vg_draw_pixel x y c v = vg_draw_pixel x' y' c v"
  using assms by (simp add: vg_draw_pixel_def pix_off_rows)

lemma ucast_add_of_nat:
  fixes x :: u16
  assumes "unat x + i < 2 ^ 16"
  shows "(ucast (x + of_nat i) :: u32) = ucast x + of_nat i"
proof -
  have "unat (ucast x + of_nat i :: u32) = unat x + i"
    using assms by (subst unat_add_of_nat) (simp_all add: unat_ucast_up)
  then show ?thesis
    using unat_add_of_nat [of x i] assms by (simp add: word_unat_eq_iff unat_ucast_up)
qed

lemma vg_draw_rectangle_rows:
  fixes x x' y y' :: u16
  assumes eq: "ucast x = ucast x' + k * h_res v" "ucast y' = ucast y + k"
    and le: "unat x + unat wd \<le> 2 ^ 16" "unat x' + unat wd \<le> 2 ^ 16"
      "unat y + unat ht \<le> 2 ^ 16" "unat y' + unat ht \<le> 2 ^ 16"
  shows "vg_draw_rectangle x y wd ht c v = vg_draw_rectangle x' y' wd ht c v"
proof -
  let ?same = "\<lambda>u. h_res u = h_res v"
  have px: "vg_draw_pixel (x + of_nat i) (y + of_nat j) c u = vg_draw_pixel (x' + of_nat i) (y' + of_nat j) c u"
    if "i < unat wd" "j < unat ht" "?same u" for i j u
    using that le eq by (intro vg_draw_pixel_rows [where k = k]) (simp_all add: ucast_add_of_nat)
  have keep: "?same t'" if "vg_draw_pixel a b c t = Inr t'" "?same t" for a b t t'
    using frame_rest_eqD(1) [OF vg_draw_pixel_Inr(2) [OF that(1)]] that(2) by simp
  have row: "vg_draw_hline x (y + of_nat j) wd c u = vg_draw_hline x' (y' + of_nat j) wd c u"
    if "j < unat ht" "?same u" for j u
    unfolding vg_draw_hline_def
    using that px keep by (intro for_n_cong_inv [where P = ?same]) blast+
  have "for_n (unat ht) (\<lambda>j. vg_draw_hline x (y + of_nat j) wd c) v
      = for_n (unat ht) (\<lambda>j. vg_draw_hline x' (y' + of_nat j) wd c) v"
  proof (rule for_n_cong_inv [where P = ?same])
    fix i t t'
    assume "vg_draw_hline x (y + of_nat i) wd c t = Inr t'" "?same t"
    then show "?same t'"
      using frame_rest_eqD(1) [OF vg_draw_hline_Inr(1)] by metis
  qed (use row in simp_all)
  moreover have "find_color x y v = find_color x' y' v"
    using eq by (simp add: find_color_def pix_off_rows)
  ultimately show ?thesis
    by (simp add: vg_draw_rectangle_def)
qed


text \<open>Addresses in mode 0x115, on or off the screen.\<close>

lemma pix_off_115:
  fixes x y :: u16
  assumes "mode_115 v"
  shows "pix_off v (ucast x) (ucast y) = (unat y * 800 + unat x) * 3"
proof -
  have v: "h_res v = 800" "bytes_per_pixel v = 3" using assms by (simp_all add: mode_115_def)
  have b: "unat x < 65536" "unat y < 65536"
    using unat_less [of x] unat_less [of y] by simp_all
  have "unat (ucast y * 800 :: u32) = unat y * 800"
    using b by (subst unat_mult_no_wrap) (simp_all add: unat_ucast_up)
  then have "unat (ucast y * 800 + ucast x :: u32) = unat y * 800 + unat x"
    using b by (subst unat_add_no_wrap) (simp_all add: unat_ucast_up)
  then show ?thesis
    unfolding pix_off_def v using b by (subst unat_mult_no_wrap) simp_all
qed

lemma white_pixel:
  assumes "mode_115 v" and "x < 800" "y < 600"
  shows "pixel (v\<lparr>video_mem := fill_mem 255 1440000 m\<rparr>) x y = 0xFFFFFF"
proof -
  have v: "h_res v = 800" "v_res v = 600" "bytes_per_pixel v = 3" using assms by (simp_all add: mode_115_def)
  have "(y * 800 + x) * 3 + 3 \<le> 1440000"
    using byte_index_le [of x 800 y 600 3] assms by simp
  then have "load_le (fill_mem 255 1440000 m) ((y * 800 + x) * 3) 3 = load_le (\<lambda>_. 255) 0 3"
    by (intro load_le_cong) (simp add: fill_mem_def)
  then have "pixel (v\<lparr>video_mem := fill_mem 255 1440000 m\<rparr>) x y = load_le (\<lambda>_. 255) 0 3"
    by (simp add: pixel_def v)
  also have "\<dots> = 0xFFFFFF"
    by (simp add: numeral_3_eq_3)
  finally show ?thesis .
qed


section \<open>Properties\<close>

text \<open>
  C1. \<open>move_player\<close> refines the abstract game on a grid of 5 by 5 pixel cells, for both players, on
  clock ticks and on key presses: whenever the abstract game has a next state, the call succeeds, returns
  1 exactly when the cell it enters is taken (and 0 when the command is ignored or the cell is free),
  paints exactly that cell, moves exactly that player, and keeps the invariant.
\<close>

theorem move_player_refines_tron:
  assumes "tron_ok v" and "dir m \<noteq> UNCHANGED"
    and "tron_command (playerColor m) (dir m) passive (tron_of v) = Some (crash, t')"
  shows "\<exists>v'. move_player m passive v = Inr (if crash then 1 else 0, v') \<and> tron_ok v' \<and> tron_of v' = t'"
  using move_player_tron [OF assms] by blast

definition demo_115 :: video_st where
  "demo_115 = tiny_video\<lparr>mapped := 1440000, h_res := 800, v_res := 600\<rparr>"

lemma demo_115_ok: "mode_115 demo_115" "black demo_115" "mapped demo_115 = 1440000"
  by (simp_all add: mode_115_def wf_video_def demo_115_def tiny_video_def black_def pixel_def)

text \<open>Both players in the middle of the screen, blue facing right, orange facing left.\<close>

definition facing :: video_st where
  "facing = demo_115\<lparr>bluePlayer := \<lparr>pos_x = 300, pos_y = 300, currentDirection = RIGHT\<rparr>,
     orangePlayer := \<lparr>pos_x = 305, pos_y = 300, currentDirection = LEFT\<rparr>\<rparr>"

lemma facing_ok: "tron_ok facing" "mode_115 facing"
  by (simp_all add: tron_ok_def on_grid_def facing_def wf_video_def demo_115_def tiny_video_def mode_115_def)

lemma facing_tron:
  "tron_of facing = \<lparr>grid_w = 160, grid_h = 120, trail = {},
     cycle = (\<lambda>p. if p = BLUE then ((60, 60), RIGHT) else ((61, 60), LEFT))\<rparr>"
  by (auto simp: tron_of_def facing_def demo_115_def tiny_video_def pixel_def free_colour_def cell_of_def fun_eq_iff)

theorem move_player_refines_tron_witness:
  "\<exists>v'. move_player \<lparr>dir = UP, playerColor = BLUE\<rparr> False facing = Inr (0, v')
     \<and> trail (tron_of v') = {(60, 59)}"
proof -
  let ?m = "\<lparr>dir = UP, playerColor = BLUE\<rparr>"
  obtain t where t: "tron_command (playerColor ?m) (dir ?m) False (tron_of facing) = Some (False, t)"
    "trail t = {(60, 59)}"
    by (simp add: tron_command_def facing_tron)
  show ?thesis
    using move_player_refines_tron [OF facing_ok(1) _ t(1)] t(2) by auto
qed

text \<open>
  C2. A tick of the clock (\<open>passive_move_players\<close>) refines the abstract tick: blue moves first; if it
  enters a taken cell the result is 1 and orange does not move; otherwise orange moves and the result
  is 2 exactly when it enters a taken cell, among them the one blue has just entered.
\<close>

theorem passive_move_players_refines_tick:
  assumes "tron_ok v" and "tron_tick (tron_of v) = Some (r, t')"
  shows "\<exists>v'. passive_move_players v = Inr (r, v') \<and> tron_ok v' \<and> tron_of v' = t'"
  using passive_move_players_tron [OF assms] by blast

theorem passive_move_players_refines_tick_witness:
  "\<exists>v'. passive_move_players facing = Inr (0, v') \<and> trail (tron_of v') = {(61, 60), (60, 60)}"
proof -
  obtain t where t: "tron_tick (tron_of facing) = Some (0, t)" "trail t = {(61, 60), (60, 60)}"
    by (auto simp: tron_tick_def tron_command_def facing_tron)
  show ?thesis
    using passive_move_players_refines_tick [OF facing_ok(1) t(1)] t(2) by auto
qed

text \<open>
  C17. A game started in mode 0x115 before 19h on a black screen and played without a key runs for 19
  ticks without a collision and ends in the 20th, in which orange hits the trail blue has laid in the same
  tick: the order of the two moves decides a symmetric position in favour of blue.
\<close>

theorem game_without_keys_is_won_by_blue:
  assumes "mode_115 v" and "hour < 0x19" and "black v"
  shows "\<exists>v'. start_game hour v = Inr v' \<and> (\<forall>n \<le> 19. \<exists>u. passive_ticks n v' = Inr (0, u))
    \<and> (\<exists>u. passive_ticks 20 v' = Inr (2, u))"
proof -
  obtain v' where v': "start_game hour v = Inr v'" "tron_ok v'"
    "tron_of v' = \<lparr>grid_w = 160, grid_h = 120, trail = {},
       cycle = (\<lambda>p. if p = BLUE then ((60, 60), RIGHT) else ((100, 60), LEFT))\<rparr>"
    using start_game_tron [OF assms] .
  then have h: "tron_of v' = head_on 0" by (auto simp: head_on_def fun_eq_iff)
  note run = passive_ticks_head_on [OF v'(2) h]
  obtain u where u: "passive_ticks 19 v' = Inr (0, u)" "tron_ok u" "tron_of u = head_on 19"
    using run [of 19] by auto
  obtain t where "tron_tick (tron_of u) = Some (2, t)"
    using head_on_last_tick u(3) by auto
  then obtain u' where "passive_move_players u = Inr (2, u')"
    using passive_move_players_tron [OF u(2)] by blast
  then have "passive_ticks (Suc 19) v' = Inr (2, u')"
    unfolding passive_ticks.simps(2) u(1) by simp
  then have "passive_ticks 20 v' = Inr (2, u')"
    by simp
  with v'(1) run show ?thesis by blast
qed

theorem game_without_keys_is_won_by_blue_witness:
  "\<exists>v' u. start_game 0x18 demo_115 = Inr v' \<and> passive_ticks 20 v' = Inr (2, u)"
  using game_without_keys_is_won_by_blue [OF demo_115_ok(1) _ demo_115_ok(2), of "0x18"] by auto

text \<open>From 19h on the screen is white and every cell of the grid counts as taken.\<close>

lemma start_game_evening:
  assumes v: "mode_115 v" and "0x19 \<le> hour"
  obtains v' where "start_game hour v = Inr v'" "tron_ok v'" "mode_115 v'"
    "\<forall>x < 800. \<forall>y < 600. pixel v' x y = 0xFFFFFF"
    "tron_of v' = \<lparr>grid_w = 160, grid_h = 120, trail = {..<160} \<times> {..<120},
       cycle = (\<lambda>p. if p = BLUE then ((60, 60), RIGHT) else ((100, 60), LEFT))\<rparr>"
proof -
  have r: "h_res v = 800" "v_res v = 600" "bytes_per_pixel v = 3" and wf: "wf_video v"
    using v by (simp_all add: mode_115_def)
  have n: "unat (h_res v * v_res v * bytes_per_pixel v) = 1440000"
    by (simp add: r)
  have acc: "accessible v 0 1440000"
    using wf by (simp add: accessible_def wf_video_def r)
  let ?w = "v\<lparr>video_mem := fill_mem 255 1440000 (video_mem v)\<rparr>"
  let ?v = "?w\<lparr>bluePlayer := \<lparr>pos_x = 300, pos_y = 300, currentDirection = RIGHT\<rparr>,
              orangePlayer := \<lparr>pos_x = 500, pos_y = 300, currentDirection = LEFT\<rparr>\<rparr>"
  have s: "start_game hour v = Inr ?v"
    using assms(2) acc unfolding start_game_def Let_def n by (simp add: r start_positions)
  have wf': "wf_video ?v" using wf by (simp add: wf_video_def)
  have px: "\<forall>x < 800. \<forall>y < 600. pixel ?v x y = 0xFFFFFF"
    using white_pixel [OF v, of _ _ "video_mem v"] by (simp add: pixel_def)
  then have "tron_of ?v = \<lparr>grid_w = 160, grid_h = 120, trail = {..<160} \<times> {..<120},
      cycle = (\<lambda>p. if p = BLUE then ((60, 60), RIGHT) else ((100, 60), LEFT))\<rparr>"
    by (auto simp: tron_of_def r free_colour_def cell_of_def fun_eq_iff)
  moreover have "tron_ok ?v" "mode_115 ?v"
    using wf' v by (simp_all add: tron_ok_def on_grid_def r mode_115_def)
  ultimately show ?thesis using that [OF s] px by blast
qed

text \<open>
  C18. From 19h on the screen is filled with white, but a white pixel of 24 bits (0xFFFFFF) is neither of
  the two values (0 and 255) that count as free: the first tick reports a collision of blue, whatever
  the screen showed before.
\<close>

theorem evening_game_lost_in_first_tick:
  assumes v: "mode_115 v" and "0x19 \<le> hour"
  shows "\<exists>v' u. start_game hour v = Inr v' \<and> passive_move_players v' = Inr (1, u)"
proof -
  obtain v' where v': "start_game hour v = Inr v'" "tron_ok v'"
    and t: "tron_of v' = \<lparr>grid_w = 160, grid_h = 120, trail = {..<160} \<times> {..<120},
       cycle = (\<lambda>p. if p = BLUE then ((60, 60), RIGHT) else ((100, 60), LEFT))\<rparr>"
    using start_game_evening [OF assms] by metis
  have "\<exists>g. tron_tick (tron_of v') = Some (1, g)"
    by (simp add: t tron_tick_def tron_command_def)
  then obtain u where "passive_move_players v' = Inr (1, u)"
    using passive_move_players_tron [OF v'(2)] by blast
  with v'(1) show ?thesis by blast
qed

theorem evening_game_lost_in_first_tick_witness:
  "\<exists>v' u. start_game 0x21 demo_115 = Inr v' \<and> passive_move_players v' = Inr (1, u)"
  using evening_game_lost_in_first_tick [OF demo_115_ok(1), of "0x21"] by simp


text \<open>Whether \<open>move_player\<close> ignores the command.\<close>

definition ignored :: "MovementInfo \<Rightarrow> bool \<Rightarrow> video_st \<Rightarrow> bool" where
  "ignored m passive v \<longleftrightarrow>
     (let q = the_player (playerColor m) v
      in \<not> passive \<and> dir m = currentDirection q
         \<or> dir_code (dir m) = opposite (dir_code (currentDirection q)))"

lemma move_player_ignored: "ignored m passive v \<Longrightarrow> move_player m passive v = Inr (0, v)"
  by (auto simp: move_player_eq ignored_def Let_def)

lemma move_player_unchanged:
  "\<not> ignored m passive v \<Longrightarrow> dir m = UNCHANGED \<Longrightarrow> move_player m passive v = Inr (1, v)"
  by (auto simp: move_player_eq ignored_def Let_def)

lemma move_player_acts:
  assumes "\<not> ignored m passive v" and "dir m \<noteq> UNCHANGED"
  shows "move_player m passive v = draw_front_end (playerColor m) (colour_of (playerColor m))
    (stepped (dir m) (the_player (playerColor m) v)) v"
  using assms by (auto simp: move_player_eq ignored_def Let_def)

text \<open>
  C19. The top and the bottom edge are not walls. In mode 0x115 a player on the top row that moves up makes
  the program access memory some 157 MB behind the start of the frame buffer, and one on the bottom row
  that moves down the rows below the frame; if that memory cannot be accessed (the frame itself has
  1440000 bytes, 1441792 in whole pages), the program faults instead of ending the game.
\<close>

theorem move_over_top_or_bottom_faults:
  assumes v: "mode_115 v"
    and act: "\<not> ignored m passive v"
    and q: "q = the_player (playerColor m) v"
    and edge: "dir m = UP \<and> pos_y q = 0 \<and> mapped v \<le> 157274400
      \<or> dir m = DOWN \<and> pos_y q = 595 \<and> mapped v \<le> 1449600"
  shows "move_player m passive v = Inl Bad_access"
proof -
  let ?q = "stepped (dir m) q"
  have b: "bpp v = 3" using v by (simp add: mode_115_def)
  have "\<exists>j < 5. \<not> accessible v (pix_off v (ucast (pos_x ?q + of_nat 0)) (ucast (pos_y ?q + of_nat j))) (bpp v)"
    using edge
  proof
    assume *: "dir m = UP \<and> pos_y q = 0 \<and> mapped v \<le> 157274400"
    then have "unat (pos_y ?q + of_nat 0) = 65531" by (simp add: stepped_def)
    then show ?thesis
      using * unfolding b accessible_def pix_off_115 [OF v] by (intro exI [of _ 0]) simp
  next
    assume *: "dir m = DOWN \<and> pos_y q = 595 \<and> mapped v \<le> 1449600"
    then have "unat (pos_y ?q + of_nat 4) = 604" by (simp add: stepped_def)
    then show ?thesis
      using * unfolding b accessible_def pix_off_115 [OF v] by (intro exI [of _ 4]) simp
  qed
  then obtain j where "j < 5"
    "\<not> accessible v (pix_off v (ucast (pos_x ?q + of_nat 0)) (ucast (pos_y ?q + of_nat j))) (bpp v)" by blast
  then have "vg_draw_rectangle (pos_x ?q) (pos_y ?q) 5 5 c v = Inl Bad_access" for c
    using vg_draw_rectangle_faults [of v "pos_x ?q" 0 "pos_y ?q" j 5 5 c] by simp
  moreover have "dir m \<noteq> UNCHANGED" using edge by auto
  ultimately show ?thesis
    using move_player_acts [OF act] by (simp add: draw_front_end_def c_consts flip: q)
qed

definition at_edge :: "u16 \<Rightarrow> u16 \<Rightarrow> direction \<Rightarrow> video_st" where
  "at_edge x y d = demo_115\<lparr>bluePlayer := \<lparr>pos_x = x, pos_y = y, currentDirection = d\<rparr>\<rparr>"

lemma at_edge_simps:
  "mode_115 (at_edge x y d)" "mapped (at_edge x y d) = 1440000"
  "bluePlayer (at_edge x y d) = \<lparr>pos_x = x, pos_y = y, currentDirection = d\<rparr>"
  using demo_115_ok by (simp_all add: at_edge_def mode_115_def wf_video_def)

theorem move_over_top_or_bottom_faults_witness:
  "move_player \<lparr>dir = UP, playerColor = BLUE\<rparr> True (at_edge 300 0 UP) = Inl Bad_access
   \<and> move_player \<lparr>dir = DOWN, playerColor = BLUE\<rparr> False (at_edge 300 595 LEFT) = Inl Bad_access"
  using move_over_top_or_bottom_faults [of "at_edge 300 0 UP" "\<lparr>dir = UP, playerColor = BLUE\<rparr>" True]
    move_over_top_or_bottom_faults [of "at_edge 300 595 LEFT" "\<lparr>dir = DOWN, playerColor = BLUE\<rparr>" False]
  by (simp add: at_edge_simps ignored_def opposite_def)

text \<open>
  C20. The left and the right edge are not walls either. In mode 0x115 a player that moves right from the
  last column appears at the left end one pixel row further down, one that moves left from the first
  column appears at column 731, 81 rows further down, if these rows are on the screen; whether it
  collides depends on the pixel there, the square there is painted and nothing else, and the
  stored coordinate is 800 or 65531. If the rows are not on the screen, the program accesses memory
  behind the frame and faults unless that memory is mapped.
\<close>

theorem move_over_side_wraps:
  assumes v: "mode_115 v" and act: "\<not> ignored m passive v"
    and q: "q = the_player (playerColor m) v"
    and edge: "dir m = RIGHT \<and> pos_x q = 795 \<and> nx = 800 \<and> tx = 0 \<and> k = 1
      \<or> dir m = LEFT \<and> pos_x q = 0 \<and> nx = 65531 \<and> tx = 731 \<and> k = 81"
    and y: "unat (pos_y q) + 5 \<le> 600"
  shows "if unat (pos_y q) + k + 5 \<le> 600
    then \<exists>v'. move_player m passive v =
        Inr (if free_colour (pixel v tx (unat (pos_y q) + k)) then 0 else 1, v')
      \<and> the_player (playerColor m) v' = q\<lparr>pos_x := nx, currentDirection := dir m\<rparr>
      \<and> (\<forall>x < 800. \<forall>y < 600. pixel v' x y =
           (if x \<in> {tx..<tx + 5} \<and> y \<in> {unat (pos_y q) + k..<unat (pos_y q) + k + 5}
            then colour_of (playerColor m) else pixel v x y))
    else mapped v < ((unat (pos_y q) + k + 4) * 800 + tx + 5) * 3 \<longrightarrow> move_player m passive v = Inl Bad_access"
proof (cases "unat (pos_y q) + k + 5 \<le> 600")
  case below: True
  have r: "h_res v = 800" "v_res v = 600" "bytes_per_pixel v = 3" and wf: "wf_video v"
    using v by (simp_all add: mode_115_def)
  let ?c = "colour_of (playerColor m)" and ?y = "pos_y q + of_nat k"
  have ty: "unat ?y = unat (pos_y q) + k"
    using below edge by (intro unat_add_of_nat) auto
  have tx: "tx + 5 \<le> 800" using edge by auto
  have tx': "unat (of_nat tx :: u16) = tx"
    using tx by (simp add: unat_of_nat_small)
  have s: "stepped (dir m) q = q\<lparr>currentDirection := dir m, pos_x := nx\<rparr>"
    using edge by (auto simp: stepped_def)
  have rows: "vg_draw_rectangle nx (pos_y q) 5 5 ?c v = vg_draw_rectangle (of_nat tx) ?y 5 5 ?c v"
  proof (rule vg_draw_rectangle_rows [where k = "of_nat k"])
    show "ucast nx = ucast (of_nat tx :: u16) + of_nat k * h_res v"
      using edge by (auto simp: r)
    show "ucast ?y = (ucast (pos_y q) + of_nat k :: u32)"
      using below by (intro ucast_add_of_nat) simp
  qed (use edge below tx' ty in auto)
  have pre: "(0 :: u16) < 5" "unat (of_nat tx :: u16) + unat (5 :: u16) \<le> scr_w v"
    "unat ?y + unat (5 :: u16) \<le> scr_h v"
    using below tx by (simp_all add: r tx' ty)
  obtain u where u: "vg_draw_rectangle (of_nat tx) ?y 5 5 ?c v =
      Inr (if pixel v tx (unat ?y) \<noteq> 0 \<and> pixel v tx (unat ?y) \<noteq> 255 then 1 else 0, u)"
    and "\<And>x' y'. x' < scr_w v \<Longrightarrow> y' < scr_h v \<Longrightarrow> pixel u x' y' =
      (if tx \<le> x' \<and> x' < tx + unat (5 :: u16) \<and> unat ?y \<le> y' \<and> y' < unat ?y + unat (5 :: u16)
       then take_bit (8 * bpp v) ?c else pixel v x' y')"
    using vg_draw_rectangle_on_screen [OF wf pre(1) pre(1) pre(2,3), of ?c] unfolding tx' by blast
  then have px: "\<And>x' y'. x' < 800 \<Longrightarrow> y' < 600 \<Longrightarrow> pixel u x' y' =
      (if tx \<le> x' \<and> x' < tx + 5 \<and> unat ?y \<le> y' \<and> y' < unat ?y + 5 then take_bit 24 ?c else pixel v x' y')"
    by (simp add: r)
  have c: "take_bit 24 ?c = ?c" by (simp add: c_consts)
  have d: "dir m \<noteq> UNCHANGED" using edge by auto
  let ?v = "if playerColor m = BLUE then u\<lparr>bluePlayer := q\<lparr>currentDirection := dir m, pos_x := nx\<rparr>\<rparr>
    else u\<lparr>orangePlayer := q\<lparr>currentDirection := dir m, pos_x := nx\<rparr>\<rparr>"
  have "move_player m passive v = Inr (if free_colour (pixel v tx (unat ?y)) then 0 else 1, ?v)"
    unfolding move_player_acts [OF act d] q [symmetric] s draw_front_end_def
    using rows u by (simp add: c_consts free_colour_def)
  moreover have "pixel ?v = pixel u"
    by (auto simp: pixel_def fun_eq_iff)
  moreover have "the_player (playerColor m) ?v = q\<lparr>pos_x := nx, currentDirection := dir m\<rparr>"
    by (cases q) simp
  ultimately show ?thesis
    using px below unfolding c ty by (simp only: if_True) (intro exI [of _ ?v], simp)
next
  case False
  let ?q = "stepped (dir m) q"
  have s: "pos_x ?q = nx" "pos_y ?q = pos_y q" using edge by (auto simp: stepped_def)
  have u: "unat (pos_y q + of_nat 4) = unat (pos_y q) + 4"
    using y by (intro unat_add_of_nat) simp
  have "unat (nx + of_nat 4) + unat (pos_y q + of_nat 4) * 800 = (unat (pos_y q) + k + 4) * 800 + tx + 4"
    using edge unfolding u by auto
  then have "\<not> accessible v (pix_off v (ucast (nx + of_nat 4)) (ucast (pos_y q + of_nat 4))) (bpp v)"
    if "mapped v < ((unat (pos_y q) + k + 4) * 800 + tx + 5) * 3"
    using that v unfolding accessible_def pix_off_115 [OF v] by (simp add: mode_115_def)
  then have "vg_draw_rectangle (pos_x ?q) (pos_y ?q) 5 5 c v = Inl Bad_access"
    if "mapped v < ((unat (pos_y q) + k + 4) * 800 + tx + 5) * 3" for c
    using vg_draw_rectangle_faults [of v "pos_x ?q" 4 "pos_y ?q" 4 5 5 c] that unfolding s by simp
  moreover have "dir m \<noteq> UNCHANGED" using edge by auto
  ultimately show ?thesis
    using move_player_acts [OF act] False by (simp add: draw_front_end_def c_consts flip: q)
qed

theorem move_over_side_wraps_witness:
  "\<exists>v'. move_player \<lparr>dir = RIGHT, playerColor = BLUE\<rparr> True (at_edge 795 300 RIGHT) = Inr (0, v')
     \<and> pixel v' 0 301 = COLOR_BLUE \<and> pos_x (bluePlayer v') = 800
     \<and> move_player \<lparr>dir = LEFT, playerColor = BLUE\<rparr> True (at_edge 0 515 LEFT) = Inl Bad_access"
proof -
  have "pixel (at_edge 795 300 RIGHT) 0 301 = 0"
    by (simp add: at_edge_def demo_115_def tiny_video_def pixel_def)
  then show ?thesis
    using move_over_side_wraps [of "at_edge 795 300 RIGHT" "\<lparr>dir = RIGHT, playerColor = BLUE\<rparr>" True
        "bluePlayer (at_edge 795 300 RIGHT)" 800 0 1]
      move_over_side_wraps [of "at_edge 0 515 LEFT" "\<lparr>dir = LEFT, playerColor = BLUE\<rparr>" True
        "bluePlayer (at_edge 0 515 LEFT)" 65531 731 81]
    by (auto simp: at_edge_simps ignored_def opposite_def free_colour_def)
qed

end
