(* ===== verification/Driver_Loops.thy ===== *)
theory Driver_Loops
  imports Sys_Interface
begin

text \<open>
  The control structure of the main program: an outer loop around one inner loop per screen, each of
  which runs as long as its screen is selected. The contract of such a set of handlers says that every
  screen but the final one has exactly one inner loop; from it follows that the nest of loops is the same
  computation as a single loop that dispatches on the selected screen, also when it faults or
  never ends.
\<close>


section \<open>Nested and flat loops\<close>

primrec run_screens :: "('s \<Rightarrow> 'k) \<Rightarrow> ('k \<times> ('s \<Rightarrow> 'e + 's)) list \<Rightarrow> 's \<Rightarrow> ('e + 's) option" where
  "run_screens scr [] s = Some (Inr s)"
| "run_screens scr (h # hs) s =
     then_res (while_res (\<lambda>s. scr s = fst h) (\<lambda>s. Some (snd h s)) s) (run_screens scr hs)"

definition nested_loops ::
    "('s \<Rightarrow> 'k) \<Rightarrow> 'k \<Rightarrow> ('k \<times> ('s \<Rightarrow> 'e + 's)) list \<Rightarrow> 's \<Rightarrow> ('e + 's) option" where
  "nested_loops scr final hs = while_res (\<lambda>s. scr s \<noteq> final) (run_screens scr hs)"

definition dispatch :: "('s \<Rightarrow> 'k) \<Rightarrow> ('k \<times> ('s \<Rightarrow> 'e + 's)) list \<Rightarrow> 's \<Rightarrow> 'e + 's" where
  "dispatch scr hs s = (case map_of hs (scr s) of None \<Rightarrow> Inr s | Some f \<Rightarrow> f s)"

definition flat_loop ::
    "('s \<Rightarrow> 'k) \<Rightarrow> 'k \<Rightarrow> ('k \<times> ('s \<Rightarrow> 'e + 's)) list \<Rightarrow> 's \<Rightarrow> ('e + 's) option" where
  "flat_loop scr final hs = while_res (\<lambda>s. scr s \<noteq> final) (\<lambda>s. Some (dispatch scr hs s))"

lemma run_screens_skip: "scr s \<notin> fst ` set hs \<Longrightarrow> run_screens scr hs s = Some (Inr s)"
  by (induction hs) (auto simp: while_res_unfold)

lemma run_screens_skip_append:
  "scr s \<notin> fst ` set pre \<Longrightarrow> run_screens scr (pre @ hs) s = run_screens scr hs s"
  by (induction pre) (auto simp: while_res_unfold)


section \<open>The contract of a set of screens\<close>

locale screens =
  fixes scr :: "'s \<Rightarrow> 'k"
    and final :: 'k
    and hs :: "('k \<times> ('s \<Rightarrow> 'e + 's)) list"
  assumes distinct: "distinct (map fst hs)"
    and not_final: "final \<notin> fst ` set hs"
    and complete: "k \<noteq> final \<Longrightarrow> k \<in> fst ` set hs"
begin

abbreviation flat :: "'s \<Rightarrow> ('e + 's) option" where
  "flat \<equiv> flat_loop scr final hs"

abbreviation nested :: "'s \<Rightarrow> ('e + 's) option" where
  "nested \<equiv> nested_loops scr final hs"

lemma flat_step: "scr s \<noteq> final \<Longrightarrow> flat s = then_res (Some (dispatch scr hs s)) flat"
  unfolding flat_loop_def by (subst while_res_unfold) simp

lemma flat_final: "scr s = final \<Longrightarrow> flat s = Some (Inr s)"
  unfolding flat_loop_def by (subst while_res_unfold) simp

lemma nested_step: "scr s \<noteq> final \<Longrightarrow> nested s = then_res (run_screens scr hs s) nested"
  unfolding nested_loops_def by (subst while_res_unfold) simp

lemma nested_final: "scr s = final \<Longrightarrow> nested s = Some (Inr s)"
  unfolding nested_loops_def by (subst while_res_unfold) simp

lemma dispatch_member: "(k, f) \<in> set hs \<Longrightarrow> scr s = k \<Longrightarrow> dispatch scr hs s = f s"
  using distinct by (simp add: dispatch_def)

lemma inner_loop_flat:
  assumes "while_res (\<lambda>s. scr s = k) (\<lambda>s. Some (f s)) s = Some r" and kf: "(k, f) \<in> set hs"
  shows "flat s = then_res (Some r) flat"
  using assms(1)
proof (induction rule: while_res_induct)
  case (fault s e)
  then show ?case
    using flat_step [of s] dispatch_member [OF kf, of s] not_final kf by force
next
  case (step s s' r)
  then show ?case
    using flat_step [of s] dispatch_member [OF kf, of s] not_final kf by force
qed simp

lemma run_screens_flat:
  assumes "run_screens scr xs s = Some r" and "set xs \<subseteq> set hs"
  shows "flat s = then_res (Some r) flat"
  using assms
proof (induction xs arbitrary: s)
  case (Cons x xs)
  obtain r1 where r1: "while_res (\<lambda>s. scr s = fst x) (\<lambda>s. Some (snd x s)) s = Some r1"
    using Cons.prems(1) by (cases "while_res (\<lambda>s. scr s = fst x) (\<lambda>s. Some (snd x s)) s") auto
  have "flat s = then_res (Some r1) flat"
    using Cons.prems(2) by (intro inner_loop_flat [OF r1]) simp
  with Cons r1 show ?case
    by (cases r1) auto
qed auto

lemma nested_imp_flat: "nested s = Some r \<Longrightarrow> flat s = Some r"
  unfolding nested_loops_def
proof (induction rule: while_res_induct)
  case (stop s)
  then show ?case by (simp add: flat_final)
next
  case (fault s e)
  then show ?case using run_screens_flat [of hs s "Inl e"] by simp
next
  case (step s s' r)
  then show ?case using run_screens_flat [of hs s "Inr s'"] by simp
qed

text \<open>From any point of the sequence of inner loops control reaches the loop of the selected screen.\<close>

lemma reach_selected:
  assumes hs: "hs = pre @ (k, f) # post" and s: "scr s = k" and suffix: "hs = front @ xs"
  shows "then_res (run_screens scr xs s) nested = then_res (run_screens scr ((k, f) # post) s) nested"
proof -
  have fk: "k \<noteq> final" using hs not_final by auto
  have pre: "k \<notin> fst ` set pre" using distinct hs by auto
  have whole: "nested s = then_res (run_screens scr ((k, f) # post) s) nested"
    using nested_step [of s] fk s pre run_screens_skip_append [of scr s pre "(k, f) # post"] hs by simp
  show ?thesis
  proof (cases "k \<in> fst ` set xs")
    case False
    then show ?thesis using whole s run_screens_skip [of scr s xs] by simp
  next
    case True
    then obtain g p q where xs: "xs = p @ (k, g) # q"
      by (metis (no_types, lifting) imageE prod.collapse split_list)
    then have "pre = front @ p \<and> (k, f) # post = (k, g) # q"
      using hs suffix distinct by (auto simp: append_eq_append_conv2 append_eq_Cons_conv Cons_eq_append_conv)
    then have "xs = p @ (k, f) # post" "scr s \<notin> fst ` set p" using xs pre s by auto
    then show ?thesis
      using run_screens_skip_append [of scr s p "(k, f) # post"] by simp
  qed
qed

lemma flat_imp_nested:
  assumes "flat s = Some r" and "hs = front @ xs"
  shows "then_res (run_screens scr xs s) nested = Some r"
  using assms unfolding flat_loop_def
proof (induction arbitrary: front xs rule: while_res_induct)
  case (stop s)
  then have "scr s \<notin> fst ` set xs" using not_final by auto
  with stop(1) nested_final [of s] show ?case by (simp add: run_screens_skip)
next
  case (fault s e)
  then obtain f where kf: "(scr s, f) \<in> set hs" using complete [of "scr s"] by force
  then obtain pre post where hs: "hs = pre @ (scr s, f) # post" by (meson split_list)
  have "f s = Inl e" using fault(2) dispatch_member [OF kf] by simp
  then have "run_screens scr ((scr s, f) # post) s = Some (Inl e)"
    by (simp add: while_res_unfold [of _ _ s])
  then show ?case
    using reach_selected [OF hs refl fault.prems] by simp
next
  case (step s s' r)
  then obtain f where kf: "(scr s, f) \<in> set hs" using complete [of "scr s"] by force
  then obtain pre post where hs: "hs = pre @ (scr s, f) # post" by (meson split_list)
  have "f s = Inr s'" using step(2) dispatch_member [OF kf] by simp
  then have "run_screens scr ((scr s, f) # post) s = run_screens scr ((scr s, f) # post) s'"
    by (simp add: while_res_unfold [of _ _ s])
  then show ?case
    using reach_selected [OF hs refl step.prems] step.IH [OF hs] by simp
qed

lemma nested_eq_flat: "nested s = flat s"
proof (cases "flat s")
  case None
  then show ?thesis using nested_imp_flat [of s] by (cases "nested s") auto
next
  case (Some r)
  then have "then_res (run_screens scr hs s) nested = Some r"
    using flat_imp_nested [of s r "[]" hs] by simp
  then show ?thesis
    using Some nested_step [of s] nested_final [of s] flat_final [of s] by (cases "scr s = final") auto
qed

text \<open>A predicate that every iteration keeps holds when the program ends.\<close>

lemma nested_invariant:
  assumes "nested s = Some (Inr s')" and "P s"
    and "\<And>s t. scr s \<noteq> final \<Longrightarrow> P s \<Longrightarrow> dispatch scr hs s = Inr t \<Longrightarrow> P t"
  shows "P s' \<and> scr s' = final"
proof -
  have "P s \<longrightarrow> r = Inr s' \<longrightarrow> P s' \<and> scr s' = final" if "flat s = Some r" for r
    using that unfolding flat_loop_def
    by (induction rule: while_res_induct) (use assms(3) in auto)
  with assms(1,2) show ?thesis by (simp add: nested_eq_flat)
qed

text \<open>A set of states that every iteration stays in, without fault, and that excludes the final screen, is never left.\<close>

lemma nested_diverges:
  assumes "P s" and "\<And>s. P s \<Longrightarrow> scr s \<noteq> final \<and> (\<exists>t. dispatch scr hs s = Inr t \<and> P t)"
  shows "nested s = None"
proof -
  have "\<not> P s" if "flat s = Some r" for r
    using that unfolding flat_loop_def
    by (induction rule: while_res_induct) (use assms(2) in fastforce)+
  with assms(1) show ?thesis by (cases "flat s") (auto simp: nested_eq_flat)
qed

end

end
