(* ===== verification/Main_Loop.thy ===== *)
theory Main_Loop
  imports Game Driver_Loops
begin

text \<open>
  \<open>proj/src/main.c\<close>: the images, the screens and the main loop. The local variables of
  \<open>proj_main_loop\<close> extend the record of the modules' global variables. Every inner loop is one
  definition, its body one iteration (\<open>continue\<close> after a failed \<open>driver_receive\<close> is the end of an
  iteration); the nest of loops is \<open>nested_loops\<close>. The pixel maps are data files and arguments of the model,
  and so are the values of the variables that the code leaves uninitialised and the block that
  \<open>malloc\<close> returns.
\<close>


section \<open>State\<close>

record xpm_assets =
  MainScreen :: xpm_map
  PauseScreen :: xpm_map
  GOPOneWins :: xpm_map
  GOPTwoWins :: xpm_map
  Cursor :: xpm_map

text \<open>\<open>saveGameScreen\<close>: the content and the size of the block, nothing for the null pointer.\<close>

record 'w main_st = "'w prog_st" +
  imgs :: images
  hour :: u8
  pp :: packet
  counter :: u8
  bit_no_timer :: u8
  bit_no_keyboard :: u8
  bit_no_mouse :: u8
  bit_no_rtc :: u8
  printed :: bool
  startGame :: bool
  paused :: bool
  saveGameScreen :: "(mem \<times> nat) option"

text \<open>The second assignment to \<open>gameOver1\<close> is the code's; \<open>gameOver2\<close> keeps its indeterminate value.\<close>

definition load_images :: "'w sys \<Rightarrow> xpm_image \<Rightarrow> xpm_assets \<Rightarrow> images \<Rightarrow> images" where
  "load_images S uninit A i =
     (let i = i\<lparr>img_main := load_image S uninit (MainScreen A)\<rparr>;
          i = i\<lparr>img_pause := load_image S uninit (PauseScreen A)\<rparr>;
          i = i\<lparr>gameOver1 := load_image S uninit (GOPOneWins A)\<rparr>;
          i = i\<lparr>gameOver1 := load_image S uninit (GOPTwoWins A)\<rparr>;
          i = i\<lparr>cursor := load_image S uninit (Cursor A)\<rparr>
      in i)"

text \<open>\<open>memcpy\<close> of \<open>n\<close> bytes between the frame buffer and the saved screen, and \<open>memset\<close> of the frame buffer.\<close>

definition copy_block :: "nat \<Rightarrow> mem \<Rightarrow> mem \<Rightarrow> mem" where
  "copy_block n src dst = (\<lambda>k. if k < n then src k else dst k)"

definition frame_bytes :: "video_st \<Rightarrow> nat" where
  "frame_bytes v = unat (get_h_res v * get_v_res v * get_bits_per_pixel v div 8)"

definition save_screen :: "('w, 'z) main_st_scheme \<Rightarrow> fault + ('w, 'z) main_st_scheme" where
  "save_screen s =
     (let n = frame_bytes (vid s)
      in case saveGameScreen s of
           None \<Rightarrow> Inl Bad_access
         | Some (m, len) \<Rightarrow>
             if n \<le> len \<and> accessible (vid s) 0 n
             then Inr (s\<lparr>saveGameScreen := Some (copy_block n (get_video_mem (vid s)) m, len)\<rparr>)
             else Inl Bad_access)"

definition restore_screen :: "('w, 'z) main_st_scheme \<Rightarrow> fault + ('w, 'z) main_st_scheme" where
  "restore_screen s =
     (let n = frame_bytes (vid s)
      in case saveGameScreen s of
           None \<Rightarrow> Inl Bad_access
         | Some (m, len) \<Rightarrow>
             if n \<le> len \<and> accessible (vid s) 0 n
             then Inr (s\<lparr>vid := (vid s)\<lparr>video_mem := copy_block n m (get_video_mem (vid s))\<rparr>\<rparr>)
             else Inl Bad_access)"

definition clear_screen :: "video_st \<Rightarrow> fault + video_st" where
  "clear_screen v =
     (let n = unat (get_h_res v * get_v_res v * (get_bits_per_pixel v + 7) div 8)
      in if accessible v 0 n then Inr (v\<lparr>video_mem := fill_mem 0 n (video_mem v)\<rparr>)
         else Inl Bad_access)"


section \<open>The menu screens\<close>

text \<open>
  The first part of an iteration of the loops for \<open>MAIN\<close>, \<open>GOONE\<close> and \<open>GOTWO\<close>, which differ only
  in the pictures they draw.
\<close>

definition menu_enter :: "xpm_image \<Rightarrow> ('w, 'z) main_st_scheme \<Rightarrow> fault + ('w, 'z) main_st_scheme" where
  "menu_enter img s =
     (if \<not> printed s
      then bind_res (draw_img img 0 0 (vid s)) (\<lambda>v.
             Inr (s\<lparr>vid := v, printed := True, startGame := False\<rparr>))
      else Inr s)"

text \<open>What follows a complete packet: redraw, move the cursor, and select a screen on a click.\<close>

definition menu_click :: "('w, 'z) main_st_scheme \<Rightarrow> ('w, 'z) main_st_scheme" where
  "menu_click s =
     (if lb (pp s) \<and> mouseInPlace 253 288 547 313 (vid s) then s\<lparr>screenState := S_GAME\<rparr>
      else if lb (pp s) \<and> mouseInPlace 268 352 532 376 (vid s) then s\<lparr>screenState := M_GAME\<rparr>
      else if lb (pp s) \<and> mouseInPlace 358 412 442 437 (vid s) then s\<lparr>screenState := QUIT\<rparr>
      else s)"

definition menu_packet :: "xpm_image \<Rightarrow> ('w, 'z) main_st_scheme \<Rightarrow> fault + ('w, 'z) main_st_scheme" where
  "menu_packet img s =
     bind_res (draw_img img 0 0 (vid s)) (\<lambda>v.
     bind_res (mouseMovement (delta_x (pp s)) (delta_y (pp s)) (cursor (imgs s)) v) (\<lambda>v.
       Inr (menu_click (s\<lparr>vid := v\<rparr>))))"

definition menu_mouse ::
    "'w sys \<Rightarrow> xpm_image \<Rightarrow> ('w, 'z) main_st_scheme \<Rightarrow> fault + ('w, 'z) main_st_scheme" where
  "menu_mouse S img s =
     (let s = mouse_ih S s
      in bind_res (mouse_step (byteFromMouse s) (counter s) (pp s)) (\<lambda>(c, p, full).
           let s = s\<lparr>counter := c, pp := p\<rparr>
           in if full then menu_packet img s else Inr s))"

definition menu_iter ::
    "'w sys \<Rightarrow> xpm_image \<Rightarrow> xpm_image \<Rightarrow> ('w, 'z) main_st_scheme \<Rightarrow> fault + ('w, 'z) main_st_scheme" where
  "menu_iter S first again s =
     bind_res (menu_enter first s) (\<lambda>s.
       let (hw, w) = receive_hw S (world s);
           s = s\<lparr>world := w\<rparr>
       in case hw of
            None \<Rightarrow> Inr s
          | Some ints \<Rightarrow> if raised ints (bit_no_mouse s) then menu_mouse S again s else Inr s)"

definition main_iter :: "'w sys \<Rightarrow> ('w, 'z) main_st_scheme \<Rightarrow> fault + ('w, 'z) main_st_scheme" where
  "main_iter S s = menu_iter S (img_main (imgs s)) (img_main (imgs s)) s"

definition goone_iter :: "'w sys \<Rightarrow> ('w, 'z) main_st_scheme \<Rightarrow> fault + ('w, 'z) main_st_scheme" where
  "goone_iter S s = menu_iter S (gameOver1 (imgs s)) (gameOver2 (imgs s)) s"

definition gotwo_iter :: "'w sys \<Rightarrow> ('w, 'z) main_st_scheme \<Rightarrow> fault + ('w, 'z) main_st_scheme" where
  "gotwo_iter S s = menu_iter S (gameOver2 (imgs s)) (gameOver2 (imgs s)) s"


section \<open>Pause and game\<close>

definition pause_enter :: "('w, 'z) main_st_scheme \<Rightarrow> fault + ('w, 'z) main_st_scheme" where
  "pause_enter s =
     (if \<not> printed s
      then bind_res (save_screen s) (\<lambda>s.
             let s = s\<lparr>printed := True, paused := True\<rparr>
             in bind_res (draw_img (img_pause (imgs s)) 0 0 (vid s)) (\<lambda>v. Inr (s\<lparr>vid := v\<rparr>)))
      else Inr s)"

text \<open>The keyboard branch, the same in the loops for \<open>PAUSE\<close> and \<open>S_GAME\<close>.\<close>

definition key_pressed :: "'w sys \<Rightarrow> ('w, 'z) main_st_scheme \<Rightarrow> fault + ('w, 'z) main_st_scheme" where
  "key_pressed S s =
     (let s = kbc_ih S s
      in if dir (nextMove s) \<noteq> UNCHANGED
         then bind_res (move_player (nextMove s) False (vid s)) (\<lambda>(r, v).
                let s = s\<lparr>vid := v\<rparr>
                in Inr (if r = 1 then s\<lparr>screenState := QUIT\<rparr> else s))
         else Inr s)"

definition pause_iter :: "'w sys \<Rightarrow> ('w, 'z) main_st_scheme \<Rightarrow> fault + ('w, 'z) main_st_scheme" where
  "pause_iter S s =
     bind_res (pause_enter s) (\<lambda>s.
       let (hw, w) = receive_hw S (world s);
           s = s\<lparr>world := w\<rparr>
       in case hw of
            None \<Rightarrow> Inr s
          | Some ints \<Rightarrow> if raised ints (bit_no_keyboard s) then key_pressed S s else Inr s)"

text \<open>What runs once when a game starts, in the loops for \<open>S_GAME\<close> and \<open>M_GAME\<close>.\<close>

definition begin_game :: "('w, 'z) main_st_scheme \<Rightarrow> fault + ('w, 'z) main_st_scheme" where
  "begin_game s =
     (if \<not> startGame s
      then bind_res (clear_screen (vid s)) (\<lambda>v.
           bind_res (start_game (hour s) v) (\<lambda>v.
             Inr (s\<lparr>vid := v, startGame := True, printed := False\<rparr>)))
      else Inr s)"

definition sgame_enter :: "('w, 'z) main_st_scheme \<Rightarrow> fault + ('w, 'z) main_st_scheme" where
  "sgame_enter s =
     bind_res (begin_game s) (\<lambda>s.
       if paused s
       then bind_res (restore_screen s) (\<lambda>s. Inr (s\<lparr>paused := False, printed := False\<rparr>))
       else Inr s)"

text \<open>\<open>totalInterrupts % 5 == 0\<close>, for the signed counter.\<close>

definition fifth :: "u32 \<Rightarrow> bool" where
  "fifth n \<longleftrightarrow> sint n mod 5 = 0"

definition timer_tick :: "('w, 'z) main_st_scheme \<Rightarrow> fault + ('w, 'z) main_st_scheme" where
  "timer_tick s =
     (let s = timer_int_handler s
      in if fifth (totalInterrupts s)
         then bind_res (passive_move_players (vid s)) (\<lambda>(tmp, v).
                let s = s\<lparr>vid := v\<rparr>
                in Inr (if tmp = 1 then s\<lparr>screenState := GOTWO\<rparr>
                        else if tmp = 2 then s\<lparr>screenState := GOONE\<rparr>
                        else s))
         else Inr s)"

definition sgame_iter :: "'w sys \<Rightarrow> ('w, 'z) main_st_scheme \<Rightarrow> fault + ('w, 'z) main_st_scheme" where
  "sgame_iter S s =
     bind_res (sgame_enter s) (\<lambda>s.
       let (hw, w) = receive_hw S (world s);
           s = s\<lparr>world := w\<rparr>
       in case hw of
            None \<Rightarrow> Inr s
          | Some ints \<Rightarrow>
              bind_res (if raised ints (bit_no_timer s) then timer_tick s else Inr s) (\<lambda>s.
                if raised ints (bit_no_keyboard s) then key_pressed S s else Inr s))"

definition mgame_iter :: "('w, 'z) main_st_scheme \<Rightarrow> fault + ('w, 'z) main_st_scheme" where
  "mgame_iter s = begin_game s"


section \<open>The whole program\<close>

definition screen_loops ::
    "'w sys \<Rightarrow> (screenState \<times> (('w, 'z) main_st_scheme \<Rightarrow> fault + ('w, 'z) main_st_scheme)) list" where
  "screen_loops S = [(MAIN, main_iter S), (GOONE, goone_iter S), (GOTWO, gotwo_iter S),
     (PAUSE, pause_iter S), (S_GAME, sgame_iter S), (M_GAME, mgame_iter)]"

definition main_loop ::
    "'w sys \<Rightarrow> ('w, 'z) main_st_scheme \<Rightarrow> (fault + ('w, 'z) main_st_scheme) option" where
  "main_loop S = nested_loops screenState QUIT (screen_loops S)"

text \<open>
  Everything before the graphics: the images, the subscriptions and the hour. The state \<open>s\<close> has the
  initial values of the globals and of the uninitialised locals.
\<close>

definition main_subscribe ::
    "'w sys \<Rightarrow> xpm_image \<Rightarrow> xpm_assets \<Rightarrow> ('w, 'z) main_st_scheme \<Rightarrow> ('w, 'z) main_st_scheme" where
  "main_subscribe S uninit A s =
     (let s = s\<lparr>imgs := load_images S uninit A (imgs s)\<rparr>;
          s = s\<lparr>counter := 0\<rparr>;
          (b, _, s) = timer_subscribe_int S s; s = s\<lparr>bit_no_timer := b\<rparr>;
          (b, _, s) = keyboard_subscribe_int S s; s = s\<lparr>bit_no_keyboard := b\<rparr>;
          (_, w) = mouse_enable_data_reporting S (world s); s = s\<lparr>world := w\<rparr>;
          (b, _, s) = mouse_subscribe_int S s; s = s\<lparr>bit_no_mouse := b\<rparr>;
          (b, _, s) = rtc_subscribe_int S s; s = s\<lparr>bit_no_rtc := b\<rparr>;
          (_, h, s) = read_hours S (hour s) s; s = s\<lparr>hour := h\<rparr>
      in s)"

text \<open>
  Everything before the loop. \<open>alloc\<close> is what \<open>malloc\<close> returns for a size. The result is the value
  the function returns early with, if it does, and the state.
\<close>

definition main_setup ::
    "'w sys \<Rightarrow> xpm_image \<Rightarrow> xpm_assets \<Rightarrow> (nat \<Rightarrow> (mem \<times> nat) option)
       \<Rightarrow> ('w, 'z) main_st_scheme \<Rightarrow> fault + (int option \<times> ('w, 'z) main_st_scheme)" where
  "main_setup S uninit A alloc s =
     bind_res (new_vg_init S 0x115 (main_subscribe S uninit A s)) (\<lambda>(r, s).
       if r \<noteq> 0 then Inr (Some 1, s)
       else
         let s = s\<lparr>printed := False, startGame := False, paused := False,
                   saveGameScreen := alloc (frame_bytes (vid s))\<rparr>
         in bind_res (setMouseInitPos (cursor (imgs s)) (vid s)) (\<lambda>v. Inr (None, s\<lparr>vid := v\<rparr>)))"

definition main_teardown :: "'w sys \<Rightarrow> ('w, 'z) main_st_scheme \<Rightarrow> ('w, 'z) main_st_scheme" where
  "main_teardown S s =
     (let (_, w) = vg_exit S (world s); s = s\<lparr>world := w\<rparr>;
          (_, s) = keyboard_unsubscribe_int S s;
          (_, s) = timer_unsubscribe_int S s;
          (_, s) = mouse_unsubscribe_int S s;
          (_, s) = rtc_unsubscribe_int S s
      in s)"

definition proj_main_loop ::
    "'w sys \<Rightarrow> xpm_image \<Rightarrow> xpm_assets \<Rightarrow> (nat \<Rightarrow> (mem \<times> nat) option)
       \<Rightarrow> ('w, 'z) main_st_scheme \<Rightarrow> (fault + (int \<times> ('w, 'z) main_st_scheme)) option" where
  "proj_main_loop S uninit A alloc s =
     then_res (Some (main_setup S uninit A alloc s)) (\<lambda>(r, s).
       case r of
         Some k \<Rightarrow> Some (Inr (k, s))
       | None \<Rightarrow> then_res (main_loop S s) (\<lambda>s. Some (Inr (0, main_teardown S s))))"


section \<open>What the operations leave alone\<close>

definition same_geom :: "video_st \<Rightarrow> video_st \<Rightarrow> bool" where
  "same_geom v v' \<longleftrightarrow> h_res v' = h_res v \<and> v_res v' = v_res v
     \<and> bytes_per_pixel v' = bytes_per_pixel v \<and> mapped v' = mapped v"

lemma same_geom_refl [simp]: "same_geom v v"
  by (simp add: same_geom_def)

lemma same_geom_trans: "same_geom u v \<Longrightarrow> same_geom v w \<Longrightarrow> same_geom u w"
  by (simp add: same_geom_def)

lemma frame_rest_same_geom: "frame_rest v' = frame_rest v \<Longrightarrow> same_geom v v'"
  by (auto dest: frame_rest_eqD simp: same_geom_def)

lemma draw_img_geom: "draw_img img x y v = Inr v' \<Longrightarrow> same_geom v v'"
proof -
  assume "draw_img img x y v = Inr v'"
  then have "frame_rest v' = frame_rest v"
    unfolding draw_img_def Let_def by (rule for_n_preserves) (auto split: if_splits)
  then show ?thesis by (rule frame_rest_same_geom)
qed

lemma vg_draw_rectangle_geom: "vg_draw_rectangle x y wd ht c v = Inr (f, v') \<Longrightarrow> frame_rest v' = frame_rest v"
proof -
  assume "vg_draw_rectangle x y wd ht c v = Inr (f, v')"
  then have "for_n (unat ht) (\<lambda>j. vg_draw_hline x (y + of_nat j) wd c) v = Inr v'"
    unfolding vg_draw_rectangle_def bind_res_eq_Inr_iff Let_def by blast
  then show ?thesis
    by (rule for_n_preserves) (simp_all add: vg_draw_hline_Inr(1))
qed

lemma draw_front_end_geom: "draw_front_end p c q v = Inr (r, v') \<Longrightarrow> same_geom v v'"
proof -
  assume "draw_front_end p c q v = Inr (r, v')"
  then obtain f u where u: "vg_draw_rectangle (pos_x q) (pos_y q) SIZE_FRONT_END SIZE_FRONT_END c v = Inr (f, u)"
    and v': "v' = (if p = BLUE then u\<lparr>bluePlayer := q\<rparr> else u\<lparr>orangePlayer := q\<rparr>)"
    unfolding draw_front_end_def bind_res_eq_Inr_iff by auto
  show ?thesis
    using frame_rest_same_geom [OF vg_draw_rectangle_geom [OF u]] by (simp add: v' same_geom_def)
qed

lemma move_player_geom: "move_player m passive v = Inr (r, v') \<Longrightarrow> same_geom v v'"
  using draw_front_end_geom move_player_acts [of m "passive" v] move_player_ignored [of m "passive" v]
    move_player_unchanged [of m "passive" v]
  by (cases "ignored m passive v"; cases "dir m = UNCHANGED") auto

lemma passive_move_players_geom: "passive_move_players v = Inr (r, v') \<Longrightarrow> same_geom v v'"
  by (auto simp: passive_move_players_def bind_res_eq_Inr_iff Let_def split: if_splits
      dest!: move_player_geom intro: same_geom_trans)

lemma mouseMovement_geom: "mouseMovement x y cur v = Inr v' \<Longrightarrow> same_geom v v'"
  by (auto simp: mouseMovement_def Let_def same_geom_def dest!: draw_img_geom)

lemma start_game_geom: "start_game h v = Inr v' \<Longrightarrow> same_geom v v'"
  by (auto simp: start_game_def Let_def same_geom_def split: if_splits)

lemma clear_screen_geom: "clear_screen v = Inr v' \<Longrightarrow> same_geom v v'"
  by (auto simp: clear_screen_def Let_def same_geom_def split: if_splits)

lemma frame_bytes_geom: "same_geom v v' \<Longrightarrow> frame_bytes v' = frame_bytes v"
  by (simp add: same_geom_def frame_bytes_def get_h_res_def get_v_res_def get_bits_per_pixel_def)

text \<open>The interrupt handlers do not touch the variables of the main program.\<close>

lemma kbc_ih_main [simp]:
  fixes s :: "('w, 'z) main_st_scheme"
  shows "vid (kbc_ih S s) = vid s" "imgs (kbc_ih S s) = imgs s" "hour (kbc_ih S s) = hour s"
    "pp (kbc_ih S s) = pp s" "counter (kbc_ih S s) = counter s"
    "printed (kbc_ih S s) = printed s" "startGame (kbc_ih S s) = startGame s"
    "paused (kbc_ih S s) = paused s" "saveGameScreen (kbc_ih S s) = saveGameScreen s"
    "bit_no_keyboard (kbc_ih S s) = bit_no_keyboard s" "bit_no_timer (kbc_ih S s) = bit_no_timer s"
    "bit_no_mouse (kbc_ih S s) = bit_no_mouse s"
  by (simp_all add: kbc_ih_eq kbc_read2_def Let_def)

lemma mouse_ih_main [simp]:
  fixes s :: "('w, 'z) main_st_scheme"
  shows "vid (mouse_ih S s) = vid s" "imgs (mouse_ih S s) = imgs s" "hour (mouse_ih S s) = hour s"
    "pp (mouse_ih S s) = pp s" "counter (mouse_ih S s) = counter s"
    "printed (mouse_ih S s) = printed s" "startGame (mouse_ih S s) = startGame s"
    "paused (mouse_ih S s) = paused s" "saveGameScreen (mouse_ih S s) = saveGameScreen s"
    "screenState (mouse_ih S s) = screenState s" "nextMove (mouse_ih S s) = nextMove s"
    "bit_no_keyboard (mouse_ih S s) = bit_no_keyboard s" "bit_no_timer (mouse_ih S s) = bit_no_timer s"
    "bit_no_mouse (mouse_ih S s) = bit_no_mouse s"
  by (simp_all add: mouse_ih_def util_sys_inb_eq Let_def)

lemma timer_int_handler_main [simp]:
  fixes s :: "('w, 'z) main_st_scheme"
  shows "vid (timer_int_handler s) = vid s" "screenState (timer_int_handler s) = screenState s"
    "printed (timer_int_handler s) = printed s" "startGame (timer_int_handler s) = startGame s"
    "paused (timer_int_handler s) = paused s" "counter (timer_int_handler s) = counter s"
    "saveGameScreen (timer_int_handler s) = saveGameScreen s" "pp (timer_int_handler s) = pp s"
    "bit_no_keyboard (timer_int_handler s) = bit_no_keyboard s"
    "totalInterrupts (timer_int_handler s) = totalInterrupts s + 1"
  by (simp_all add: timer_int_handler_def)


section \<open>Effects of the parts of an iteration\<close>

lemma menu_enterD:
  assumes "menu_enter img s = Inr s'"
  shows "screenState s' = screenState s" "printed s'" "printed s \<or> \<not> startGame s'" "printed s \<longrightarrow> s' = s"
    "paused s' = paused s" "counter s' = counter s" "pp s' = pp s" "imgs s' = imgs s"
    "saveGameScreen s' = saveGameScreen s" "same_geom (vid s) (vid s')"
  using assms
  by (auto simp: menu_enter_def bind_res_eq_Inr_iff split: if_splits dest: draw_img_geom)

lemma menu_click_simps [simp]:
  "vid (menu_click s) = vid s" "printed (menu_click s) = printed s" "startGame (menu_click s) = startGame s"
  "paused (menu_click s) = paused s" "counter (menu_click s) = counter s" "pp (menu_click s) = pp s"
  "imgs (menu_click s) = imgs s" "saveGameScreen (menu_click s) = saveGameScreen s"
  by (simp_all add: menu_click_def)

lemma menu_click_screen: "screenState (menu_click s) \<in> {screenState s, S_GAME, M_GAME, QUIT}"
  by (simp add: menu_click_def)

lemma menu_packetD:
  assumes "menu_packet img s = Inr s'"
  shows "screenState s' \<in> {screenState s, S_GAME, M_GAME, QUIT}" "printed s' = printed s"
    "startGame s' = startGame s" "paused s' = paused s" "counter s' = counter s" "pp s' = pp s"
    "imgs s' = imgs s" "saveGameScreen s' = saveGameScreen s" "same_geom (vid s) (vid s')"
proof -
  obtain u v where v: "draw_img img 0 0 (vid s) = Inr u"
    "mouseMovement (delta_x (pp s)) (delta_y (pp s)) (cursor (imgs s)) u = Inr v"
    and s': "s' = menu_click (s\<lparr>vid := v\<rparr>)"
    using assms by (auto simp: menu_packet_def bind_res_eq_Inr_iff)
  show "screenState s' \<in> {screenState s, S_GAME, M_GAME, QUIT}"
    using menu_click_screen [of "s\<lparr>vid := v\<rparr>"] by (simp add: s')
  show "same_geom (vid s) (vid s')"
    using same_geom_trans [OF draw_img_geom [OF v(1)] mouseMovement_geom [OF v(2)]] by (simp add: s')
qed (use assms in \<open>auto simp: menu_packet_def bind_res_eq_Inr_iff\<close>)


lemma menu_mouseD:
  assumes "menu_mouse S img s = Inr s'"
  shows "screenState s' \<in> {screenState s, S_GAME, M_GAME, QUIT}" "printed s' = printed s"
    "startGame s' = startGame s" "paused s' = paused s"
    "saveGameScreen s' = saveGameScreen s" "same_geom (vid s) (vid s')"
    "\<exists>full. mouse_step (byteFromMouse (mouse_ih S s)) (counter s) (pp s) = Inr (counter s', pp s', full)"
proof -
  obtain c p full where st: "mouse_step (byteFromMouse (mouse_ih S s)) (counter s) (pp s) = Inr (c, p, full)"
    and s': "(if full then menu_packet img ((mouse_ih S s)\<lparr>counter := c, pp := p\<rparr>)
              else Inr ((mouse_ih S s)\<lparr>counter := c, pp := p\<rparr>)) = Inr s'"
    using assms by (auto simp: menu_mouse_def bind_res_eq_Inr_iff Let_def split: prod.splits)
  show "screenState s' \<in> {screenState s, S_GAME, M_GAME, QUIT}" "printed s' = printed s"
    "startGame s' = startGame s" "paused s' = paused s"
    "saveGameScreen s' = saveGameScreen s" "same_geom (vid s) (vid s')"
    "\<exists>full. mouse_step (byteFromMouse (mouse_ih S s)) (counter s) (pp s) = Inr (counter s', pp s', full)"
    using s' st menu_packetD [of img "(mouse_ih S s)\<lparr>counter := c, pp := p\<rparr>" s']
    by (auto split: if_splits)
qed

text \<open>The common middle of the iterations: a message is received and handed to the screen's reaction \<open>F\<close>.\<close>

lemma receive_cases:
  fixes s :: "('w, 'z) main_st_scheme"
  assumes "(let (hw, w) = receive_hw S (world s); s = s\<lparr>world := w\<rparr>
            in case hw of None \<Rightarrow> Inr s | Some ints \<Rightarrow> F ints s) = Inr s'"
  obtains w ints where "s' = s\<lparr>world := w\<rparr> \<or> F ints (s\<lparr>world := w\<rparr>) = Inr s'"
proof (cases "receive_hw S (world s)")
  case (Pair hw w)
  then show ?thesis
    using assms that [of w] by (cases hw) auto
qed

text \<open>
  One iteration of a menu. \<open>mid\<close> is the state after the picture was drawn and a message was received.
\<close>

lemma menu_iter_cases:
  assumes "menu_iter S a b s = Inr s'"
  obtains mid w where "menu_enter a s = Inr mid"
    "s' = mid\<lparr>world := w\<rparr> \<or> menu_mouse S b (mid\<lparr>world := w\<rparr>) = Inr s'"
proof -
  obtain mid where mid: "menu_enter a s = Inr mid"
    and r: "(let (hw, w) = receive_hw S (world mid); s = mid\<lparr>world := w\<rparr> in case hw of None \<Rightarrow> Inr s
      | Some ints \<Rightarrow> if raised ints (bit_no_mouse s) then menu_mouse S b s else Inr s) = Inr s'"
    using assms unfolding menu_iter_def bind_res_eq_Inr_iff by blast
  from r show ?thesis
    by (rule receive_cases) (use mid that in \<open>auto split: if_splits\<close>)
qed

lemma menu_iterD:
  assumes "menu_iter S a b s = Inr s'"
  shows "screenState s' \<in> {screenState s, S_GAME, M_GAME, QUIT}" "printed s'"
    "printed s \<or> \<not> startGame s'" "printed s \<longrightarrow> startGame s' = startGame s"
    "paused s' = paused s" "saveGameScreen s' = saveGameScreen s" "same_geom (vid s) (vid s')"
proof -
  obtain mid w where m: "menu_enter a s = Inr mid"
    and s': "s' = mid\<lparr>world := w\<rparr> \<or> menu_mouse S b (mid\<lparr>world := w\<rparr>) = Inr s'"
    using assms by (rule menu_iter_cases)
  note e = menu_enterD [OF m]
  from s' show "screenState s' \<in> {screenState s, S_GAME, M_GAME, QUIT}" "printed s'"
    "printed s \<or> \<not> startGame s'" "printed s \<longrightarrow> startGame s' = startGame s"
    "paused s' = paused s" "saveGameScreen s' = saveGameScreen s" "same_geom (vid s) (vid s')"
    using e menu_mouseD [of S b "mid\<lparr>world := w\<rparr>" s'] by (auto intro: same_geom_trans)
qed

lemma key_pressedD:
  assumes "key_pressed S s = Inr s'"
  shows "screenState s' \<in> {screenState s, toggle_pause (screenState s), QUIT}"
    "printed s' = printed s" "startGame s' = startGame s" "paused s' = paused s"
    "saveGameScreen s' = saveGameScreen s" "same_geom (vid s) (vid s')"
    "counter s' = counter s" "pp s' = pp s"
proof -
  have k: "screenState (kbc_ih S s) \<in> {screenState s, toggle_pause (screenState s)}"
    by (simp add: screenState_kbc_ih)
  show "screenState s' \<in> {screenState s, toggle_pause (screenState s), QUIT}"
    "printed s' = printed s" "startGame s' = startGame s" "paused s' = paused s"
    "saveGameScreen s' = saveGameScreen s" "same_geom (vid s) (vid s')"
    "counter s' = counter s" "pp s' = pp s"
    using assms k
    by (auto simp: key_pressed_def bind_res_eq_Inr_iff Let_def split: if_splits dest: move_player_geom)
qed

lemma save_screenD:
  assumes "save_screen s = Inr s'"
  obtains m len where "saveGameScreen s = Some (m, len)" "frame_bytes (vid s) \<le> len"
    "accessible (vid s) 0 (frame_bytes (vid s))"
    "s' = s\<lparr>saveGameScreen := Some (copy_block (frame_bytes (vid s)) (video_mem (vid s)) m, len)\<rparr>"
  using assms by (auto simp: save_screen_def Let_def get_video_mem_def split: option.splits if_splits)

lemma restore_screenD:
  assumes "restore_screen s = Inr s'"
  obtains m len where "saveGameScreen s = Some (m, len)"
    "s' = s\<lparr>vid := (vid s)\<lparr>video_mem := copy_block (frame_bytes (vid s)) m (video_mem (vid s))\<rparr>\<rparr>"
  using assms by (auto simp: restore_screen_def Let_def get_video_mem_def split: option.splits if_splits)

lemma pause_enterD:
  assumes "pause_enter s = Inr s'"
  shows "screenState s' = screenState s" "startGame s' = startGame s" "printed s'"
    "paused s' = (paused s \<or> \<not> printed s)" "same_geom (vid s) (vid s')"
    "counter s' = counter s" "pp s' = pp s" "printed s \<longrightarrow> s' = s"
proof -
  show "screenState s' = screenState s" "startGame s' = startGame s" "printed s'"
    "paused s' = (paused s \<or> \<not> printed s)" "same_geom (vid s) (vid s')"
    "counter s' = counter s" "pp s' = pp s" "printed s \<longrightarrow> s' = s"
    using assms
    by (auto simp: pause_enter_def bind_res_eq_Inr_iff Let_def split: if_splits
        elim!: save_screenD dest: draw_img_geom)
qed

lemma pause_iter_cases:
  assumes "pause_iter S s = Inr s'"
  obtains mid w where "pause_enter s = Inr mid"
    "s' = mid\<lparr>world := w\<rparr> \<or> key_pressed S (mid\<lparr>world := w\<rparr>) = Inr s'"
proof -
  obtain mid where mid: "pause_enter s = Inr mid"
    and r: "(let (hw, w) = receive_hw S (world mid); s = mid\<lparr>world := w\<rparr> in case hw of None \<Rightarrow> Inr s
      | Some ints \<Rightarrow> if raised ints (bit_no_keyboard s) then key_pressed S s else Inr s) = Inr s'"
    using assms unfolding pause_iter_def bind_res_eq_Inr_iff by blast
  from r show ?thesis
    by (rule receive_cases) (use mid that in \<open>auto split: if_splits\<close>)
qed

lemma begin_gameD:
  assumes "begin_game s = Inr s'"
  shows "screenState s' = screenState s" "startGame s'" "paused s' = paused s"
    "printed s' = (printed s \<and> startGame s)" "startGame s \<longrightarrow> s' = s" "same_geom (vid s) (vid s')"
    "saveGameScreen s' = saveGameScreen s" "counter s' = counter s" "pp s' = pp s"
  using assms
  by (auto simp: begin_game_def bind_res_eq_Inr_iff split: if_splits
      dest!: clear_screen_geom start_game_geom intro: same_geom_trans)

lemma sgame_enterD:
  assumes "sgame_enter s = Inr s'"
  shows "screenState s' = screenState s" "startGame s'" "\<not> paused s'"
    "printed s' = (printed s \<and> startGame s \<and> \<not> paused s)" "same_geom (vid s) (vid s')"
    "counter s' = counter s" "pp s' = pp s"
proof -
  obtain t where t: "begin_game s = Inr t"
    and s': "(if paused t then bind_res (restore_screen t) (\<lambda>s. Inr (s\<lparr>paused := False, printed := False\<rparr>))
              else Inr t) = Inr s'"
    using assms by (auto simp: sgame_enter_def bind_res_eq_Inr_iff)
  show "screenState s' = screenState s" "startGame s'" "\<not> paused s'"
    "printed s' = (printed s \<and> startGame s \<and> \<not> paused s)" "same_geom (vid s) (vid s')"
    "counter s' = counter s" "pp s' = pp s"
    using s' begin_gameD [OF t]
    by (auto simp: bind_res_eq_Inr_iff same_geom_def split: if_splits elim!: restore_screenD)
qed

lemma timer_tick_cases:
  assumes "timer_tick s = Inr s'"
  obtains (tick) r v where "passive_move_players (vid s) = Inr (r, v)"
      "s' = (timer_int_handler s)\<lparr>vid := v,
         screenState := (if r = 1 then GOTWO else if r = 2 then GOONE else screenState s)\<rparr>"
  | (idle) "s' = timer_int_handler s"
proof (cases "fifth (totalInterrupts s + 1)")
  case True
  then have "bind_res (passive_move_players (vid s)) (\<lambda>(r, v).
      Inr (let s = (timer_int_handler s)\<lparr>vid := v\<rparr> in if r = 1 then s\<lparr>screenState := GOTWO\<rparr>
           else if r = 2 then s\<lparr>screenState := GOONE\<rparr> else s)) = Inr s'"
    using assms by (auto simp: timer_tick_def Let_def)
  then obtain r v where p: "passive_move_players (vid s) = Inr (r, v)"
    and s': "s' = (let s = (timer_int_handler s)\<lparr>vid := v\<rparr> in if r = 1 then s\<lparr>screenState := GOTWO\<rparr>
           else if r = 2 then s\<lparr>screenState := GOONE\<rparr> else s)"
    unfolding bind_res_eq_Inr_iff by auto
  show ?thesis by (rule tick [OF p]) (simp add: s' Let_def)
next
  case False
  then show ?thesis using assms by (intro idle) (simp add: timer_tick_def Let_def)
qed

lemma timer_tickD:
  assumes "timer_tick s = Inr s'"
  shows "screenState s' \<in> {screenState s, GOTWO, GOONE}" "printed s' = printed s"
    "startGame s' = startGame s" "paused s' = paused s" "same_geom (vid s) (vid s')"
    "saveGameScreen s' = saveGameScreen s" "counter s' = counter s" "pp s' = pp s"
  by (rule timer_tick_cases [OF assms]; simp add: passive_move_players_geom)+

lemma sgame_iter_cases:
  assumes "sgame_iter S s = Inr s'"
  obtains mid w t where "sgame_enter s = Inr mid"
    "t = mid\<lparr>world := w\<rparr> \<or> timer_tick (mid\<lparr>world := w\<rparr>) = Inr t"
    "s' = t \<or> key_pressed S t = Inr s'"
proof -
  obtain mid where mid: "sgame_enter s = Inr mid"
    and r: "(let (hw, w) = receive_hw S (world mid); s = mid\<lparr>world := w\<rparr> in case hw of None \<Rightarrow> Inr s
      | Some ints \<Rightarrow> bind_res (if raised ints (bit_no_timer s) then timer_tick s else Inr s) (\<lambda>s.
                if raised ints (bit_no_keyboard s) then key_pressed S s else Inr s)) = Inr s'"
    using assms unfolding sgame_iter_def bind_res_eq_Inr_iff by blast
  from r show ?thesis
  proof (rule receive_cases)
    fix w ints
    assume "s' = mid\<lparr>world := w\<rparr> \<or> bind_res (if raised ints (bit_no_timer (mid\<lparr>world := w\<rparr>))
        then timer_tick (mid\<lparr>world := w\<rparr>) else Inr (mid\<lparr>world := w\<rparr>)) (\<lambda>s.
        if raised ints (bit_no_keyboard s) then key_pressed S s else Inr s) = Inr s'"
    then show ?thesis
      unfolding bind_res_eq_Inr_iff using that [OF mid]
      by (metis (no_types, lifting) Inr_inject)
  qed
qed


section \<open>One loop that dispatches on the screen\<close>

definition screen_iter :: "'w sys \<Rightarrow> ('w, 'z) main_st_scheme \<Rightarrow> fault + ('w, 'z) main_st_scheme" where
  "screen_iter S s = (case screenState s of
       MAIN \<Rightarrow> main_iter S s
     | GOONE \<Rightarrow> goone_iter S s
     | GOTWO \<Rightarrow> gotwo_iter S s
     | PAUSE \<Rightarrow> pause_iter S s
     | S_GAME \<Rightarrow> sgame_iter S s
     | M_GAME \<Rightarrow> mgame_iter s
     | QUIT \<Rightarrow> Inr s)"

interpretation loops: screens screenState QUIT "screen_loops S" for S
proof
  fix k
  assume "k \<noteq> QUIT"
  then show "k \<in> fst ` set (screen_loops S)"
    by (cases k) (simp_all add: screen_loops_def)
qed (simp_all add: screen_loops_def)

lemma dispatch_screen_iter: "dispatch screenState (screen_loops S) s = screen_iter S s"
  by (cases "screenState s") (simp_all add: dispatch_def screen_loops_def screen_iter_def)

lemma main_loop_flat:
  "main_loop S s = while_res (\<lambda>s. screenState s \<noteq> QUIT) (\<lambda>s. Some (screen_iter S s)) s"
  unfolding main_loop_def loops.nested_eq_flat flat_loop_def dispatch_screen_iter ..

text \<open>The states the program goes through, one iteration after the other.\<close>

inductive reaches :: "'w sys \<Rightarrow> ('w, 'z) main_st_scheme \<Rightarrow> ('w, 'z) main_st_scheme \<Rightarrow> bool" for S s where
  reaches_refl: "reaches S s s"
| reaches_step: "reaches S s t \<Longrightarrow> screenState t \<noteq> QUIT \<Longrightarrow> screen_iter S t = Inr u \<Longrightarrow> reaches S s u"

text \<open>The screens as the player sees them.\<close>

inductive screen_step :: "screenState \<Rightarrow> screenState \<Rightarrow> bool" where
  stay: "screen_step a a"
| click: "a \<in> {MAIN, GOONE, GOTWO} \<Longrightarrow> b \<in> {S_GAME, M_GAME, QUIT} \<Longrightarrow> screen_step a b"
| pause: "screen_step S_GAME PAUSE"
| resume: "screen_step PAUSE S_GAME"
| crash_blue: "screen_step S_GAME GOTWO"
| crash_orange: "screen_step S_GAME GOONE"
| crash_key: "a \<in> {S_GAME, PAUSE} \<Longrightarrow> screen_step a QUIT"

inductive_simps screen_step_to_MAIN: "screen_step a MAIN"
inductive_simps screen_step_from_M_GAME: "screen_step M_GAME b"
inductive_cases screen_step_to_game_over: "screen_step a GOONE"

lemma menu_screen_step:
  assumes "menu_iter S a b s = Inr s'" and "screenState s \<in> {MAIN, GOONE, GOTWO}"
  shows "screen_step (screenState s) (screenState s')"
  using menu_iterD(1) [OF assms(1)] assms(2) by (auto intro: screen_step.intros)

lemma key_screen_step:
  assumes "key_pressed S s = Inr s'" and "screenState s \<in> {S_GAME, PAUSE, GOONE, GOTWO}"
  shows "screen_step (if screenState s = PAUSE then PAUSE else S_GAME) (screenState s')"
  using key_pressedD(1) [OF assms(1)] assms(2)
  by (auto simp: toggle_pause_def intro: screen_step.intros)

text \<open>What an iteration does, by screen.\<close>

lemma screen_iter_cases:
  assumes "screen_iter S s = Inr s'"
  obtains (menu) a b where "screenState s \<in> {MAIN, GOONE, GOTWO}" "menu_iter S a b s = Inr s'"
  | (halted) mid w where "screenState s = PAUSE" "pause_enter s = Inr mid"
      "s' = mid\<lparr>world := w\<rparr> \<or> key_pressed S (mid\<lparr>world := w\<rparr>) = Inr s'"
  | (game) mid w t where "screenState s = S_GAME" "sgame_enter s = Inr mid"
      "t = mid\<lparr>world := w\<rparr> \<or> timer_tick (mid\<lparr>world := w\<rparr>) = Inr t"
      "s' = t \<or> key_pressed S t = Inr s'"
  | (multi) "screenState s = M_GAME" "begin_game s = Inr s'"
  | (over) "screenState s = QUIT" "s' = s"
proof (cases "screenState s")
  case PAUSE
  then have "pause_iter S s = Inr s'" using assms by (simp add: screen_iter_def)
  then show ?thesis by (rule pause_iter_cases) (rule halted [OF PAUSE])
next
  case S_GAME
  then have "sgame_iter S s = Inr s'" using assms by (simp add: screen_iter_def)
  then show ?thesis by (rule sgame_iter_cases) (rule game [OF S_GAME])
next
  case MAIN
  then show ?thesis using assms by (intro menu) (simp_all add: screen_iter_def main_iter_def)
next
  case GOONE
  then show ?thesis using assms by (intro menu) (simp_all add: screen_iter_def goone_iter_def)
next
  case GOTWO
  then show ?thesis using assms by (intro menu) (simp_all add: screen_iter_def gotwo_iter_def)
next
  case M_GAME
  then show ?thesis using assms by (intro multi) (simp_all add: screen_iter_def mgame_iter_def)
next
  case QUIT
  then show ?thesis using assms by (intro over) (simp_all add: screen_iter_def)
qed

lemma screen_iter_step:
  assumes "screen_iter S s = Inr s'"
  shows "screen_step (screenState s) (screenState s')"
  using assms
proof (cases rule: screen_iter_cases)
  case (menu a b)
  then show ?thesis by (rule menu_screen_step [rotated])
next
  case (halted mid w)
  then show ?thesis
    using key_screen_step [of S "mid\<lparr>world := w\<rparr>" s'] pause_enterD(1) [of s mid]
    by (auto intro: screen_step.intros)
next
  case (game mid w t)
  then have "screenState t \<in> {S_GAME, GOTWO, GOONE}"
    using sgame_enterD(1) [of s mid] timer_tickD(1) [of "mid\<lparr>world := w\<rparr>" t] by auto
  with game key_screen_step [of S t s'] show ?thesis
    by (auto intro: screen_step.intros split: if_splits)
qed (auto simp: begin_gameD(1) intro: screen_step.stay)


section \<open>Invariants\<close>

definition packet_ok :: "('w, 'z) main_st_scheme \<Rightarrow> bool" where
  "packet_ok s \<longleftrightarrow> counter s < 3 \<and> length (pbytes (pp s)) = 3"

text \<open>How the three flags and the screen go together.\<close>

definition phase_ok :: "('w, 'z) main_st_scheme \<Rightarrow> bool" where
  "phase_ok s \<longleftrightarrow> (case screenState s of
       PAUSE \<Rightarrow> startGame s \<and> paused s = printed s
     | S_GAME \<Rightarrow> (if startGame s then paused s \<or> \<not> printed s else \<not> paused s)
     | QUIT \<Rightarrow> True
     | M_GAME \<Rightarrow> \<not> paused s
     | _ \<Rightarrow> \<not> paused s \<and> \<not> (printed s \<and> startGame s))"

lemma menu_mouse_packet_ok:
  assumes "menu_mouse S b s = Inr s'" and "packet_ok s"
  shows "packet_ok s'"
proof -
  obtain full where st: "mouse_step (byteFromMouse (mouse_ih S s)) (counter s) (pp s) = Inr (counter s', pp s', full)"
    using menu_mouseD(7) [OF assms(1)] by blast
  have c: "counter s < 3" "length (pbytes (pp s)) = 3" using assms(2) by (simp_all add: packet_ok_def)
  show ?thesis
    using mouse_step_invariant [OF c, of "byteFromMouse (mouse_ih S s)"] st by (auto simp: packet_ok_def)
qed

lemma menu_iter_packet_ok:
  assumes "menu_iter S a b s = Inr s'" and "packet_ok s"
  shows "packet_ok s'"
proof -
  obtain mid w where mid: "menu_enter a s = Inr mid"
    and s': "s' = mid\<lparr>world := w\<rparr> \<or> menu_mouse S b (mid\<lparr>world := w\<rparr>) = Inr s'"
    using assms(1) by (rule menu_iter_cases)
  have "packet_ok (mid\<lparr>world := w\<rparr>)"
    using menu_enterD(6,7) [OF mid] assms(2) by (simp add: packet_ok_def)
  with s' menu_mouse_packet_ok show ?thesis by blast
qed

lemma screen_iter_packet_ok:
  assumes "screen_iter S s = Inr s'" and ok: "packet_ok s"
  shows "packet_ok s'"
  using assms(1)
proof (cases rule: screen_iter_cases)
  case (menu a b)
  then show ?thesis using ok menu_iter_packet_ok by blast
next
  case (halted mid w)
  then show ?thesis
    using key_pressedD(7,8) [of S "mid\<lparr>world := w\<rparr>" s'] pause_enterD(6,7) [of s mid] ok
    by (auto simp: packet_ok_def)
next
  case (game mid w t)
  then have "counter t = counter s" "pp t = pp s"
    using sgame_enterD(6,7) [of s mid] timer_tickD(7,8) [of "mid\<lparr>world := w\<rparr>" t] by auto
  with game key_pressedD(7,8) [of S t s'] ok show ?thesis
    by (auto simp: packet_ok_def)
qed (use ok in \<open>auto simp: packet_ok_def begin_gameD(8,9)\<close>)

lemma menu_iter_phase_ok:
  assumes "menu_iter S a b s = Inr s'" and "phase_ok s" and sc: "screenState s \<in> {MAIN, GOONE, GOTWO}"
  shows "phase_ok s'"
proof -
  have "\<not> paused s" "\<not> (printed s \<and> startGame s)"
    using assms(2) sc by (auto simp: phase_ok_def)
  moreover note d = menu_iterD [OF assms(1)]
  ultimately have "\<not> paused s'" "printed s'" "\<not> startGame s'" by auto
  with d(1) sc show ?thesis by (auto simp: phase_ok_def)
qed

lemma key_pressed_phase_ok:
  assumes "key_pressed S s = Inr s'" and "startGame s" and
    "if screenState s = PAUSE then paused s \<and> printed s
     else screenState s \<in> {S_GAME, GOONE, GOTWO} \<and> \<not> paused s \<and> \<not> printed s"
  shows "phase_ok s'"
  using key_pressedD(1-4) [OF assms(1)] assms(2,3)
  by (auto simp: phase_ok_def toggle_pause_def split: if_splits)

lemma screen_iter_phase_ok:
  assumes "screen_iter S s = Inr s'" and ok: "phase_ok s"
  shows "phase_ok s'"
  using assms(1)
proof (cases rule: screen_iter_cases)
  case (menu a b)
  then show ?thesis using ok menu_iter_phase_ok by blast
next
  case (halted mid w)
  then have "startGame s" "paused s = printed s" using ok by (simp_all add: phase_ok_def)
  then have mid: "startGame mid" "paused mid" "printed mid" "screenState mid = PAUSE"
    using pause_enterD [of s mid] halted by auto
  from halted(3) show ?thesis
  proof
    assume "key_pressed S (mid\<lparr>world := w\<rparr>) = Inr s'"
    then show ?thesis by (rule key_pressed_phase_ok) (use mid in simp_all)
  qed (use mid in \<open>simp add: phase_ok_def\<close>)
next
  case (game mid w t)
  then have "startGame mid" "\<not> paused mid" "\<not> printed mid" "screenState mid = S_GAME"
    using sgame_enterD [of s mid] ok by (auto simp: phase_ok_def split: if_splits)
  then have t: "startGame t" "\<not> paused t" "\<not> printed t" "screenState t \<in> {S_GAME, GOTWO, GOONE}"
    using game(3) timer_tickD [of "mid\<lparr>world := w\<rparr>" t] by auto
  from game(4) show ?thesis
  proof
    assume "key_pressed S t = Inr s'"
    then show ?thesis by (rule key_pressed_phase_ok) (use t in auto)
  qed (use t in \<open>auto simp: phase_ok_def\<close>)
qed (use ok in \<open>auto simp: phase_ok_def begin_gameD\<close>)


section \<open>The game loop and the abstract game\<close>

lemma timer_tick_tron:
  assumes ok: "tron_ok (vid s)" and "fifth (totalInterrupts s + 1)"
    and t: "tron_tick (tron_of (vid s)) = Some (r, t')"
  obtains v where "tron_ok v" "tron_of v = t'"
    "timer_tick s = Inr ((timer_int_handler s)\<lparr>vid := v,
       screenState := (if r = 1 then GOTWO else if r = 2 then GOONE else screenState s)\<rparr>)"
proof -
  obtain v where "passive_move_players (vid s) = Inr (r, v)" "tron_ok v" "tron_of v = t'"
    using passive_move_players_tron [OF ok t] .
  with assms(2) show ?thesis
    by (intro that [of v]) (simp_all add: timer_tick_def)
qed

lemma key_pressed_tron:
  assumes ok: "tron_ok (vid s)" and m: "m = nextMove (kbc_ih S s)" "dir m \<noteq> UNCHANGED"
    and t: "tron_command (playerColor m) (dir m) False (tron_of (vid s)) = Some (crash, t')"
  obtains v where "tron_ok v" "tron_of v = t'"
    "key_pressed S s = Inr ((kbc_ih S s)\<lparr>vid := v,
       screenState := (if crash then QUIT else screenState (kbc_ih S s))\<rparr>)"
proof -
  obtain v where "move_player m False (vid s) = Inr (if crash then 1 else 0, v)" "tron_ok v" "tron_of v = t'"
    using move_player_tron [OF ok m(2) t] .
  with m show ?thesis
    by (intro that [of v]) (simp_all add: key_pressed_def)
qed


section \<open>Initialisation\<close>

lemma new_vg_init_frame:
  fixes s :: "('w, 'z) prog_st_scheme"
  assumes "new_vg_init S mode s = Inr (r, s')"
  shows "\<exists>w v. s' = s\<lparr>world := w, vid := v\<rparr>"
proof -
  have swap: "t\<lparr>vid := v, world := w\<rparr> = t\<lparr>world := w, vid := v\<rparr>" for t :: "('w, 'z) prog_st_scheme" and v w
    by simp
  have set: "\<exists>w v. snd (set_mode S mode t) = t\<lparr>world := w, vid := v\<rparr>" for t :: "('w, 'z) prog_st_scheme"
    unfolding set_mode_def Let_def by (simp add: split_beta) (metis swap)
  obtain w v where "set_mode S mode (s\<lparr>world := w, vid := v\<rparr>) = (r, s')"
    using assms unfolding new_vg_init_def Let_def
    by (auto split: prod.splits option.splits if_splits)
  then have "snd (set_mode S mode (s\<lparr>world := w, vid := v\<rparr>)) = s'" by simp
  with set [of "s\<lparr>world := w, vid := v\<rparr>"] show ?thesis by auto
qed

text \<open>Subscribing and reading the clock change the hooks and the world only.\<close>

lemma subscribe_main:
  fixes s :: "('w, 'z) main_st_scheme"
  shows "screenState (snd (snd (timer_subscribe_int S s))) = screenState s"
    "pp (snd (snd (timer_subscribe_int S s))) = pp s"
    "counter (snd (snd (timer_subscribe_int S s))) = counter s"
    "screenState (snd (snd (keyboard_subscribe_int S s))) = screenState s"
    "pp (snd (snd (keyboard_subscribe_int S s))) = pp s"
    "counter (snd (snd (keyboard_subscribe_int S s))) = counter s"
    "screenState (snd (snd (mouse_subscribe_int S s))) = screenState s"
    "pp (snd (snd (mouse_subscribe_int S s))) = pp s"
    "counter (snd (snd (mouse_subscribe_int S s))) = counter s"
    "screenState (snd (snd (rtc_subscribe_int S s))) = screenState s"
    "pp (snd (snd (rtc_subscribe_int S s))) = pp s"
    "counter (snd (snd (rtc_subscribe_int S s))) = counter s"
    "screenState (snd (snd (read_hours S h s))) = screenState s"
    "pp (snd (snd (read_hours S h s))) = pp s"
    "counter (snd (snd (read_hours S h s))) = counter s"
  by (simp_all add: timer_subscribe_int_def keyboard_subscribe_int_def mouse_subscribe_int_def
      rtc_subscribe_int_def read_hours_def rtc_read_reg_def outb_def split_beta Let_def)

lemma main_subscribe_simps:
  "screenState (main_subscribe S uninit A s) = screenState s"
  "pp (main_subscribe S uninit A s) = pp s"
  "counter (main_subscribe S uninit A s) = 0"
  by (simp_all add: main_subscribe_def split_beta Let_def subscribe_main)

lemma main_setupD:
  assumes "main_setup S uninit A alloc s = Inr (None, s')"
  shows "screenState s' = screenState s" "pp s' = pp s" "counter s' = 0" "\<not> printed s'" "\<not> startGame s'"
    "\<not> paused s'"
proof -
  let ?t = "main_subscribe S uninit A s"
  obtain r t' where t': "new_vg_init S 0x115 ?t = Inr (r, t')"
    and s': "(if r \<noteq> 0 then Inr (Some (1 :: int), t')
       else
         let s = t'\<lparr>printed := False, startGame := False, paused := False,
                   saveGameScreen := alloc (frame_bytes (vid t'))\<rparr>
         in bind_res (setMouseInitPos (cursor (imgs s)) (vid s)) (\<lambda>v. Inr (None, s\<lparr>vid := v\<rparr>)))
       = (Inr (None, s') :: fault + _)"
    using assms unfolding main_setup_def bind_res_eq_Inr_iff by auto
  obtain w v where t: "t' = ?t\<lparr>world := w, vid := v\<rparr>"
    using new_vg_init_frame [OF t'] by blast
  have "r = 0" using s' by (cases "r = 0") simp_all
  with s' obtain v' where "s' = t'\<lparr>printed := False, startGame := False, paused := False,
                   saveGameScreen := alloc (frame_bytes (vid t')), vid := v'\<rparr>"
    by (auto simp: bind_res_eq_Inr_iff Let_def)
  then show "screenState s' = screenState s" "pp s' = pp s" "counter s' = 0" "\<not> printed s'"
    "\<not> startGame s'" "\<not> paused s'"
    by (simp_all add: t main_subscribe_simps)
qed


section \<open>Properties\<close>

text \<open>
  C4. The six nested loops of \<open>proj_main_loop\<close> are one loop that runs, while the screen is not \<open>QUIT\<close>,
  the iteration of the selected screen: they return the same state, fault alike, and one never ends
  exactly when the other does not.
\<close>

theorem main_loop_dispatches_on_screen:
  "main_loop S s = while_res (\<lambda>s. screenState s \<noteq> QUIT) (\<lambda>s. Some (screen_iter S s)) s"
  by (rule main_loop_flat)

text \<open>A concrete program state: scripted ports and messages, the given picture and screen.\<close>

definition main_demo :: "u32 list \<Rightarrow> message list \<Rightarrow> video_st \<Rightarrow> screenState \<Rightarrow> script main_st" where
  "main_demo ins ms v sc = \<lparr>world = demo_script ins ms 1860000, countSysInb = 0,
     timer_hook_id = 0, totalInterrupts = 4, scanCode = 0,
     hook_idKEYBOARD = 1, byteFromMouse = 0, hook_idMOUSE = 12,
     nextMove = \<lparr>dir = UNCHANGED, playerColor = BLUE\<rparr>, screenState = sc,
     rtc_hook_id = 3, time_counter = 0, vid = v,
     imgs = \<lparr>img_main = tiny_img, gameOver1 = tiny_img, gameOver2 = tiny_img, img_pause = tiny_img,
             cursor = tiny_img\<rparr>,
     hour = 0x12,
     pp = \<lparr>pbytes = [0, 0, 0], rb = False, mb = False, lb = False, delta_x = 0, delta_y = 0,
           x_ov = False, y_ov = False\<rparr>,
     counter = 0, bit_no_timer = 0, bit_no_keyboard = 1, bit_no_mouse = 12, bit_no_rtc = 8,
     printed = False, startGame = True, paused = False,
     saveGameScreen = Some (\<lambda>_. 0, 144)\<rparr>"

lemma raised_keyboard: "raised 2 1" "\<not> raised 2 0" "raised 1 0" "\<not> raised 1 1"
  by (simp_all add: raised_iff bit_numeral_word_iff)

lemma receive_demo:
  "receive_hw script_sys (demo_script ins (hw_message i # ms) n) = (Some i, demo_script ins ms n)"
  "receive_hw script_sys (demo_script ins [] n) = (None, demo_script ins [] n)"
  by (simp_all add: receive_hw_def script_simps demo_script_def is_ipc_notify_def)

lemma kbc_demo:
  "kbc_status script_sys (demo_script (a # b # ins) ms n) = ucast a"
  "kbc_data script_sys (demo_script (a # b # ins) ms n) = ucast b"
  by (simp_all add: kbd_demo_simps)

lemma valid_kbd_0x15: "valid_kbd_status 0x15"
  by (simp add: valid_kbd_status_def bit_numeral_word_iff)

text \<open>Key P is released in the game or during a pause.\<close>

lemma demo_pause_key:
  fixes s :: "(script, 'z) main_st_scheme"
  assumes "world s = demo_script [0x15, 153] ms n" "dir (nextMove s) = UNCHANGED"
  shows "\<exists>t. key_pressed script_sys s = Inr t \<and> screenState t = toggle_pause (screenState s)"
  using assms by (simp add: key_pressed_def kbc_ih_eq Let_def kbc_demo valid_kbd_0x15 key_move_def)

text \<open>
  C6. Two invariants of every run of the program. The index into the three bytes of the mouse packet is
  always below 3, so that no byte is ever stored outside the array; and the flags \<open>printed\<close>,
  \<open>startGame\<close> and \<open>paused\<close> always match the screen: on entry to the pause screen the picture has not been
  saved yet and will be, and back in the game it will be restored exactly if it was saved.
\<close>

theorem packet_and_flags_invariant:
  assumes "main_setup S uninit A alloc s = Inr (None, s1)" and "screenState s = MAIN"
    and "length (pbytes (pp s)) = 3" and "reaches S s1 t"
  shows "packet_ok t \<and> phase_ok t"
  using assms(4)
proof (induction rule: reaches.induct)
  case reaches_refl
  then show ?case
    using main_setupD [OF assms(1)] assms(2,3) by (simp add: packet_ok_def phase_ok_def)
next
  case (reaches_step t u)
  then show ?case using screen_iter_packet_ok screen_iter_phase_ok by blast
qed

text \<open>
  The start of the program on the scripted machine, with a cursor of 2 by 2 pixels.
\<close>

definition boot_demo :: "script main_st" where
  "boot_demo = main_demo [0x12] [] tiny_video MAIN"

definition boot_assets :: xpm_assets where
  "boot_assets = \<lparr>MainScreen = [], PauseScreen = [], GOPOneWins = [], GOPTwoWins = [], Cursor = []\<rparr>"

lemma script_vg_init:
  fixes s :: "(script, 'z) main_st_scheme"
  assumes "region (world s) = 1860000"
  shows "\<exists>t. new_vg_init script_sys 0x115 s = Inr (0, t) \<and> mode_115 (vid t) \<and> imgs t = imgs s"
  using assms
  by (simp add: new_vg_init_def set_mode_def script_simps mode_115_def wf_video_def Let_def)

lemma script_ops:
  fixes s :: "(script, 'z) main_st_scheme"
  shows "region (world (snd (snd (timer_subscribe_int script_sys s)))) = region (world s)"
    "imgs (snd (snd (timer_subscribe_int script_sys s))) = imgs s"
    "region (world (snd (snd (keyboard_subscribe_int script_sys s)))) = region (world s)"
    "imgs (snd (snd (keyboard_subscribe_int script_sys s))) = imgs s"
    "region (world (snd (snd (mouse_subscribe_int script_sys s)))) = region (world s)"
    "imgs (snd (snd (mouse_subscribe_int script_sys s))) = imgs s"
    "region (world (snd (snd (rtc_subscribe_int script_sys s)))) = region (world s)"
    "imgs (snd (snd (rtc_subscribe_int script_sys s))) = imgs s"
    "region (world (snd (snd (read_hours script_sys h s)))) = region (world s)"
    "imgs (snd (snd (read_hours script_sys h s))) = imgs s"
    "mouse_enable_data_reporting script_sys w = (0, w)"
  by (simp_all add: timer_subscribe_int_def keyboard_subscribe_int_def mouse_subscribe_int_def
      rtc_subscribe_int_def read_hours_def rtc_read_reg_def outb_def script_simps split_beta Let_def
      split: list.split)

lemma script_subscribe:
  "region (world (main_subscribe script_sys u A s)) = region (world s)"
  "imgs (main_subscribe script_sys u A s) = load_images script_sys u A (imgs s)"
  by (simp_all add: main_subscribe_def split_beta Let_def script_ops)

lemma boot_setup: "\<exists>t. main_setup script_sys tiny_img boot_assets (\<lambda>n. Some (\<lambda>_. 0, n)) boot_demo = Inr (None, t)"
proof -
  let ?s = "main_subscribe script_sys tiny_img boot_assets boot_demo"
  have "region (world ?s) = 1860000"
    by (simp add: script_subscribe boot_demo_def main_demo_def demo_script_def)
  then obtain t where t: "new_vg_init script_sys 0x115 ?s = Inr (0, t)" "mode_115 (vid t)" "imgs t = imgs ?s"
    using script_vg_init by blast
  have c: "cursor (imgs t) = tiny_img"
    unfolding t(3) script_subscribe by (simp add: load_images_def load_image_def script_simps tiny_img_def)
  let ?v = "(vid t)\<lparr>mouse := \<lparr>mouse_x = 400, mouse_y = 300\<rparr>\<rparr>"
  have r: "h_res (vid t) = 800" "v_res (vid t) = 600" "bytes_per_pixel (vid t) = 3" "wf_video (vid t)"
    using t(2) by (simp_all add: mode_115_def)
  then have "img_fits ?v tiny_img (unat (400 :: u16)) (unat (300 :: u16))"
    by (simp add: img_fits_def tiny_img_def wf_video_def)
  then obtain m where "draw_img tiny_img 400 300 ?v = Inr (?v\<lparr>video_mem := m\<rparr>)"
    using draw_img_paints [of ?v tiny_img 400 300] by blast
  then have "setMouseInitPos tiny_img (vid t) = Inr (?v\<lparr>video_mem := m\<rparr>)"
    by (simp add: setMouseInitPos_def r)
  with t(1) c show ?thesis
    by (simp add: main_setup_def)
qed

theorem packet_and_flags_invariant_witness:
  "\<exists>t. main_setup script_sys tiny_img boot_assets (\<lambda>n. Some (\<lambda>_. 0, n)) boot_demo = Inr (None, t)
     \<and> packet_ok t \<and> phase_ok t"
proof -
  obtain t where t: "main_setup script_sys tiny_img boot_assets (\<lambda>n. Some (\<lambda>_. 0, n)) boot_demo = Inr (None, t)"
    using boot_setup by blast
  have "screenState boot_demo = MAIN" "length (pbytes (pp boot_demo)) = 3"
    by (simp_all add: boot_demo_def main_demo_def)
  with packet_and_flags_invariant [OF t _ _ reaches_refl] t show ?thesis by blast
qed


text \<open>The pause screen is up and the frame saved on entry is still the saved one.\<close>

definition halted_with :: "video_st \<Rightarrow> mem \<Rightarrow> nat \<Rightarrow> ('w, 'z) main_st_scheme \<Rightarrow> bool" where
  "halted_with v m len t \<longleftrightarrow> startGame t \<and> paused t \<and> printed t
     \<and> saveGameScreen t = Some (copy_block (frame_bytes v) (video_mem v) m, len)
     \<and> frame_bytes v \<le> len \<and> accessible v 0 (frame_bytes v) \<and> same_geom v (vid t)"

lemma pause_enter_saves:
  assumes "pause_enter s = Inr mid" and "\<not> printed s" and "startGame s"
  obtains m len where "halted_with (vid s) m len mid"
proof -
  obtain u v' where u: "save_screen s = Inr u"
    and d: "draw_img (img_pause (imgs u)) 0 0 (vid u) = Inr v'"
    and mid: "mid = u\<lparr>printed := True, paused := True, vid := v'\<rparr>"
    using assms(1,2) by (auto simp: pause_enter_def bind_res_eq_Inr_iff Let_def)
  from u show ?thesis
  proof (rule save_screenD)
    fix m len
    assume *: "saveGameScreen s = Some (m, len)" "frame_bytes (vid s) \<le> len"
      "accessible (vid s) 0 (frame_bytes (vid s))"
      and u': "u = s\<lparr>saveGameScreen := Some (copy_block (frame_bytes (vid s)) (video_mem (vid s)) m, len)\<rparr>"
    have "same_geom (vid s) v'" using draw_img_geom [OF d] by (simp add: u')
    then show ?thesis
      using * assms(3) by (intro that [of m len]) (simp add: halted_with_def mid u')
  qed
qed

lemma halted_key:
  assumes "halted_with v m len t"
    and "u = t\<lparr>world := w\<rparr> \<or> key_pressed S (t\<lparr>world := w\<rparr>) = Inr u"
  shows "halted_with v m len u"
  using assms(2)
proof
  assume "key_pressed S (t\<lparr>world := w\<rparr>) = Inr u"
  note k = key_pressedD [OF this]
  with assms(1) show ?thesis
    by (auto simp: halted_with_def intro: same_geom_trans)
qed (use assms(1) in \<open>simp add: halted_with_def\<close>)

lemma pause_iter_halted:
  assumes "pause_iter S t = Inr u" and "halted_with v m len t"
  shows "halted_with v m len u"
  using assms(1)
proof (rule pause_iter_cases)
  fix mid w
  assume "pause_enter t = Inr mid" and u: "u = mid\<lparr>world := w\<rparr> \<or> key_pressed S (mid\<lparr>world := w\<rparr>) = Inr u"
  then have "mid = t" using assms(2) by (simp add: pause_enter_def halted_with_def)
  with u halted_key [OF assms(2)] show ?thesis by simp
qed

lemma pause_iter_first:
  assumes "pause_iter S s = Inr u" and "\<not> printed s" and "startGame s"
  obtains m len where "halted_with (vid s) m len u"
  using assms(1)
proof (rule pause_iter_cases)
  fix mid w
  assume mid: "pause_enter s = Inr mid" and u: "u = mid\<lparr>world := w\<rparr> \<or> key_pressed S (mid\<lparr>world := w\<rparr>) = Inr u"
  obtain m len where "halted_with (vid s) m len mid"
    using pause_enter_saves [OF mid assms(2,3)] .
  from that halted_key [OF this u] show ?thesis .
qed

lemma pause_loop_halted:
  assumes "while_res (\<lambda>s. screenState s = PAUSE) (\<lambda>s. Some (pause_iter S s)) t = Some (Inr u)"
    and "halted_with v m len t"
  shows "halted_with v m len u"
proof -
  have "halted_with v m len t \<longrightarrow> r = Inr u \<longrightarrow> halted_with v m len u"
    if "while_res (\<lambda>s. screenState s = PAUSE) (\<lambda>s. Some (pause_iter S s)) t = Some r" for r
    using that by (induction rule: while_res_induct) (use pause_iter_halted in blast)+
  with assms show ?thesis by blast
qed

lemma halted_sgame_enter:
  assumes "halted_with v m len t"
  shows "sgame_enter t = Inr (t\<lparr>vid := (vid t)\<lparr>video_mem := copy_block (frame_bytes v)
      (copy_block (frame_bytes v) (video_mem v) m) (video_mem (vid t))\<rparr>, paused := False, printed := False\<rparr>)"
proof -
  have n: "frame_bytes (vid t) = frame_bytes v" and acc: "accessible (vid t) 0 (frame_bytes v)"
    using assms frame_bytes_geom [of v "vid t"] by (auto simp: halted_with_def same_geom_def accessible_def)
  then show ?thesis
    using assms by (simp add: halted_with_def sgame_enter_def begin_game_def restore_screen_def get_video_mem_def Let_def)
qed

lemma halted_resume:
  assumes "halted_with v m len t"
  shows "\<exists>u. sgame_enter t = Inr u \<and> (\<forall>k < frame_bytes v. video_mem (vid u) k = video_mem v k)
    \<and> \<not> paused u \<and> \<not> printed u \<and> same_geom v (vid u)"
  using assms by (simp add: halted_sgame_enter [OF assms] halted_with_def copy_block_def same_geom_def)

text \<open>
  C7. Pause and resume. When a running game is paused, whatever happens during the pause (any number of
  iterations, key presses that move the players and draw over the picture included), if the pause loop
  ends in the game again, then the game loop restores the frame: the first step of its next iteration
  succeeds and every byte of the frame is what it was when the pause began.
\<close>

theorem pause_resume_restores_frame:
  assumes "screenState s = PAUSE" and "\<not> printed s" and "startGame s"
    and "while_res (\<lambda>s. screenState s = PAUSE) (\<lambda>s. Some (pause_iter S s)) s = Some (Inr t)"
    and "screenState t = S_GAME"
  shows "\<exists>u. sgame_enter t = Inr u \<and> (\<forall>k < frame_bytes (vid s). video_mem (vid u) k = video_mem (vid s) k)
    \<and> \<not> paused u \<and> \<not> printed u \<and> same_geom (vid s) (vid u)"
proof -
  obtain s1 where s1: "pause_iter S s = Inr s1"
    and loop: "while_res (\<lambda>s. screenState s = PAUSE) (\<lambda>s. Some (pause_iter S s)) s1 = Some (Inr t)"
    using assms(1,4) by (subst (asm) while_res_unfold) (auto simp: then_res_eq_Some_Inr)
  obtain m len where "halted_with (vid s) m len s1"
    using pause_iter_first [OF s1 assms(2,3)] .
  then have "halted_with (vid s) m len t"
    by (rule pause_loop_halted [OF loop])
  then show ?thesis by (rule halted_resume)
qed

lemma demo_pause_loop:
  "\<exists>t. while_res (\<lambda>s. screenState s = PAUSE) (\<lambda>s. Some (pause_iter script_sys s))
         (main_demo [0x15, 153] [hw_message 2] tiny_video PAUSE) = Some (Inr t) \<and> screenState t = S_GAME"
proof -
  let ?s = "main_demo [0x15, 153] [hw_message 2] tiny_video PAUSE"
  have n: "frame_bytes tiny_video = 144"
    by (simp add: frame_bytes_def get_h_res_def get_v_res_def get_bits_per_pixel_def tiny_video_def)
  have "img_fits tiny_video tiny_img (unat (0 :: u16)) (unat (0 :: u16))"
    by (simp add: img_fits_def wf_tiny_video) (simp add: tiny_video_def tiny_img_def)
  then obtain m where m: "draw_img tiny_img 0 0 tiny_video = Inr (tiny_video\<lparr>video_mem := m\<rparr>)"
    using draw_img_paints by blast
  have "accessible tiny_video 0 144" by (simp add: accessible_def tiny_video_def)
  then obtain mid where mid: "pause_enter ?s = Inr mid" "world mid = world ?s" "nextMove mid = nextMove ?s"
    "screenState mid = PAUSE" "bit_no_keyboard mid = 1"
    by (simp add: pause_enter_def save_screen_def main_demo_def n m)
  let ?w = "mid\<lparr>world := demo_script [0x15, 153] [] 1860000\<rparr>"
  have "dir (nextMove ?w) = UNCHANGED" using mid(3) by (simp add: main_demo_def)
  then obtain t where t: "key_pressed script_sys ?w = Inr t" "screenState t = S_GAME"
    using demo_pause_key [of ?w "[]" 1860000] mid(4) by (auto simp: toggle_pause_def)
  have "pause_iter script_sys ?s = Inr t"
    using mid t(1) by (simp add: pause_iter_def main_demo_def receive_demo raised_keyboard)
  then have "while_res (\<lambda>s. screenState s = PAUSE) (\<lambda>s. Some (pause_iter script_sys s)) ?s = Some (Inr t)"
    using t(2) by (simp add: while_res_unfold main_demo_def)
  with t(2) show ?thesis by blast
qed

theorem pause_resume_restores_frame_witness:
  "\<exists>t u. while_res (\<lambda>s. screenState s = PAUSE) (\<lambda>s. Some (pause_iter script_sys s))
         (main_demo [0x15, 153] [hw_message 2] tiny_video PAUSE) = Some (Inr t)
     \<and> sgame_enter t = Inr u \<and> \<not> paused u"
proof -
  let ?s = "main_demo [0x15, 153] [hw_message 2] tiny_video PAUSE"
  have s: "screenState ?s = PAUSE" "\<not> printed ?s" "startGame ?s" by (simp_all add: main_demo_def)
  obtain t where t: "while_res (\<lambda>s. screenState s = PAUSE) (\<lambda>s. Some (pause_iter script_sys s)) ?s = Some (Inr t)"
    "screenState t = S_GAME"
    using demo_pause_loop by blast
  show ?thesis
    using pause_resume_restores_frame [OF s t] t(1) by blast
qed

text \<open>
  C14. The two-machine game never ends: once its screen is selected and its start does not fault, the main
  loop runs forever without receiving a message, whatever the devices do. (The README describes a
  game over the serial port.)
\<close>

theorem two_machine_game_never_ends:
  assumes "screenState s = M_GAME" and "begin_game s = Inr t"
  shows "main_loop S s = None"
  unfolding main_loop_def
proof (rule loops.nested_diverges [where P = "\<lambda>u. screenState u = M_GAME \<and> (u = s \<or> startGame u)"])
  fix u
  assume u: "screenState u = M_GAME \<and> (u = s \<or> startGame u)"
  then obtain u' where u': "begin_game u = Inr u'"
    using assms(2) by (cases "u = s") (auto simp: begin_game_def)
  then show "screenState u \<noteq> QUIT \<and>
      (\<exists>v. dispatch screenState (screen_loops S) u = Inr v \<and> screenState v = M_GAME \<and> (v = s \<or> startGame v))"
    using u begin_gameD [OF u'] by (simp add: dispatch_screen_iter screen_iter_def mgame_iter_def)
qed (use assms in simp)

theorem two_machine_game_never_ends_witness:
  "main_loop idle_sys (main_demo [] [] tiny_video M_GAME) = None"
  using two_machine_game_never_ends
    [of "main_demo [] [] tiny_video M_GAME" "main_demo [] [] tiny_video M_GAME" idle_sys]
  by (simp add: main_demo_def begin_game_def)


lemma clear_screen_115:
  assumes "mode_115 v"
  shows "frame_bytes v = 1440000"
    and "clear_screen v = (if 1860000 \<le> mapped v
      then Inr (v\<lparr>video_mem := fill_mem 0 1860000 (video_mem v)\<rparr>) else Inl Bad_access)"
proof -
  have r: "h_res v = 800" "v_res v = 600" "bytes_per_pixel v = 3"
    using assms by (simp_all add: mode_115_def)
  show "frame_bytes v = 1440000"
    by (simp add: frame_bytes_def get_h_res_def get_v_res_def get_bits_per_pixel_def r)
  show "clear_screen v = (if 1860000 \<le> mapped v
      then Inr (v\<lparr>video_mem := fill_mem 0 1860000 (video_mem v)\<rparr>) else Inl Bad_access)"
    by (simp add: clear_screen_def get_h_res_def get_v_res_def get_bits_per_pixel_def r accessible_def)
qed

lemma clear_screen_black:
  assumes v: "mode_115 v" and m: "1860000 \<le> mapped v"
  obtains c where "clear_screen v = Inr c" "mode_115 c" "black c"
proof -
  let ?v = "v\<lparr>video_mem := fill_mem 0 1860000 (video_mem v)\<rparr>"
  have r: "h_res v = 800" "v_res v = 600" "bytes_per_pixel v = 3"
    using v by (simp_all add: mode_115_def)
  have "pixel ?v x y = 0" if "x < 800" "y < 600" for x y
    using byte_index_le [OF that, of 3] by (simp add: pixel_def r fill_mem_def)
  then have "black ?v" by (simp add: black_def r)
  moreover have "mode_115 ?v" using v by (simp add: mode_115_def)
  ultimately show ?thesis using m that by (simp add: clear_screen_115 [OF v])
qed

lemma begin_game_115:
  assumes v: "mode_115 (vid s)" and "hour s < 0x19" and "\<not> startGame s" and m: "1860000 \<le> mapped (vid s)"
  obtains u where "begin_game s = Inr (s\<lparr>vid := u, startGame := True, printed := False\<rparr>)" "tron_ok u"
    "tron_of u = \<lparr>grid_w = 160, grid_h = 120, trail = {},
       cycle = (\<lambda>p. if p = BLUE then ((60, 60), RIGHT) else ((100, 60), LEFT))\<rparr>"
proof -
  obtain c where c: "clear_screen (vid s) = Inr c" "mode_115 c" "black c"
    using clear_screen_black [OF v m] .
  obtain u where "start_game (hour s) c = Inr u" "tron_ok u"
    "tron_of u = \<lparr>grid_w = 160, grid_h = 120, trail = {},
       cycle = (\<lambda>p. if p = BLUE then ((60, 60), RIGHT) else ((100, 60), LEFT))\<rparr>"
    using start_game_tron [OF c(2) assms(2) c(3)] by metis
  with assms(3) c(1) show ?thesis by (intro that) (simp_all add: begin_game_def)
qed

text \<open>
  C13. The start of a game clears more than the frame: with the parentheses of the code the size of the
  \<open>memset\<close> is resolution times (bits per pixel + 7) divided by 8, in mode 0x115 1860000 bytes where the frame
  has 1440000. If so much memory can be accessed, the game starts: before 19h on an empty grid, from 19h
  on (when \<open>start_game\<close> paints the screen white) on a grid with every cell taken. If not, the program faults before
  the game begins, at any hour.
\<close>

theorem begin_game_clears_too_much:
  assumes v: "mode_115 (vid s)" and new: "\<not> startGame s"
  shows "frame_bytes (vid s) = 1440000
    \<and> (if 1860000 \<le> mapped (vid s)
       then \<exists>t. begin_game s = Inr t \<and> tron_ok (vid t) \<and> startGame t
         \<and> trail (tron_of (vid t)) = (if hour s < 0x19 then {} else {..<160} \<times> {..<120})
       else begin_game s = Inl Bad_access)"
proof (cases "1860000 \<le> mapped (vid s)")
  case m: True
  show ?thesis
  proof (cases "hour s < 0x19")
    case True
    then obtain u where "begin_game s = Inr (s\<lparr>vid := u, startGame := True, printed := False\<rparr>)" "tron_ok u"
      "trail (tron_of u) = {}"
      using begin_game_115 [OF v _ new m] by (metis tron.select_convs(3))
    with m True clear_screen_115(1) [OF v] show ?thesis by simp
  next
    case False
    obtain c where c: "clear_screen (vid s) = Inr c" "mode_115 c"
      using clear_screen_black [OF v m] .
    obtain u where "start_game (hour s) c = Inr u" "tron_ok u" "trail (tron_of u) = {..<160} \<times> {..<120}"
      using start_game_evening [OF c(2)] False by (metis not_less tron.select_convs(3))
    with m False c(1) new clear_screen_115(1) [OF v] show ?thesis by (simp add: begin_game_def)
  qed
next
  case False
  then show ?thesis using new by (simp add: begin_game_def clear_screen_115 [OF v])
qed

definition new_game :: "nat \<Rightarrow> script main_st" where
  "new_game n = (main_demo [] [] (demo_115\<lparr>mapped := n\<rparr>) S_GAME)\<lparr>startGame := False\<rparr>"

lemma new_game_simps:
  "1440000 \<le> n \<Longrightarrow> mode_115 (vid (new_game n))" "mapped (vid (new_game n)) = n"
  "hour (new_game n) = 0x12" "\<not> startGame (new_game n)"
  using demo_115_ok(1) by (simp_all add: new_game_def main_demo_def mode_115_def wf_video_def)

theorem begin_game_clears_too_much_witness:
  "begin_game (new_game 1441792) = Inl Bad_access
   \<and> (\<exists>t. begin_game (new_game 1860000) = Inr t \<and> trail (tron_of (vid t)) = {})
   \<and> (\<exists>t. begin_game ((new_game 1860000)\<lparr>hour := 0x20\<rparr>) = Inr t \<and> trail (tron_of (vid t)) = {..<160} \<times> {..<120})"
  using begin_game_clears_too_much [OF new_game_simps(1,4), of 1441792]
    begin_game_clears_too_much [OF new_game_simps(1,4), of 1860000]
    begin_game_clears_too_much [of "(new_game 1860000)\<lparr>hour := 0x20\<rparr>"]
  by (auto simp: new_game_simps simp del: tron_of_simps)

text \<open>
  Every fifth timer interrupt is a tick of the game, and the screen after it says who has won: the end
  screen of player two when blue has crashed, that of player one when orange has, and no change
  otherwise; the picture and the players are those of the abstract game after the tick.
\<close>

lemma timer_tick_decides_game:
  assumes ok: "tron_ok (vid s)" and "fifth (totalInterrupts s + 1)"
    and t: "tron_tick (tron_of (vid s)) = Some (r, t')"
  shows "\<exists>s'. timer_tick s = Inr s' \<and> tron_ok (vid s') \<and> tron_of (vid s') = t'
    \<and> totalInterrupts s' = totalInterrupts s + 1
    \<and> screenState s' = (if r = 1 then GOTWO else if r = 2 then GOONE else screenState s)"
  by (rule timer_tick_tron [OF assms]) simp

lemma timer_tick_decides_game_witness:
  "\<exists>s'. timer_tick (main_demo [] [] facing S_GAME) = Inr s' \<and> screenState s' = S_GAME
     \<and> trail (tron_of (vid s')) = {(61, 60), (60, 60)}"
proof -
  let ?s = "main_demo [] [] facing S_GAME"
  obtain t where t: "tron_tick (tron_of (vid ?s)) = Some (0, t)" "trail t = {(61, 60), (60, 60)}"
    by (auto simp: tron_tick_def tron_command_def facing_tron main_demo_def)
  have s: "tron_ok (vid ?s)" "fifth (totalInterrupts ?s + 1)" "screenState ?s = S_GAME"
    using facing_ok by (simp_all add: main_demo_def fifth_def)
  show ?thesis
    using timer_tick_decides_game [OF s(1,2) t(1)] t(2) s(3) by auto
qed

text \<open>
  C12. A key press, in the game or during a pause: when the last move known is a move of the abstract game,
  it is made at once; if it enters a taken cell the program ends (screen \<open>QUIT\<close>, not one of the two end
  screens), otherwise the screen is the one the keyboard handler has selected.
\<close>

theorem key_press_moves_or_quits:
  assumes ok: "tron_ok (vid s)" and m: "m = nextMove (kbc_ih S s)" "dir m \<noteq> UNCHANGED"
    and t: "tron_command (playerColor m) (dir m) False (tron_of (vid s)) = Some (crash, t')"
  shows "\<exists>s'. key_pressed S s = Inr s' \<and> tron_ok (vid s') \<and> tron_of (vid s') = t'
    \<and> screenState s' = (if crash then QUIT else screenState (kbc_ih S s))"
  by (rule key_pressed_tron [OF assms]) simp

theorem key_press_moves_or_quits_witness:
  "\<exists>s'. key_pressed script_sys (main_demo [0x15, 145] [] facing PAUSE) = Inr s'
     \<and> screenState s' = PAUSE \<and> trail (tron_of (vid s')) = {(60, 59)}"
proof -
  let ?s = "main_demo [0x15, 145] [] facing PAUSE" let ?m = "\<lparr>dir = UP, playerColor = BLUE\<rparr>"
  have m: "nextMove (kbc_ih script_sys ?s) = ?m" "screenState (kbc_ih script_sys ?s) = PAUSE"
    by (simp_all add: kbc_ih_eq Let_def main_demo_def kbc_demo valid_kbd_0x15 key_move_def)
  obtain t where t: "tron_command (playerColor ?m) (dir ?m) False (tron_of (vid ?s)) = Some (False, t)"
    "trail t = {(60, 59)}"
    by (simp add: tron_command_def facing_tron main_demo_def)
  have "tron_ok (vid ?s)" using facing_ok by (simp add: main_demo_def)
  from key_press_moves_or_quits [OF this m(1) [symmetric] _ t(1)] t(2) m(2) show ?thesis by auto
qed

lemma main_loop_reaches:
  assumes "main_loop S s = Some (Inr t)"
  shows "reaches S s t \<and> screenState t = QUIT"
  using assms unfolding main_loop_def
  by (rule loops.nested_invariant) (auto simp: dispatch_screen_iter intro: reaches_refl reaches_step)

lemma main_setup_early:
  assumes "main_setup S uninit A alloc s = Inr (Some k, s')"
  shows "k = 1 \<and> (\<exists>r. r \<noteq> 0 \<and> new_vg_init S 0x115 (main_subscribe S uninit A s) = Inr (r, s'))"
proof -
  obtain r t where t: "new_vg_init S 0x115 (main_subscribe S uninit A s) = Inr (r, t)"
    "(if r \<noteq> 0 then Inr (Some (1 :: int), t)
      else let s = t\<lparr>printed := False, startGame := False, paused := False,
                 saveGameScreen := alloc (frame_bytes (vid t))\<rparr>
           in bind_res (setMouseInitPos (cursor (imgs s)) (vid s)) (\<lambda>v. Inr (None, s\<lparr>vid := v\<rparr>)))
      = (Inr (Some k, s') :: fault + _)"
    using assms unfolding main_setup_def bind_res_eq_Inr_iff by auto
  then show ?thesis by (cases "r = 0") (auto simp: bind_res_eq_Inr_iff Let_def)
qed

text \<open>
  How the program ends: it returns 1 only when the graphics mode cannot be set (with the interrupts still
  subscribed), and 0 only after a run of iterations that ends on the screen \<open>QUIT\<close>, followed by the release
  of the graphics mode and of the four subscriptions. There is no other return value.
\<close>

lemma proj_main_loop_returns:
  assumes "proj_main_loop S uninit A alloc s = Some (Inr (k, s'))"
  shows "k = 1 \<and> (\<exists>r. r \<noteq> 0 \<and> new_vg_init S 0x115 (main_subscribe S uninit A s) = Inr (r, s'))
    \<or> k = 0 \<and> (\<exists>s1 t. main_setup S uninit A alloc s = Inr (None, s1) \<and> reaches S s1 t
                \<and> screenState t = QUIT \<and> s' = main_teardown S t)"
proof -
  obtain r s1 where st: "main_setup S uninit A alloc s = Inr (r, s1)"
    and rest: "(case r of Some k \<Rightarrow> Some (Inr (k, s1))
      | None \<Rightarrow> then_res (main_loop S s1) (\<lambda>s. Some (Inr (0, main_teardown S s)))) = Some (Inr (k, s'))"
    using assms by (auto simp: proj_main_loop_def then_res_eq_Some_Inr)
  show ?thesis
  proof (cases r)
    case None
    then obtain t where t: "main_loop S s1 = Some (Inr t)" "k = 0" "s' = main_teardown S t"
      using rest by (auto simp: then_res_eq_Some_Inr)
    with st None main_loop_reaches [OF t(1)] show ?thesis by blast
  next
    case (Some k')
    then have "k = k'" "s' = s1" using rest by simp_all
    with st Some main_setup_early show ?thesis by blast
  qed
qed

definition no_mode_sys :: "script sys" where
  "no_mode_sys = script_sys\<lparr>sys_int86 := \<lambda>r w. (1, w)\<rparr>"

lemma no_mode_vg_init: "\<exists>t. new_vg_init no_mode_sys 0x115 s = Inr (1, t)"
  by (simp add: new_vg_init_def set_mode_def no_mode_sys_def script_simps Let_def)

lemma proj_main_loop_returns_witness:
  "\<exists>r s'. proj_main_loop no_mode_sys tiny_img boot_assets (\<lambda>n. None) boot_demo = Some (Inr (1, s'))
     \<and> r \<noteq> 0 \<and> new_vg_init no_mode_sys 0x115 (main_subscribe no_mode_sys tiny_img boot_assets boot_demo) = Inr (r, s')"
proof -
  obtain t where "new_vg_init no_mode_sys 0x115 (main_subscribe no_mode_sys tiny_img boot_assets boot_demo) = Inr (1, t)"
    using no_mode_vg_init by blast
  then have "proj_main_loop no_mode_sys tiny_img boot_assets (\<lambda>n. None) boot_demo = Some (Inr (1, t))"
    by (simp add: proj_main_loop_def main_setup_def)
  with proj_main_loop_returns [OF this] show ?thesis by auto
qed

end
