(* ===== verification/Lab_Loop.thy ===== *)
theory Lab_Loop
  imports Utils
begin

text \<open>
  The loop of the lab programs: wait for a message, and when it is a hardware notification let the
  program's reaction \<open>H\<close> work on the raised interrupts, as long as a condition on the locals and the
  globals holds. The locale \<open>driver_contract\<close> states what a reaction has to keep for the loop to be
  safe, and \<open>driver_progress\<close> what it has to decrease for the loop to return; the labs interpret them.
\<close>


section \<open>The loop\<close>

text \<open>The state is a pair of the program's locals and the globals with the world.\<close>

definition driver_iter ::
    "'w sys \<Rightarrow> (u64 \<Rightarrow> 'l \<times> ('w, 'z) utils_st_scheme \<Rightarrow> fault + 'l \<times> ('w, 'z) utils_st_scheme) \<Rightarrow>
     'l \<times> ('w, 'z) utils_st_scheme \<Rightarrow> (fault + 'l \<times> ('w, 'z) utils_st_scheme) option" where
  "driver_iter S H ls =
     (case ls of (l, s) \<Rightarrow>
        let (r, w) = receive_hw S (world s); s = s\<lparr>world := w\<rparr>
        in case r of None \<Rightarrow> Some (Inr (l, s)) | Some ints \<Rightarrow> Some (H ints (l, s)))"

definition driver_loop ::
    "'w sys \<Rightarrow> ('l \<times> ('w, 'z) utils_st_scheme \<Rightarrow> bool) \<Rightarrow>
     (u64 \<Rightarrow> 'l \<times> ('w, 'z) utils_st_scheme \<Rightarrow> fault + 'l \<times> ('w, 'z) utils_st_scheme) \<Rightarrow>
     'l \<times> ('w, 'z) utils_st_scheme \<Rightarrow> (fault + 'l \<times> ('w, 'z) utils_st_scheme) option" where
  "driver_loop S b H = while_res b (driver_iter S H)"

text \<open>
  What the labs rely on when they wait: of the messages that arrive, only finitely many in a row
  leave the line alone (\<open>busy\<close> bounds how many).
\<close>

definition keeps_interrupting :: "'w sys \<Rightarrow> u8 \<Rightarrow> ('w \<Rightarrow> nat) \<Rightarrow> bool" where
  "keeps_interrupting S line busy \<longleftrightarrow>
     (\<forall>w. (case fst (receive_hw S w) of Some ints \<Rightarrow> raised ints line | None \<Rightarrow> False)
        \<or> busy (snd (receive_hw S w)) < busy w)"

text \<open>A line that never interrupts.\<close>

definition silent :: "'w sys \<Rightarrow> u8 \<Rightarrow> bool" where
  "silent S line \<longleftrightarrow>
     (\<forall>w. case fst (receive_hw S w) of Some ints \<Rightarrow> \<not> raised ints line | None \<Rightarrow> True)"

lemma silent_D: "silent S line \<Longrightarrow> fst (receive_hw S w) = Some ints \<Longrightarrow> \<not> raised ints line"
  unfolding silent_def by (drule spec [of _ w]) simp

lemma while_res_safe:
  assumes "while_res b c s = Some r" and "I s"
    and "\<And>s r. I s \<Longrightarrow> b s \<Longrightarrow> c s = Some r \<Longrightarrow> \<exists>t. r = Inr t \<and> I t"
  shows "\<exists>t. r = Inr t \<and> I t \<and> \<not> b t"
  using assms(1,2)
proof (induction rule: while_res_induct)
  case (fault s e)
  then show ?case using assms(3) by blast
next
  case (step s s' r)
  then show ?case using assms(3) [of s "Inr s'"] by blast
qed simp

lemma while_res_invariant:
  assumes "while_res b c s = Some (Inr t)" and "I s"
    and "\<And>s t. I s \<Longrightarrow> b s \<Longrightarrow> c s = Some (Inr t) \<Longrightarrow> I t"
  shows "I t \<and> \<not> b t"
proof -
  have "\<forall>t. r = Inr t \<longrightarrow> I t" if "while_res b c s = Some r" for r
    using that assms(2) by (induction rule: while_res_induct) (auto dest: assms(3))
  then show ?thesis using assms(1) while_res_exit [OF assms(1)] by blast
qed

lemma while_res_returns:
  assumes "wf R" and "I s"
    and "\<And>s. I s \<Longrightarrow> b s \<Longrightarrow> \<exists>t. c s = Some (Inr t) \<and> I t \<and> (t, s) \<in> R"
  shows "\<exists>t. while_res b c s = Some (Inr t) \<and> I t \<and> \<not> b t"
  using assms(1,2)
proof (induction s rule: wf_induct_rule)
  case (less s)
  show ?case
  proof (cases "b s")
    case True
    then obtain t where t: "c s = Some (Inr t)" "I t" "(t, s) \<in> R" using assms(3) less.prems by blast
    then show ?thesis using less.IH [OF t(3,2)] True by (simp add: while_res_unfold [of b c s])
  qed (use less.prems in \<open>simp add: while_res_unfold [of b c s]\<close>)
qed


section \<open>Contracts\<close>

text \<open>
  A reaction keeps an invariant, whatever interrupts are delivered, and so does a change of the world by
  the arrival of a message. Then the loop never faults, and it ends with the invariant and the
  negated condition.
\<close>

locale driver_contract =
  fixes S :: "'w sys"
    and b :: "'l \<times> ('w, 'z) utils_st_scheme \<Rightarrow> bool"
    and H :: "u64 \<Rightarrow> 'l \<times> ('w, 'z) utils_st_scheme \<Rightarrow> fault + 'l \<times> ('w, 'z) utils_st_scheme"
    and inv :: "'l \<times> ('w, 'z) utils_st_scheme \<Rightarrow> bool"
  assumes receive: "inv (l, s) \<Longrightarrow> inv (l, s\<lparr>world := snd (receive_hw S (world s))\<rparr>)"
    and reaction: "inv ls \<Longrightarrow> b ls \<Longrightarrow> fst (receive_hw S w) = Some ints \<Longrightarrow> \<exists>t. H ints ls = Inr t \<and> inv t"
    and condition: "b (l, s\<lparr>world := w\<rparr>) = b (l, s)"
begin

lemma iteration:
  assumes "inv ls" and "b ls"
  shows "\<exists>t. driver_iter S H ls = Some (Inr t) \<and> inv t"
proof -
  obtain l s where ls: "ls = (l, s)" by (cases ls)
  obtain r w where r: "receive_hw S (world s) = (r, w)" by fastforce
  let ?ls = "(l, s\<lparr>world := w\<rparr>)"
  have I: "inv ?ls" using receive [of l s] assms(1) r by (simp add: ls)
  have "b ?ls" using assms(2) by (simp add: ls condition)
  with I show ?thesis
    using r reaction [of ?ls "world s"] by (cases r) (auto simp: ls driver_iter_def)
qed

lemma safe:
  assumes "inv ls" and "driver_loop S b H ls = Some r"
  shows "\<exists>t. r = Inr t \<and> inv t \<and> \<not> b t"
proof (rule while_res_safe [of b "driver_iter S H" ls r inv])
  show "while_res b (driver_iter S H) ls = Some r" using assms(2) by (simp add: driver_loop_def)
  show "\<exists>t. r = Inr t \<and> inv t" if "inv s" "b s" "driver_iter S H s = Some r" for s r
    using iteration [OF that(1,2)] that(3) by simp
qed (rule assms(1))

end

text \<open>
  The loop returns when, in addition, an interrupt on \<open>line\<close> brings the program closer to its end, other
  interrupts do not take it back, and the line keeps interrupting.
\<close>

locale driver_progress = driver_contract S b H inv
  for S :: "'w sys"
    and b :: "'l \<times> ('w, 'z) utils_st_scheme \<Rightarrow> bool"
    and H :: "u64 \<Rightarrow> 'l \<times> ('w, 'z) utils_st_scheme \<Rightarrow> fault + 'l \<times> ('w, 'z) utils_st_scheme"
    and inv :: "'l \<times> ('w, 'z) utils_st_scheme \<Rightarrow> bool" +
  fixes line :: u8
    and left_to_do :: "'l \<times> ('w, 'z) utils_st_scheme \<Rightarrow> nat"
    and busy :: "'w \<Rightarrow> nat"
  assumes source: "inv ls \<Longrightarrow> keeps_interrupting S line busy"
    and waiting: "inv (l, s) \<Longrightarrow> left_to_do (l, s\<lparr>world := snd (receive_hw S (world s))\<rparr>) = left_to_do (l, s)"
    and closer: "inv ls \<Longrightarrow> b ls \<Longrightarrow> fst (receive_hw S w) = Some ints \<Longrightarrow> world (snd ls) = snd (receive_hw S w) \<Longrightarrow>
        raised ints line \<Longrightarrow> H ints ls = Inr t \<Longrightarrow> left_to_do t < left_to_do ls"
    and other: "inv ls \<Longrightarrow> b ls \<Longrightarrow> fst (receive_hw S w) = Some ints \<Longrightarrow> \<not> raised ints line \<Longrightarrow>
        H ints ls = Inr t \<Longrightarrow> t = ls"
begin

lemma iteration_closer:
  assumes "inv ls" and "b ls" and it: "driver_iter S H ls = Some (Inr t)"
  shows "left_to_do t < left_to_do ls
    \<or> left_to_do t = left_to_do ls \<and> busy (world (snd t)) < busy (world (snd ls))"
proof -
  obtain l s where ls: "ls = (l, s)" by (cases ls)
  obtain r w where r: "receive_hw S (world s) = (r, w)" by fastforce
  let ?ls = "(l, s\<lparr>world := w\<rparr>)"
  have I: "inv ?ls" using receive [of l s] assms(1) r by (simp add: ls)
  have wait: "left_to_do ?ls = left_to_do (l, s)" using waiting [of l s] assms(1) r by (simp add: ls)
  have b: "b ?ls" using assms(2) by (simp add: ls condition)
  have src: "(case r of Some ints \<Rightarrow> raised ints line | None \<Rightarrow> False) \<or> busy w < busy (world s)"
    using source [OF I, unfolded keeps_interrupting_def, rule_format, of "world s"] r by simp
  show ?thesis
  proof (cases r)
    case None
    then show ?thesis using it r src by (auto simp: ls driver_iter_def wait)
  next
    case (Some ints)
    then have H: "H ints ?ls = Inr t" using it r by (simp add: ls driver_iter_def)
    have d: "fst (receive_hw S (world s)) = Some ints" using r Some by simp
    show ?thesis
    proof (cases "raised ints line")
      case True
      then show ?thesis using closer [OF I b d _ _ H] r wait by (simp add: ls)
    next
      case False
      then show ?thesis using other [OF I b d _ H] src Some wait by (simp add: ls)
    qed
  qed
qed

lemma returns:
  assumes "inv ls"
  shows "\<exists>t. driver_loop S b H ls = Some (Inr t) \<and> inv t \<and> \<not> b t"
  unfolding driver_loop_def
proof (rule while_res_returns)
  show "wf (inv_image (less_than <*lex*> less_than) (\<lambda>ls. (left_to_do ls, busy (world (snd ls)))))"
    by (intro wf_inv_image wf_lex_prod wf_less_than)
  show "\<exists>t. driver_iter S H s = Some (Inr t) \<and> inv t
      \<and> (t, s) \<in> inv_image (less_than <*lex*> less_than) (\<lambda>ls. (left_to_do ls, busy (world (snd ls))))"
    if "inv s" "b s" for s
    using iteration [OF that] iteration_closer [OF that] by auto
qed (rule assms)

end

end
