(* ===== verification/Event_Runs.thy ===== *)
theory Event_Runs
  imports LC_Prelude
begin

text \<open>
  Runs of a loop of the program against a reference that only sees what the iterations read. A run is a
  number of iterations, fewer if the loop ends before; its events are those of its iterations in order. The
  contract of an iteration is that it does to the view of the state what the reference does with the events
  of the iteration; then the same holds of every run.
\<close>


section \<open>Runs\<close>

primrec run_while :: "('s \<Rightarrow> bool) \<Rightarrow> ('s \<Rightarrow> 'e + 's) \<Rightarrow> nat \<Rightarrow> 's \<Rightarrow> 'e + 's" where
  "run_while going iter 0 s = Inr s"
| "run_while going iter (Suc n) s =
     (if going s then bind_res (iter s) (run_while going iter n) else Inr s)"

primrec events_while ::
    "('s \<Rightarrow> bool) \<Rightarrow> ('s \<Rightarrow> 'e + 's) \<Rightarrow> ('s \<Rightarrow> 'a list) \<Rightarrow> nat \<Rightarrow> 's \<Rightarrow> 'a list" where
  "events_while going iter evs 0 s = []"
| "events_while going iter evs (Suc n) s =
     (if going s
      then evs s @ (case iter s of Inl e \<Rightarrow> [] | Inr t \<Rightarrow> events_while going iter evs n t)
      else [])"

text \<open>A run that leaves the loop is the whole loop.\<close>

lemma run_while_leaves:
  assumes "run_while going iter n s = Inr t" and "\<not> going t"
  shows "while_res going (\<lambda>s. Some (iter s)) s = Some (Inr t)"
  using assms
proof (induction n arbitrary: s)
  case (Suc n)
  then show ?case by (auto simp: while_res_unfold [of _ _ s] bind_res_eq_Inr_iff split: if_splits)
qed (simp add: while_res_unfold)


section \<open>The contract of an iteration\<close>

locale event_loop =
  fixes going :: "'s \<Rightarrow> bool"
    and iter :: "'s \<Rightarrow> 'e + 's"
    and evs :: "'s \<Rightarrow> 'a list"
    and ready :: "'s \<Rightarrow> bool"
    and view :: "'s \<Rightarrow> 'v"
    and exec :: "'a list \<Rightarrow> 'v \<Rightarrow> 'v option"
  assumes exec_Nil: "exec [] v = Some v"
    and exec_append: "exec (as @ bs) v = Option.bind (exec as v) (exec bs)"
    and iter_exec: "ready s \<Longrightarrow> going s \<Longrightarrow> exec (evs s) (view s) = Some x
      \<Longrightarrow> \<exists>t. iter s = Inr t \<and> ready t \<and> view t = x"
begin

lemma run_exec:
  "ready s \<Longrightarrow> exec (events_while going iter evs n s) (view s) = Some x
    \<Longrightarrow> \<exists>t. run_while going iter n s = Inr t \<and> ready t \<and> view t = x"
proof (induction n arbitrary: s)
  case (Suc n)
  show ?case
  proof (cases "going s")
    case True
    let ?rest = "case iter s of Inl e \<Rightarrow> [] | Inr t \<Rightarrow> events_while going iter evs n t"
    obtain y where y: "exec (evs s) (view s) = Some y" and x: "exec ?rest y = Some x"
      using Suc.prems(2) True by (auto simp: exec_append split: Option.bind_splits)
    obtain t where "iter s = Inr t" "ready t" "view t = y"
      using iter_exec [OF Suc.prems(1) True y] by blast
    with x True Suc.IH [of t] show ?thesis by simp
  qed (use Suc.prems exec_Nil in auto)
qed (simp add: exec_Nil)

end

end
