(* ===== verification/Game_Run.thy ===== *)
theory Game_Run
  imports Main_Loop Lab_Loop Event_Runs
begin

text \<open>
  Whole games: what the loop for \<open>S_GAME\<close> of \<open>proj/src/main.c\<close> makes of a sequence of messages. Every
  iteration is read as the events of the abstract game it delivers, a tick of the clock and the release
  of a key, and the run of the program refines the run of the abstract game on all its events. The
  measure of the abstract game, the number of free cells, then shows that the loop ends. The last
  part is about the variable \<open>nextMove\<close>, which outlives the key press that sets it and the game.
\<close>


section \<open>Events\<close>

text \<open>A keyboard interrupt: whether the pause key was released, and the last move known after it.\<close>

datatype game_event = Tick | Key bool MovementInfo

fun tron_event :: "game_event \<Rightarrow> tron \<times> screenState \<Rightarrow> (tron \<times> screenState) option" where
  "tron_event Tick (t, sc) =
     map_option (\<lambda>(r, t'). (t', if r = 1 then GOTWO else if r = 2 then GOONE else sc)) (tron_tick t)"
| "tron_event (Key pause_key m) (t, sc) =
     (let sc = (if pause_key then toggle_pause sc else sc)
      in if dir m = UNCHANGED then Some (t, sc)
         else map_option (\<lambda>(crash, t'). (t', if crash then QUIT else sc))
                (tron_command (playerColor m) (dir m) False t))"

primrec play :: "game_event list \<Rightarrow> tron \<times> screenState \<Rightarrow> (tron \<times> screenState) option" where
  "play [] x = Some x"
| "play (e # es) x = Option.bind (tron_event e x) (play es)"

lemma play_append: "play (es @ fs) x = Option.bind (play es x) (play fs)"
  by (induction es arbitrary: x) (auto split: Option.bind_split)

text \<open>The events an iteration of the game loop delivers, from the message it receives.\<close>

definition tick_due :: "u64 \<Rightarrow> ('w, 'z) main_st_scheme \<Rightarrow> bool" where
  "tick_due ints s \<longleftrightarrow> raised ints (bit_no_timer s) \<and> fifth (totalInterrupts s + 1)"

definition key_event :: "'w sys \<Rightarrow> ('w, 'z) main_st_scheme \<Rightarrow> game_event" where
  "key_event S s =
     Key (valid_kbd_status (kbc_status S (world s)) \<and> kbc_data S (world s) = 153) (nextMove (kbc_ih S s))"

definition message_events :: "'w sys \<Rightarrow> u64 \<Rightarrow> ('w, 'z) main_st_scheme \<Rightarrow> game_event list" where
  "message_events S ints s =
     (if tick_due ints s then [Tick] else [])
     @ (if raised ints (bit_no_keyboard s) then [key_event S s] else [])"

definition iter_events :: "'w sys \<Rightarrow> ('w, 'z) main_st_scheme \<Rightarrow> game_event list" where
  "iter_events S s =
     (let (hw, w) = receive_hw S (world s)
      in case hw of None \<Rightarrow> [] | Some ints \<Rightarrow> message_events S ints (s\<lparr>world := w\<rparr>))"

text \<open>\<open>n\<close> iterations of the game loop, fewer if it ends before, and their events.\<close>

abbreviation game_run ::
    "'w sys \<Rightarrow> nat \<Rightarrow> ('w, 'z) main_st_scheme \<Rightarrow> fault + ('w, 'z) main_st_scheme" where
  "game_run S \<equiv> run_while (\<lambda>s. screenState s = S_GAME) (sgame_iter S)"

abbreviation run_events :: "'w sys \<Rightarrow> nat \<Rightarrow> ('w, 'z) main_st_scheme \<Rightarrow> game_event list" where
  "run_events S \<equiv> events_while (\<lambda>s. screenState s = S_GAME) (sgame_iter S) (iter_events S)"

text \<open>A game has begun and is not waiting to be restored after a pause.\<close>

definition playing :: "('w, 'z) main_st_scheme \<Rightarrow> bool" where
  "playing s \<longleftrightarrow> startGame s \<and> \<not> paused s \<and> tron_ok (vid s)"

abbreviation game_of :: "('w, 'z) main_st_scheme \<Rightarrow> tron \<times> screenState" where
  "game_of s \<equiv> (tron_of (vid s), screenState s)"


section \<open>Refinement of an iteration\<close>

lemma timer_tick_event:
  assumes ok: "playing s" and due: "fifth (totalInterrupts s + 1)"
    and t: "tron_event Tick (game_of s) = Some x"
  obtains s' where "timer_tick s = Inr s'" "playing s'" "game_of s' = x" "world s' = world s"
    "nextMove s' = nextMove s" "totalInterrupts s' = totalInterrupts s + 1"
    "bit_no_timer s' = bit_no_timer s" "bit_no_keyboard s' = bit_no_keyboard s"
proof -
  obtain r t' where tick: "tron_tick (tron_of (vid s)) = Some (r, t')"
    and x: "x = (t', if r = 1 then GOTWO else if r = 2 then GOONE else screenState s)"
    using t by auto
  have "tron_ok (vid s)" using ok by (simp add: playing_def)
  then obtain v where v: "tron_ok v" "tron_of v = t'"
    "timer_tick s = Inr ((timer_int_handler s)\<lparr>vid := v,
       screenState := (if r = 1 then GOTWO else if r = 2 then GOONE else screenState s)\<rparr>)"
    using timer_tick_tron [OF _ due tick] by blast
  show ?thesis
    by (rule that [OF v(3)]) (use ok x v(1,2) in \<open>simp_all add: playing_def timer_int_handler_def\<close>)
qed

lemma timer_tick_idle:
  assumes "playing s" and "\<not> fifth (totalInterrupts s + 1)"
  obtains s' where "timer_tick s = Inr s'" "playing s'" "game_of s' = game_of s" "world s' = world s"
    "nextMove s' = nextMove s" "totalInterrupts s' = totalInterrupts s + 1"
    "bit_no_timer s' = bit_no_timer s" "bit_no_keyboard s' = bit_no_keyboard s"
  using assms that [of "timer_int_handler s"]
  by (simp add: timer_tick_def playing_def timer_int_handler_def)

lemma key_pressed_tron_event:
  assumes ok: "tron_ok (vid s)" and t: "tron_event (key_event S s) (game_of s) = Some x"
  obtains s' where "key_pressed S s = Inr s'" "tron_ok (vid s')" "game_of s' = x"
    "startGame s' = startGame s" "paused s' = paused s"
    "world s' = world (kbc_ih S s)" "totalInterrupts s' = totalInterrupts s"
    "bit_no_timer s' = bit_no_timer s" "bit_no_keyboard s' = bit_no_keyboard s"
proof -
  let ?k = "kbc_ih S s" and ?m = "nextMove (kbc_ih S s)"
  have sc: "screenState ?k = (if valid_kbd_status (kbc_status S (world s)) \<and> kbc_data S (world s) = 153
      then toggle_pause (screenState s) else screenState s)"
    by (rule screenState_kbc_ih)
  show ?thesis
  proof (cases "dir ?m = UNCHANGED")
    case True
    then have "x = game_of ?k" using t by (simp add: key_event_def sc)
    with True ok show ?thesis by (intro that [of ?k]) (simp_all add: key_pressed_def)
  next
    case False
    then obtain crash t' where c: "tron_command (playerColor ?m) (dir ?m) False (tron_of (vid s)) = Some (crash, t')"
      and x: "x = (t', if crash then QUIT else screenState ?k)"
      using t by (auto simp: key_event_def sc split: prod.splits)
    obtain v where v: "tron_ok v" "tron_of v = t'"
      "key_pressed S s = Inr (?k\<lparr>vid := v, screenState := (if crash then QUIT else screenState ?k)\<rparr>)"
      using key_pressed_tron [OF ok refl False c] by blast
    show ?thesis
      by (rule that [OF v(3)]) (use x v(1,2) in simp_all)
  qed
qed

lemma key_pressed_event:
  assumes ok: "playing s" and t: "tron_event (key_event S s) (game_of s) = Some x"
  obtains s' where "key_pressed S s = Inr s'" "playing s'" "game_of s' = x"
    "world s' = world (kbc_ih S s)" "totalInterrupts s' = totalInterrupts s"
    "bit_no_timer s' = bit_no_timer s" "bit_no_keyboard s' = bit_no_keyboard s"
proof -
  have "tron_ok (vid s)" using ok by (simp add: playing_def)
  from key_pressed_tron_event [OF this t] ok that show ?thesis by (metis playing_def)
qed

lemma key_event_cong:
  "world s' = world s \<Longrightarrow> nextMove s' = nextMove s \<Longrightarrow> key_event S s' = key_event S s"
  by (simp add: key_event_def kbc_ih_eq Let_def split: option.splits)

lemma world_kbc_ih: "world (kbc_ih S s) = inworld S KBC_OUT_BUF (inworld S KBC_ST_REG (world s))"
  by (simp add: kbc_ih_eq kbc_read2_def Let_def)

lemma sgame_enter_playing: "playing s \<Longrightarrow> sgame_enter s = Inr s"
  by (simp add: playing_def sgame_enter_def begin_game_def)

text \<open>The two parts of an iteration, one after the other.\<close>

lemma timer_part:
  assumes ok: "playing s"
    and t: "play (if tick_due ints s then [Tick] else []) (game_of s) = Some x"
  obtains s' where "(if raised ints (bit_no_timer s) then timer_tick s else Inr s) = Inr s'"
    "playing s'" "game_of s' = x" "world s' = world s" "nextMove s' = nextMove s"
    "totalInterrupts s' = (if raised ints (bit_no_timer s) then totalInterrupts s + 1 else totalInterrupts s)"
    "bit_no_timer s' = bit_no_timer s" "bit_no_keyboard s' = bit_no_keyboard s"
proof (cases "raised ints (bit_no_timer s)")
  case True
  show ?thesis
  proof (cases "fifth (totalInterrupts s + 1)")
    case tick: True
    then have "tron_event Tick (game_of s) = Some x" using t True by (auto simp: tick_due_def split: Option.bind_splits)
    then show ?thesis by (rule timer_tick_event [OF ok tick]) (use that True in simp)
  next
    case False
    then have "x = game_of s" using t by (simp add: tick_due_def)
    with False show ?thesis by (elim timer_tick_idle [OF ok]) (use that True in simp)
  qed
next
  case False
  then show ?thesis using t ok by (intro that [of s]) (simp_all add: tick_due_def)
qed

lemma key_part:
  assumes ok: "playing s"
    and t: "play (if raised ints (bit_no_keyboard s) then [key_event S s] else []) (game_of s) = Some x"
  obtains s' where "(if raised ints (bit_no_keyboard s) then key_pressed S s else Inr s) = Inr s'"
    "playing s'" "game_of s' = x"
    "world s' = (if raised ints (bit_no_keyboard s) then world (kbc_ih S s) else world s)"
    "totalInterrupts s' = totalInterrupts s"
    "bit_no_timer s' = bit_no_timer s" "bit_no_keyboard s' = bit_no_keyboard s"
proof (cases "raised ints (bit_no_keyboard s)")
  case True
  then have "tron_event (key_event S s) (game_of s) = Some x"
    using t by (auto simp del: tron_event.simps split: Option.bind_splits)
  then show ?thesis by (rule key_pressed_event [OF ok]) (use that True in simp)
next
  case False
  then show ?thesis using t ok by (intro that [of s]) simp_all
qed

lemma sgame_iter_event:
  assumes ok: "playing s" and r: "receive_hw S (world s) = (hw, w)"
    and t: "play (iter_events S s) (game_of s) = Some x"
  obtains s' where "sgame_iter S s = Inr s'" "playing s'" "game_of s' = x"
    "bit_no_timer s' = bit_no_timer s" "bit_no_keyboard s' = bit_no_keyboard s"
    "world s' \<in> {w, inworld S KBC_OUT_BUF (inworld S KBC_ST_REG w)}"
    "totalInterrupts s' = (case hw of None \<Rightarrow> totalInterrupts s
       | Some ints \<Rightarrow> if raised ints (bit_no_timer s) then totalInterrupts s + 1 else totalInterrupts s)"
proof (cases hw)
  case None
  let ?s = "s\<lparr>world := w\<rparr>"
  have "sgame_iter S s = Inr ?s" "x = game_of s"
    using r t None by (simp_all add: sgame_iter_def sgame_enter_playing [OF ok] iter_events_def)
  then show ?thesis using ok None by (intro that [of ?s]) (auto simp: playing_def)
next
  case (Some ints)
  let ?s = "s\<lparr>world := w\<rparr>"
  have p: "playing ?s" "game_of ?s = game_of s" using ok by (simp_all add: playing_def)
  have it: "sgame_iter S s = bind_res (if raised ints (bit_no_timer ?s) then timer_tick ?s else Inr ?s) (\<lambda>s.
      if raised ints (bit_no_keyboard s) then key_pressed S s else Inr s)"
    using r Some by (simp add: sgame_iter_def sgame_enter_playing [OF ok])
  obtain y where y: "play (if tick_due ints ?s then [Tick] else []) (game_of ?s) = Some y"
    and x: "play (if raised ints (bit_no_keyboard ?s) then [key_event S ?s] else []) y = Some x"
    using t r Some unfolding p(2) iter_events_def message_events_def
    by (auto simp: play_append simp del: play.simps split: Option.bind_splits)
  obtain s1 where s1: "(if raised ints (bit_no_timer ?s) then timer_tick ?s else Inr ?s) = Inr s1"
    "playing s1" "game_of s1 = y" "world s1 = w" "nextMove s1 = nextMove ?s"
    "totalInterrupts s1 = (if raised ints (bit_no_timer s) then totalInterrupts s + 1 else totalInterrupts s)"
    "bit_no_timer s1 = bit_no_timer s" "bit_no_keyboard s1 = bit_no_keyboard s"
    by (rule timer_part [OF p(1) y]) simp
  have "key_event S s1 = key_event S ?s" using s1(4,5) by (intro key_event_cong) simp_all
  then have "play (if raised ints (bit_no_keyboard s1) then [key_event S s1] else []) (game_of s1) = Some x"
    using x unfolding s1(3) s1(8) by (auto split: if_splits)
  then obtain s2 where s2: "(if raised ints (bit_no_keyboard s1) then key_pressed S s1 else Inr s1) = Inr s2"
    "playing s2" "game_of s2 = x"
    "world s2 = (if raised ints (bit_no_keyboard s1) then world (kbc_ih S s1) else world s1)"
    "totalInterrupts s2 = totalInterrupts s1"
    "bit_no_timer s2 = bit_no_timer s1" "bit_no_keyboard s2 = bit_no_keyboard s1"
    by (rule key_part [OF s1(2)])
  have "world s2 \<in> {w, inworld S KBC_OUT_BUF (inworld S KBC_ST_REG w)}"
    using s2(4) by (simp add: world_kbc_ih s1(4))
  moreover have "sgame_iter S s = Inr s2" unfolding it s1(1) using s2(1) by simp
  ultimately show ?thesis
    using s1 s2 Some by (intro that [of s2]) simp_all
qed



section \<open>Refinement of a run\<close>

interpretation in_game: event_loop "\<lambda>s. screenState s = S_GAME" "sgame_iter S" "iter_events S" playing game_of play
  for S :: "'w sys"
proof
  fix s :: "('w, 'z) main_st_scheme" and x
  assume p: "playing s" and x: "play (iter_events S s) (game_of s) = Some x"
  obtain hw w where "receive_hw S (world s) = (hw, w)" by fastforce
  with sgame_iter_event [OF p _ x] show "\<exists>t. sgame_iter S s = Inr t \<and> playing t \<and> game_of t = x" by metis
qed (simp_all add: play_append)


section \<open>The free cells\<close>

definition cells :: "tron \<Rightarrow> (nat \<times> nat) set" where
  "cells t = {..<grid_w t} \<times> {..<grid_h t}"

definition room :: "tron \<Rightarrow> nat" where
  "room t = card (cells t - trail t)"

definition riders_on :: "tron \<Rightarrow> bool" where
  "riders_on t \<longleftrightarrow> (\<forall>p. fst (cycle t p) \<in> cells t)"

lemma finite_cells [simp]: "finite (cells t - trail t)"
  by (simp add: cells_def)

lemma ahead_in_cells: "ahead t d c = Some c' \<Longrightarrow> c \<in> cells t \<Longrightarrow> c' \<in> cells t"
  by (cases c; cases d) (auto simp: cells_def split: if_splits)

lemma on_grid_cell:
  assumes "on_grid v q"
  shows "cell_of q \<in> cells (tron_of v)"
proof -
  have "a div 5 < b div 5" if "a + 5 \<le> b" for a b :: nat
    using that div_le_mono [of "a + 5" b 5] by simp
  with assms show ?thesis by (simp add: on_grid_def cells_def cell_of_def)
qed

lemma tron_ok_riders_on: "tron_ok v \<Longrightarrow> riders_on (tron_of v)"
  by (simp add: tron_ok_def riders_on_def on_grid_cell)

lemma cells_simps [simp]:
  "cells (t\<lparr>trail := T\<rparr>) = cells t" "cells (t\<lparr>cycle := C\<rparr>) = cells t"
  by (simp_all add: cells_def)

text \<open>A command that does not crash takes at most one cell; a passive one exactly one.\<close>

lemma tron_command_cases:
  assumes "tron_command p d passive t = Some (crash, t')"
  obtains (stay) "t' = t" "\<not> crash" "\<not> passive \<and> d = snd (cycle t p) \<or> d = turned_back (snd (cycle t p))"
  | (go) c where "ahead t d (fst (cycle t p)) = Some c" "crash = (c \<in> trail t)"
      "t' = t\<lparr>trail := insert c (trail t), cycle := (cycle t)(p := (c, d))\<rparr>"
proof (cases "\<not> passive \<and> d = snd (cycle t p) \<or> d = turned_back (snd (cycle t p))")
  case True
  then show ?thesis using assms stay by (simp add: tron_command_def split_beta)
next
  case False
  then obtain c where "ahead t d (fst (cycle t p)) = Some c" "crash = (c \<in> trail t)"
      "t' = t\<lparr>trail := insert c (trail t), cycle := (cycle t)(p := (c, d))\<rparr>"
    using assms by (auto simp: tron_command_def split_beta)
  then show ?thesis by (rule go)
qed

text \<open>The cells after a move into \<open>c\<close>.\<close>

lemma room_insert:
  assumes "c \<in> cells t"
  shows "room (t\<lparr>trail := insert c (trail t), cycle := C\<rparr>) \<le> room t"
    and "c \<notin> trail t \<Longrightarrow> room (t\<lparr>trail := insert c (trail t), cycle := C\<rparr>) < room t"
proof -
  have free: "cells t - insert c (trail t) = (cells t - trail t) - {c}" by blast
  show "room (t\<lparr>trail := insert c (trail t), cycle := C\<rparr>) \<le> room t"
    by (simp add: room_def free card_Diff1_le)
  assume "c \<notin> trail t"
  with assms have "card ((cells t - trail t) - {c}) < card (cells t - trail t)"
    by (intro card_Diff1_less) simp_all
  then show "room (t\<lparr>trail := insert c (trail t), cycle := C\<rparr>) < room t"
    by (simp add: room_def free)
qed

lemma tron_command_room:
  assumes r: "riders_on t" and c: "tron_command p d passive t = Some (crash, t')"
  shows "riders_on t'" and "room t' \<le> room t"
    and "passive \<Longrightarrow> d = snd (cycle t p) \<Longrightarrow> d \<noteq> UNCHANGED \<Longrightarrow> \<not> crash \<Longrightarrow> room t' < room t"
proof -
  have "riders_on t' \<and> room t' \<le> room t
    \<and> (passive \<longrightarrow> d = snd (cycle t p) \<longrightarrow> d \<noteq> UNCHANGED \<longrightarrow> \<not> crash \<longrightarrow> room t' < room t)"
    using c
  proof (cases rule: tron_command_cases)
    case stay
    have "e = turned_back e \<longrightarrow> e = UNCHANGED" for e by (cases e) simp_all
    with stay r show ?thesis by auto
  next
    case (go c)
    have "fst (cycle t p) \<in> cells t" using r by (simp add: riders_on_def)
    then have in_c: "c \<in> cells t" using ahead_in_cells [OF go(1)] by simp
    have "riders_on t'" using r in_c by (simp add: riders_on_def go(3))
    then show ?thesis using room_insert [OF in_c] by (simp add: go(2,3))
  qed
  then show "riders_on t'" "room t' \<le> room t"
    "passive \<Longrightarrow> d = snd (cycle t p) \<Longrightarrow> d \<noteq> UNCHANGED \<Longrightarrow> \<not> crash \<Longrightarrow> room t' < room t"
    by simp_all
qed


text \<open>
  What an event does to the free cells as long as the game goes on: a tick takes one at least, a key
  gives none back. \<open>crashed\<close> are the screens that only a crash selects.
\<close>

abbreviation crashed :: "screenState set" where
  "crashed \<equiv> {GOONE, GOTWO, QUIT}"

definition facing_ahead :: "tron \<Rightarrow> bool" where
  "facing_ahead t \<longleftrightarrow> (\<forall>p. snd (cycle t p) \<noteq> UNCHANGED)"

lemma tron_ok_facing_ahead: "tron_ok v \<Longrightarrow> facing_ahead (tron_of v)"
  by (simp add: facing_ahead_def tron_ok_def on_grid_def)

lemma tron_tick_room:
  assumes "riders_on t" and "facing_ahead t" and "tron_tick t = Some (r, t')"
  shows "riders_on t' \<and> r \<in> {0, 1, 2} \<and> (r = 0 \<longrightarrow> room t' < room t)"
proof -
  obtain crash t1 where b: "tron_command BLUE (snd (cycle t BLUE)) True t = Some (crash, t1)"
    using assms(3) by (auto simp: tron_tick_def split: option.splits)
  note b1 = tron_command_room [OF assms(1) b]
  show ?thesis
  proof (cases crash)
    case True
    then show ?thesis using assms(3) b b1(1) by (simp add: tron_tick_def)
  next
    case False
    then have lt: "room t1 < room t" using b1(3) assms(2) by (simp add: facing_ahead_def)
    obtain crash2 t2 where o: "tron_command ORANGE (snd (cycle t ORANGE)) True t1 = Some (crash2, t2)"
      and r: "r = (if crash2 then 2 else 0)" "t' = t2"
      using assms(3) b False by (auto simp: tron_tick_def split: option.splits bool.splits)
    show ?thesis using lt tron_command_room(1,2) [OF b1(1) o] r by auto
  qed
qed

lemma tron_event_key_room:
  assumes "riders_on t" and "tron_event (Key pause_key m) (t, sc) = Some (t', sc')"
  shows "room t' \<le> room t"
proof (cases "dir m = UNCHANGED")
  case False
  then obtain crash where "tron_command (playerColor m) (dir m) False t = Some (crash, t')"
    using assms(2) by (auto simp: Let_def)
  then show ?thesis using tron_command_room(2) [OF assms(1)] by blast
qed (use assms(2) in simp)


section \<open>The game loop ends\<close>

text \<open>A timer interrupt that is not a tick brings the next tick closer, also when the counter wraps around.\<close>

definition until_tick :: "u32 \<Rightarrow> nat" where
  "until_tick n = (LEAST k. fifth (n + 1 + of_nat k))"

lemma until_tick_less:
  assumes "\<not> fifth (n + 1)"
  shows "until_tick (n + 1) < until_tick n"
proof -
  have "fifth 0" by (simp add: fifth_def)
  then have "fifth (n + 1 + of_nat (unat (- (n + 1))))" by simp
  then have "(LEAST k. fifth (n + 1 + of_nat k)) = Suc (LEAST k. fifth (n + 1 + of_nat (Suc k)))"
    by (rule Least_Suc) (use assms in simp)
  then show ?thesis by (simp add: until_tick_def algebra_simps)
qed

lemma play_room:
  assumes t: "riders_on t" "facing_ahead t"
    and p: "play ((if b then [Tick] else []) @ (if k then [Key pause_key m] else [])) (t, S_GAME) = Some (t', S_GAME)"
  shows "room t' \<le> room t \<and> (b \<longrightarrow> room t' < room t)"
proof -
  obtain t1 sc where tick: "play (if b then [Tick] else []) (t, S_GAME) = Some (t1, sc)"
    and key: "play (if k then [Key pause_key m] else []) (t1, sc) = Some (t', S_GAME)"
    using p unfolding play_append by (auto split: Option.bind_splits)
  have "sc = S_GAME"
  proof (rule ccontr)
    assume "sc \<noteq> S_GAME"
    then have "sc \<in> {GOONE, GOTWO}" using tick by (auto split: if_splits Option.bind_splits prod.splits)
    then show False
      using key by (auto simp: toggle_pause_def Let_def split: if_splits Option.bind_splits prod.splits)
  qed
  then have "room t1 \<le> room t \<and> (b \<longrightarrow> room t1 < room t) \<and> riders_on t1"
    using tick t tron_tick_room [OF t] by (cases b) (fastforce split: Option.bind_splits if_splits)+
  moreover have "room t' \<le> room t1" if "riders_on t1"
  proof (cases k)
    case True
    then have "tron_event (Key pause_key m) (t1, sc) = Some (t', S_GAME)"
      using key by (auto simp del: tron_event.simps split: Option.bind_splits)
    then show ?thesis by (rule tron_event_key_room [OF that])
  qed (use key in simp)
  ultimately show ?thesis by auto
qed


lemma sgame_iter_room:
  assumes ok: "playing s" and sc: "screenState s = S_GAME" and r: "receive_hw S (world s) = (Some ints, w)"
    and t: "play (iter_events S s) (game_of s) = Some (game_of t)" and "screenState t = S_GAME"
  shows "room (tron_of (vid t)) \<le> room (tron_of (vid s))
    \<and> (tick_due ints s \<longrightarrow> room (tron_of (vid t)) < room (tron_of (vid s)))"
proof -
  obtain q m where k: "key_event S (s\<lparr>world := w\<rparr>) = Key q m" by (simp add: key_event_def)
  have "tick_due ints (s\<lparr>world := w\<rparr>) = tick_due ints s" by (simp add: tick_due_def)
  then have e: "iter_events S s =
      (if tick_due ints s then [Tick] else []) @ (if raised ints (bit_no_keyboard s) then [Key q m] else [])"
    using r k by (simp add: iter_events_def message_events_def)
  note t [unfolded e sc assms(5)]
  moreover have "tron_ok (vid s)" using ok by (simp add: playing_def)
  ultimately show ?thesis
    using play_room tron_ok_riders_on tron_ok_facing_ahead by blast
qed

text \<open>Reading the ports of the devices does not add to the messages that wait.\<close>

definition ports_quiet :: "'w sys \<Rightarrow> ('w \<Rightarrow> nat) \<Rightarrow> bool" where
  "ports_quiet S busy \<longleftrightarrow> (\<forall>port w. busy (inworld S port w) \<le> busy w)"

text \<open>The players stay on the grid, however long the game lasts.\<close>

definition stays_on_grid :: "'w sys \<Rightarrow> ('w, 'z) main_st_scheme \<Rightarrow> bool" where
  "stays_on_grid S s \<longleftrightarrow> (\<forall>n. play (run_events S n s) (game_of s) \<noteq> None)"

definition game_measure :: "('w \<Rightarrow> nat) \<Rightarrow> ('w, 'z) main_st_scheme \<Rightarrow> nat \<times> nat \<times> nat \<times> nat" where
  "game_measure busy s = (if screenState s = S_GAME then 1 else 0, room (tron_of (vid s)),
     until_tick (totalInterrupts s), busy (world s))"

abbreviation game_order :: "('w \<Rightarrow> nat) \<Rightarrow> (('w, 'z) main_st_scheme \<times> ('w, 'z) main_st_scheme) set" where
  "game_order busy \<equiv> inv_image (less_than <*lex*> less_than <*lex*> less_than <*lex*> less_than) (game_measure busy)"

lemma stays_on_grid_step:
  assumes "playing s" and "screenState s = S_GAME" and on: "stays_on_grid S s"
    and r: "receive_hw S (world s) = (hw, w)"
  obtains t where "sgame_iter S s = Inr t" "playing t" "stays_on_grid S t"
    "play (iter_events S s) (game_of s) = Some (game_of t)"
    "bit_no_timer t = bit_no_timer s" "bit_no_keyboard t = bit_no_keyboard s"
    "world t \<in> {w, inworld S KBC_OUT_BUF (inworld S KBC_ST_REG w)}"
    "totalInterrupts t = (case hw of None \<Rightarrow> totalInterrupts s
       | Some ints \<Rightarrow> if raised ints (bit_no_timer s) then totalInterrupts s + 1 else totalInterrupts s)"
proof -
  have "play (run_events S (Suc 0) s) (game_of s) \<noteq> None" using on unfolding stays_on_grid_def by blast
  then obtain y where y: "play (iter_events S s) (game_of s) = Some y"
    using assms(2) by (auto simp: play_append split: Option.bind_splits)
  obtain t where t: "sgame_iter S s = Inr t" "playing t" "game_of t = y"
    "bit_no_timer t = bit_no_timer s" "bit_no_keyboard t = bit_no_keyboard s"
    "world t \<in> {w, inworld S KBC_OUT_BUF (inworld S KBC_ST_REG w)}"
    "totalInterrupts t = (case hw of None \<Rightarrow> totalInterrupts s
       | Some ints \<Rightarrow> if raised ints (bit_no_timer s) then totalInterrupts s + 1 else totalInterrupts s)"
    by (rule sgame_iter_event [OF assms(1) r y])
  have "play (run_events S n t) (game_of t) \<noteq> None" for n
    using on [unfolded stays_on_grid_def, rule_format, of "Suc n"] y t(1,3) assms(2)
    by (simp add: play_append)
  then have "stays_on_grid S t" by (simp add: stays_on_grid_def)
  then show ?thesis using that t y by blast
qed


lemma game_iteration_closer:
  assumes ok: "playing s" and sc: "screenState s = S_GAME" and on: "stays_on_grid S s"
    and line: "keeps_interrupting S (bit_no_timer s) busy" and quiet: "ports_quiet S busy"
  obtains t where "sgame_iter S s = Inr t" "playing t" "stays_on_grid S t" "bit_no_timer t = bit_no_timer s"
    "(t, s) \<in> game_order busy"
proof -
  obtain hw w where r: "receive_hw S (world s) = (hw, w)" by fastforce
  obtain t where t: "sgame_iter S s = Inr t" "playing t" "stays_on_grid S t"
    "play (iter_events S s) (game_of s) = Some (game_of t)" "bit_no_timer t = bit_no_timer s"
    and world: "world t \<in> {w, inworld S KBC_OUT_BUF (inworld S KBC_ST_REG w)}"
    and total: "totalInterrupts t = (case hw of None \<Rightarrow> totalInterrupts s
       | Some ints \<Rightarrow> if raised ints (bit_no_timer s) then totalInterrupts s + 1 else totalInterrupts s)"
    using stays_on_grid_step [OF ok sc on r] by blast
  have "busy (inworld S KBC_OUT_BUF (inworld S KBC_ST_REG w)) \<le> busy w"
    using quiet unfolding ports_quiet_def by (meson order_trans)
  then have b: "busy (world t) \<le> busy w" using world by auto
  have src: "(case hw of Some ints \<Rightarrow> raised ints (bit_no_timer s) | None \<Rightarrow> False) \<or> busy w < busy (world s)"
    using line [unfolded keeps_interrupting_def, rule_format, of "world s"] r by simp
  have "(t, s) \<in> game_order busy" if "screenState t = S_GAME"
  proof (cases hw)
    case None
    then have "game_of t = game_of s" using t(4) r by (simp add: iter_events_def)
    then show ?thesis using None src b total sc by (simp add: game_measure_def)
  next
    case (Some ints)
    then have r': "receive_hw S (world s) = (Some ints, w)" using r by simp
    note room = sgame_iter_room [OF ok sc r' t(4) that]
    show ?thesis
    proof (cases "raised ints (bit_no_timer s)")
      case True
      then show ?thesis
        using room that sc total Some until_tick_less [of "totalInterrupts s"]
        by (auto simp: game_measure_def tick_due_def)
    next
      case False
      then show ?thesis using room src b that sc total Some by (auto simp: game_measure_def)
    qed
  qed
  moreover have "(t, s) \<in> game_order busy" if "screenState t \<noteq> S_GAME"
    using that sc by (simp add: game_measure_def)
  ultimately show ?thesis using that t by blast
qed

inductive_cases screen_step_from_S_GAME: "screen_step S_GAME b"

lemma sgame_iter_screen:
  assumes "sgame_iter S s = Inr t" and "screenState s = S_GAME"
  shows "screenState t \<in> {S_GAME, PAUSE, GOONE, GOTWO, QUIT}"
proof -
  have "screen_iter S s = Inr t" using assms by (simp add: screen_iter_def)
  then have "screen_step S_GAME (screenState t)" using screen_iter_step assms(2) by metis
  then show ?thesis by (rule screen_step_from_S_GAME) simp_all
qed

lemma game_loop_returns:
  assumes "playing s" and "stays_on_grid S s"
    and "keeps_interrupting S (bit_no_timer s) busy" and "ports_quiet S busy" and "screenState s = S_GAME"
  obtains t where "while_res (\<lambda>s. screenState s = S_GAME) (\<lambda>s. Some (sgame_iter S s)) s = Some (Inr t)"
    "playing t" "screenState t \<in> {PAUSE, GOONE, GOTWO, QUIT}"
proof -
  let ?I = "\<lambda>t. playing t \<and> stays_on_grid S t \<and> bit_no_timer t = bit_no_timer s
    \<and> screenState t \<in> {S_GAME, PAUSE, GOONE, GOTWO, QUIT}"
  have "\<exists>t. while_res (\<lambda>s. screenState s = S_GAME) (\<lambda>s. Some (sgame_iter S s)) s = Some (Inr t)
      \<and> ?I t \<and> \<not> screenState t = S_GAME"
  proof (rule while_res_returns [of "game_order busy"])
    show "wf (game_order busy)" by (intro wf_inv_image wf_lex_prod wf_less_than)
    show "\<exists>t. Some (sgame_iter S u) = Some (Inr t) \<and> ?I t \<and> (t, u) \<in> game_order busy"
      if I: "?I u" and u: "screenState u = S_GAME" for u
    proof -
      obtain t where t: "sgame_iter S u = Inr t" "playing t" "stays_on_grid S t"
        "bit_no_timer t = bit_no_timer u" "(t, u) \<in> game_order busy"
        using game_iteration_closer [of u S busy] I u assms(3,4) by auto
      with I sgame_iter_screen [OF t(1) u] show ?thesis by simp
    qed
  qed (use assms in simp)
  with that show ?thesis by blast
qed



section \<open>The last move known\<close>

text \<open>
  \<open>key_pressed\<close> acts on \<open>nextMove\<close> after every keyboard interrupt, whether or not the interrupt has set
  it. That does no harm while the last move known is one that would be ignored.
\<close>

definition settled :: "('w, 'z) main_st_scheme \<Rightarrow> bool" where
  "settled s \<longleftrightarrow> dir (nextMove s) = UNCHANGED \<or> ignored (nextMove s) False (vid s)"

definition same_directions :: "video_st \<Rightarrow> video_st \<Rightarrow> bool" where
  "same_directions v v' \<longleftrightarrow> (\<forall>p. currentDirection (the_player p v') = currentDirection (the_player p v))"

lemma settled_cong:
  "settled s \<Longrightarrow> nextMove s' = nextMove s \<Longrightarrow> same_directions (vid s) (vid s') \<Longrightarrow> settled s'"
  by (simp add: settled_def ignored_def same_directions_def Let_def)

lemma same_directions_refl: "same_directions v v"
  by (simp add: same_directions_def)

lemma same_directions_trans: "same_directions u v \<Longrightarrow> same_directions v w \<Longrightarrow> same_directions u w"
  by (simp add: same_directions_def)

lemma draw_front_end_player:
  assumes "draw_front_end p c q v = Inr (r, v')"
  shows "the_player p' v' = (if p' = p then q else the_player p' v)"
proof -
  obtain f u where u: "vg_draw_rectangle (pos_x q) (pos_y q) SIZE_FRONT_END SIZE_FRONT_END c v = Inr (f, u)"
    and v': "v' = (if p = BLUE then u\<lparr>bluePlayer := q\<rparr> else u\<lparr>orangePlayer := q\<rparr>)"
    using assms unfolding draw_front_end_def bind_res_eq_Inr_iff by auto
  note same = frame_rest_eqD(5,6) [OF vg_draw_rectangle_geom [OF u]]
  show ?thesis by (cases p; cases p') (simp_all add: v' same)
qed

lemma stepped_direction: "d \<noteq> UNCHANGED \<Longrightarrow> currentDirection (stepped d q) = d"
  by (cases d) (simp_all add: stepped_def)

lemma move_player_settles:
  assumes m: "move_player m False v = Inr (r, v')"
  shows "dir m = UNCHANGED \<or> ignored m False v'"
proof (cases "ignored m False v")
  case True
  then have "v' = v" using m by (simp add: move_player_ignored)
  with True show ?thesis by simp
next
  case False
  show ?thesis
  proof (cases "dir m = UNCHANGED")
    case d: False
    have "the_player (playerColor m) v' = stepped (dir m) (the_player (playerColor m) v)"
      using draw_front_end_player [OF m [unfolded move_player_acts [OF False d]], of "playerColor m"]
      by (simp only: if_True refl)
    then show ?thesis by (simp only: ignored_def Let_def stepped_direction [OF d]) simp
  qed simp
qed


lemma draw_img_frame_rest: "draw_img img x y v = Inr v' \<Longrightarrow> frame_rest v' = frame_rest v"
  unfolding draw_img_def Let_def by (erule for_n_preserves) (auto split: if_splits)

lemma frame_rest_same_directions: "frame_rest v' = frame_rest v \<Longrightarrow> same_directions v v'"
proof -
  assume "frame_rest v' = frame_rest v"
  note same = frame_rest_eqD(5,6) [OF this]
  show ?thesis by (simp add: same_directions_def same)
qed

lemma passive_move_keeps_direction:
  assumes m: "move_player m True v = Inr (r, v')" and d: "dir m = currentDirection (the_player (playerColor m) v)"
  shows "same_directions v v'"
proof (cases "ignored m True v \<or> dir m = UNCHANGED")
  case True
  then have "v' = v"
    using m by (cases "ignored m True v") (simp_all add: move_player_ignored move_player_unchanged)
  then show ?thesis by (simp add: same_directions_refl)
next
  case False
  then have m': "draw_front_end (playerColor m) (colour_of (playerColor m))
      (stepped (dir m) (the_player (playerColor m) v)) v = Inr (r, v')"
    using m by (simp add: move_player_acts)
  show ?thesis
    unfolding same_directions_def draw_front_end_player [OF m'] using False d
    by (cases "playerColor m") (simp_all add: stepped_direction)
qed

lemma passive_move_players_keeps_directions:
  assumes "passive_move_players v = Inr (r, v')"
  shows "same_directions v v'"
proof -
  obtain r1 v1 where b: "move_player \<lparr>dir = currentDirection (bluePlayer v), playerColor = BLUE\<rparr> True v = Inr (r1, v1)"
    and rest: "(if r1 \<noteq> 0 then Inr (1, v1) else bind_res
      (move_player \<lparr>dir = currentDirection (orangePlayer v), playerColor = ORANGE\<rparr> True v1) (\<lambda>(r, v).
        if r \<noteq> 0 then Inr (2, v) else Inr (0, v))) = (Inr (r, v') :: fault + _)"
    using assms by (auto simp: passive_move_players_def bind_res_eq_Inr_iff Let_def)
  have vb: "same_directions v v1" by (rule passive_move_keeps_direction [OF b]) simp
  show ?thesis
  proof (cases "r1 \<noteq> 0")
    case True
    then show ?thesis using rest vb by simp
  next
    case False
    then obtain r2 where o: "move_player \<lparr>dir = currentDirection (orangePlayer v), playerColor = ORANGE\<rparr> True v1 = Inr (r2, v')"
      using rest by (auto simp: bind_res_eq_Inr_iff split: if_splits)
    have "currentDirection (orangePlayer v1) = currentDirection (orangePlayer v)"
      using vb [unfolded same_directions_def, rule_format, of ORANGE] by simp
    then have "same_directions v1 v'"
      by (intro passive_move_keeps_direction [OF o]) simp
    with vb show ?thesis by (rule same_directions_trans)
  qed
qed

lemma key_pressed_settles:
  assumes "key_pressed S s = Inr s'"
  shows "settled s'"
proof (cases "dir (nextMove (kbc_ih S s)) = UNCHANGED")
  case True
  then show ?thesis using assms by (auto simp: key_pressed_def settled_def)
next
  case False
  then obtain r v where m: "move_player (nextMove (kbc_ih S s)) False (vid s) = Inr (r, v)"
    and s': "s' = (kbc_ih S s)\<lparr>vid := v, screenState := (if r = 1 then QUIT else screenState (kbc_ih S s))\<rparr>"
    using assms by (auto simp: key_pressed_def bind_res_eq_Inr_iff Let_def)
  show ?thesis using move_player_settles [OF m] by (simp add: s' settled_def)
qed

lemma timer_tick_moves:
  assumes "timer_tick s = Inr s'"
  shows "nextMove s' = nextMove s \<and> same_directions (vid s) (vid s')"
  using assms
proof (cases rule: timer_tick_cases)
  case (tick r v)
  then show ?thesis
    using passive_move_players_keeps_directions [OF tick(1)] by (simp add: timer_int_handler_def)
next
  case idle
  then show ?thesis by (simp add: timer_int_handler_def same_directions_refl)
qed

lemma timer_tick_settled: "timer_tick s = Inr s' \<Longrightarrow> settled s \<Longrightarrow> settled s'"
  by (drule timer_tick_moves) (elim conjE settled_cong)

text \<open>The iterations of one match: the game and its pauses.\<close>

inductive match_run :: "'w sys \<Rightarrow> ('w, 'z) main_st_scheme \<Rightarrow> ('w, 'z) main_st_scheme \<Rightarrow> bool" for S s where
  match_refl: "match_run S s s"
| match_step: "match_run S s t \<Longrightarrow> screenState t \<in> {S_GAME, PAUSE} \<Longrightarrow> screen_iter S t = Inr u \<Longrightarrow> match_run S s u"

lemma pause_enter_settled:
  assumes "pause_enter s = Inr s'" and "settled s"
  shows "settled s'"
proof (cases "printed s")
  case True
  then show ?thesis using assms by (simp add: pause_enter_def)
next
  case False
  then obtain u v where u: "save_screen s = Inr u" and d: "draw_img (img_pause (imgs u)) 0 0 (vid u) = Inr v"
    and s': "s' = u\<lparr>printed := True, paused := True, vid := v\<rparr>"
    using assms(1) by (auto simp: pause_enter_def bind_res_eq_Inr_iff Let_def)
  have "vid u = vid s" "nextMove u = nextMove s" by (rule save_screenD [OF u], simp)+
  with frame_rest_same_directions [OF draw_img_frame_rest [OF d]] s' show ?thesis
    by (intro settled_cong [OF assms(2)]) simp_all
qed

lemma sgame_enter_settled:
  assumes e: "sgame_enter s = Inr s'" and g: "startGame s" and "settled s"
  shows "settled s'"
proof (cases "paused s")
  case True
  then obtain u where u: "restore_screen s = Inr u" and s': "s' = u\<lparr>paused := False, printed := False\<rparr>"
    using e g by (auto simp: sgame_enter_def begin_game_def bind_res_eq_Inr_iff)
  have "same_directions (vid s) (vid u) \<and> nextMove u = nextMove s"
    by (rule restore_screenD [OF u]) (simp add: same_directions_def)
  with s' show ?thesis by (intro settled_cong [OF assms(3)]) simp_all
next
  case False
  then show ?thesis using e g assms(3) by (simp add: sgame_enter_def begin_game_def)
qed

lemma settled_world [simp]: "settled (s\<lparr>world := w\<rparr>) = settled s"
  by (simp add: settled_def)

lemma match_iter:
  assumes "screen_iter S s = Inr s'" and sc: "screenState s \<in> {S_GAME, PAUSE}" and "startGame s" and "settled s"
  shows "startGame s' \<and> settled s'"
  using assms(1)
proof (cases rule: screen_iter_cases)
  case (halted mid w)
  have "settled mid" "startGame mid"
    using pause_enter_settled [OF halted(2) assms(4)] pause_enterD(2) [OF halted(2)] assms(3) by simp_all
  with halted(3) show ?thesis using key_pressed_settles key_pressedD(3) by fastforce
next
  case (game mid w t)
  have mid: "settled (mid\<lparr>world := w\<rparr>)" "startGame (mid\<lparr>world := w\<rparr>)"
    using sgame_enter_settled [OF game(2) assms(3,4)] sgame_enterD(2) [OF game(2)] by simp_all
  have "settled t \<and> startGame t"
    using game(3)
  proof
    assume "timer_tick (mid\<lparr>world := w\<rparr>) = Inr t"
    with timer_tick_settled [OF this mid(1)] timer_tickD(3) mid(2) show ?thesis by blast
  qed (use mid in simp)
  with game(4) show ?thesis using key_pressed_settles key_pressedD(3) by blast
qed (use sc in auto)

lemma match_run_settled:
  assumes "match_run S s t" and "startGame s" and "settled s"
  shows "startGame t \<and> settled t"
  using assms by (induction rule: match_run.induct) (simp, blast dest: match_iter)

lemma settled_key:
  assumes "settled s" and u: "\<not> valid_kbd_status (kbc_status S (world s)) \<or> key_move (kbc_data S (world s)) = None"
  shows "key_pressed S s = Inr (kbc_ih S s)"
proof -
  have "nextMove (kbc_ih S s) = nextMove s" using u by (auto simp: kbc_ih_eq Let_def)
  with assms(1) show ?thesis
    unfolding key_pressed_def Let_def settled_def by (auto simp: move_player_ignored)
qed



section \<open>Properties\<close>

text \<open>
  C3. A whole game: the run of the game loop on any number of messages refines the run of the abstract
  game on the ticks and key releases these messages deliver. As long as the players stay on the grid
  the program does not fault, the picture and the positions are those of the abstract game, and
  the screen after the run is the one the abstract game selects.
\<close>

theorem game_run_refines_tron:
  assumes "playing s" and "play (run_events S n s) (tron_of (vid s), screenState s) = Some (g, sc)"
  shows "\<exists>t. game_run S n s = Inr t \<and> tron_ok (vid t) \<and> tron_of (vid t) = g \<and> screenState t = sc"
  using in_game.run_exec [OF assms] by (auto simp: playing_def)

lemma facing_playing: "playing (main_demo ins ms facing S_GAME)"
  using facing_ok(1) by (simp add: playing_def main_demo_def)

theorem game_run_refines_tron_witness:
  "\<exists>t. game_run script_sys 1 (main_demo [] [hw_message 1] facing S_GAME) = Inr t
     \<and> trail (tron_of (vid t)) = {(61, 60), (60, 60)} \<and> screenState t = S_GAME"
proof -
  let ?s = "main_demo [] [hw_message 1] facing S_GAME"
  have e: "run_events script_sys 1 ?s = [Tick]"
    by (simp add: iter_events_def message_events_def tick_due_def fifth_def main_demo_def receive_demo raised_keyboard
        split: sum.split)
  obtain g where g: "tron_tick (tron_of facing) = Some (0, g)" "trail g = {(61, 60), (60, 60)}"
    by (auto simp: tron_tick_def tron_command_def facing_tron)
  have "play (run_events script_sys 1 ?s) (tron_of (vid ?s), screenState ?s) = Some (g, S_GAME)"
    unfolding e using g(1) by (simp add: main_demo_def)
  then obtain t where "game_run script_sys 1 ?s = Inr t" "tron_of (vid t) = g" "screenState t = S_GAME"
    using game_run_refines_tron [OF facing_playing] by blast
  with g(2) show ?thesis by blast
qed

text \<open>
  C8. A game ends: if the timer keeps interrupting, reading the ports of the keyboard does not produce
  messages, and the players stay on the grid, then the loop for \<open>S_GAME\<close> returns, without a fault,
  with an end screen, the pause screen or the end of the program selected. (The free cells of the
  grid, the interrupts until the next tick and the messages before the next timer interrupt decrease
  in lexicographic order.)
\<close>

theorem game_loop_ends:
  assumes "playing s" and "screenState s = S_GAME" and "stays_on_grid S s"
    and "keeps_interrupting S (bit_no_timer s) busy" and "ports_quiet S busy"
  shows "\<exists>t. while_res (\<lambda>s. screenState s = S_GAME) (\<lambda>s. Some (sgame_iter S s)) s = Some (Inr t)
    \<and> tron_ok (vid t) \<and> screenState t \<in> {PAUSE, GOONE, GOTWO, QUIT}"
  using game_loop_returns [OF assms(1,3,4,5,2)] by (auto simp: playing_def)

text \<open>A clock that interrupts with every message, and a screen on which every cell is taken.\<close>

definition clock_sys :: "script sys" where
  "clock_sys = script_sys\<lparr>driver_receive := (\<lambda>w. (0, hw_message 1, 4, w))\<rparr>"

lemma receive_clock: "receive_hw clock_sys w = (Some 1, w)"
  by (simp add: receive_hw_def clock_sys_def hw_message_def is_ipc_notify_def)

definition full_grid :: video_st where
  "full_grid = facing\<lparr>video_mem := fill_mem 255 1440000 (video_mem facing)\<rparr>"

lemma full_grid_ok: "tron_ok full_grid"
  using facing_ok(1) by (simp add: full_grid_def tron_ok_def on_grid_def wf_video_def)

lemma full_grid_tick: "\<exists>g. tron_tick (tron_of full_grid) = Some (1, g)"
proof -
  have "pixel full_grid 305 300 = 0xFFFFFF"
    using white_pixel [OF facing_ok(2), of 305 300 "video_mem facing"] by (simp add: full_grid_def)
  then have "(61, 60) \<in> trail (tron_of full_grid)"
    by (simp add: free_colour_def) (simp add: full_grid_def facing_def demo_115_def tiny_video_def)
  moreover have "cycle (tron_of full_grid) BLUE = ((60, 60), RIGHT)" "grid_w (tron_of full_grid) = 160"
    by (simp_all add: full_grid_def facing_def demo_115_def tiny_video_def cell_of_def)
  ultimately show ?thesis by (simp add: tron_tick_def tron_command_def)
qed

lemma clock_stays_on_grid: "stays_on_grid clock_sys (main_demo [] [] full_grid S_GAME)"
proof -
  let ?s = "main_demo [] [] full_grid S_GAME"
  have p: "playing ?s" using full_grid_ok by (simp add: playing_def main_demo_def)
  obtain g where g: "tron_tick (tron_of full_grid) = Some (1, g)" using full_grid_tick ..
  have e: "iter_events clock_sys ?s = [Tick]"
    by (simp add: iter_events_def message_events_def tick_due_def fifth_def main_demo_def receive_clock raised_keyboard)
  have y: "play (iter_events clock_sys ?s) (game_of ?s) = Some (g, GOTWO)"
    unfolding e using g by (simp add: main_demo_def)
  obtain t where "sgame_iter clock_sys ?s = Inr t" "screenState t = GOTWO"
    using sgame_iter_event [OF p receive_clock y] by (metis prod.inject)
  moreover have "run_events clock_sys m t = []" if "screenState t = GOTWO" for m and t :: "script main_st"
    using that by (cases m) simp_all
  moreover have "screenState ?s = S_GAME" by (simp add: main_demo_def)
  ultimately have "run_events clock_sys n ?s = (if n = 0 then [] else [Tick])" for n
    using e by (cases n) simp_all
  then show ?thesis using y e by (simp add: stays_on_grid_def)
qed

theorem game_loop_ends_witness:
  "\<exists>t. while_res (\<lambda>s. screenState s = S_GAME) (\<lambda>s. Some (sgame_iter clock_sys s))
         (main_demo [] [] full_grid S_GAME) = Some (Inr t) \<and> screenState t \<noteq> S_GAME"
proof -
  let ?s = "main_demo [] [] full_grid S_GAME"
  have "playing ?s" "screenState ?s = S_GAME"
    using full_grid_ok by (simp_all add: playing_def main_demo_def)
  moreover have "keeps_interrupting clock_sys (bit_no_timer ?s) (\<lambda>_. 0)"
    by (simp add: keeps_interrupting_def receive_clock main_demo_def raised_keyboard)
  moreover have "ports_quiet clock_sys (\<lambda>_. 0)" by (simp add: ports_quiet_def)
  ultimately show ?thesis using game_loop_ends [OF _ _ clock_stays_on_grid] by fastforce
qed


text \<open>
  C10. Only the eight keys of the players move them: in a match that began with no move known (or one
  that would be ignored), however many messages have been handled, pauses included, a keyboard interrupt
  that does not deliver the break code of one of the eight keys leaves the picture and both players
  as they are, although \<open>key_pressed\<close> calls \<open>move_player\<close> again with the last move known.
\<close>

theorem unrelated_keys_move_nobody:
  assumes "startGame s" and "dir (nextMove s) = UNCHANGED \<or> ignored (nextMove s) False (vid s)"
    and "match_run S s t"
    and "\<not> valid_kbd_status (kbc_status S (world t)) \<or> key_move (kbc_data S (world t)) = None"
  shows "\<exists>u. key_pressed S t = Inr u \<and> vid u = vid t \<and> nextMove u = nextMove t
    \<and> screenState u = screenState (kbc_ih S t)"
proof -
  have "settled t" using match_run_settled [OF assms(3,1)] assms(2) by (simp add: settled_def)
  then have "key_pressed S t = Inr (kbc_ih S t)" using settled_key assms(4) by blast
  moreover have "nextMove (kbc_ih S t) = nextMove t" using assms(4) by (auto simp: kbc_ih_eq Let_def)
  ultimately show ?thesis by simp
qed

lemma key_move_30: "key_move 30 = None"
  by (simp add: key_move_def)

text \<open>Key A is pressed (code 30) after blue has gone right.\<close>

theorem unrelated_keys_move_nobody_witness:
  "\<exists>u. key_pressed script_sys ((main_demo [0x15, 30] [] facing S_GAME)\<lparr>nextMove := \<lparr>dir = RIGHT, playerColor = BLUE\<rparr>\<rparr>)
     = Inr u \<and> vid u = facing"
proof -
  let ?s = "(main_demo [0x15, 30] [] facing S_GAME)\<lparr>nextMove := \<lparr>dir = RIGHT, playerColor = BLUE\<rparr>\<rparr>"
  have "startGame ?s" "ignored (nextMove ?s) False (vid ?s)" "vid ?s = facing"
    by (simp_all add: main_demo_def ignored_def facing_def)
  moreover have "key_move (kbc_data script_sys (world ?s)) = None"
    by (simp add: main_demo_def kbc_demo key_move_30)
  ultimately show ?thesis
    using unrelated_keys_move_nobody [OF _ _ match_refl, of ?s script_sys] by auto
qed

text \<open>
  C11. The last move known outlives the game. When a game starts while \<open>nextMove\<close> still holds the move up
  or down that a player made last in the game before, the first keyboard interrupt of the new game,
  whatever it delivers as long as it is not one of the eight keys, turns that player up or down and
  moves it by one cell.
\<close>

theorem next_game_replays_last_move:
  assumes v: "mode_115 (vid s)" and "hour s < 0x19" and "\<not> startGame s" and "1860000 \<le> mapped (vid s)"
    and m: "nextMove s = \<lparr>dir = d, playerColor = p\<rparr>" "d = UP \<and> y = 59 \<or> d = DOWN \<and> y = 61"
    and k: "\<not> valid_kbd_status (kbc_status S (world s)) \<or> key_move (kbc_data S (world s)) = None"
  shows "\<exists>t u. begin_game s = Inr t \<and> key_pressed S t = Inr u
    \<and> cycle (tron_of (vid u)) p = ((if p = BLUE then 60 else 100, y), d)
    \<and> trail (tron_of (vid u)) = {(if p = BLUE then 60 else 100, y)}"
proof -
  obtain w where w: "begin_game s = Inr (s\<lparr>vid := w, startGame := True, printed := False\<rparr>)" "tron_ok w"
    and start: "tron_of w = \<lparr>grid_w = 160, grid_h = 120, trail = {},
       cycle = (\<lambda>p. if p = BLUE then ((60, 60), RIGHT) else ((100, 60), LEFT))\<rparr>"
    using begin_game_115 [OF assms(1-4)] .
  let ?t = "s\<lparr>vid := w, startGame := True, printed := False\<rparr>"
  have n: "nextMove (kbc_ih S ?t) = nextMove s" using k by (auto simp: kbc_ih_eq Let_def)
  have d: "dir (nextMove (kbc_ih S ?t)) \<noteq> UNCHANGED" using m by (auto simp: n)
  let ?c = "(if p = BLUE then 60 else 100, y)"
  let ?g = "(tron_of w)\<lparr>trail := {?c}, cycle := (cycle (tron_of w))(p := (?c, d))\<rparr>"
  have "tron_command (playerColor (nextMove (kbc_ih S ?t))) (dir (nextMove (kbc_ih S ?t))) False (tron_of (vid ?t))
      = Some (False, ?g)"
    using m unfolding n by (auto simp: tron_command_def start)
  then obtain x where x: "tron_of x = ?g" "key_pressed S ?t = Inr ((kbc_ih S ?t)\<lparr>vid := x,
      screenState := (if False then QUIT else screenState (kbc_ih S ?t))\<rparr>)"
    using key_pressed_tron [OF _ refl d, of False ?g] w(2) by auto
  have "cycle (tron_of x) p = (?c, d)" "trail (tron_of x) = {?c}"
    unfolding x(1) by simp_all
  with w(1) x(2) show ?thesis
    by (intro exI [of _ ?t] exI [of _ "(kbc_ih S ?t)\<lparr>vid := x\<rparr>"]) (simp del: tron_of_simps)
qed

theorem next_game_replays_last_move_witness:
  "\<exists>t u. begin_game ((new_game 1860000)\<lparr>nextMove := \<lparr>dir = DOWN, playerColor = ORANGE\<rparr>\<rparr>) = Inr t
     \<and> key_pressed script_sys t = Inr u \<and> trail (tron_of (vid u)) = {(100, 61)}"
proof -
  let ?s = "(new_game 1860000)\<lparr>nextMove := \<lparr>dir = DOWN, playerColor = ORANGE\<rparr>\<rparr>"
  have "\<not> valid_kbd_status (kbc_status script_sys (world ?s))"
    by (simp add: new_game_def main_demo_def kbc_status_def inval_def script_simps demo_script_def valid_kbd_status_def)
  then show ?thesis
    using next_game_replays_last_move [of ?s DOWN ORANGE 61 script_sys] new_game_simps [of 1860000] by auto
qed

end
