(* ===== verification/Menu_Run.thy ===== *)
theory Menu_Run
  imports Main_Loop Event_Runs
begin

text \<open>
  The menus of \<open>proj/src/main.c\<close> as a user sees them: a pointer that the packets of the mouse move and
  three buttons. The bytes the mouse interrupts of a run deliver are cut into packets, the
  packets move the pointer and select a screen; the loops for \<open>MAIN\<close>, \<open>GOONE\<close> and \<open>GOTWO\<close> refine this. The
  layers below meet here: the framing and decoding of \<open>Mouse\<close>, the cursor and the pictures of \<open>Video\<close>,
  and the menu loops of \<open>Main_Loop\<close>.
\<close>


section \<open>The pointer and the buttons\<close>

text \<open>Abscissa and ordinate of the pointer, and the screen shown.\<close>

type_synonym pointer = "nat \<times> nat \<times> screenState"

text \<open>A packet: whether the left button is down, and the displacements.\<close>

type_synonym motion = "bool \<times> int \<times> int"

text \<open>One axis: 16-bit coordinates, kept 30 pixels from the edges of the resolution.\<close>

definition slide :: "nat \<Rightarrow> nat \<Rightarrow> int \<Rightarrow> nat" where
  "slide res p d = max 30 (min (nat ((int p + d) mod 65536)) (res - 30))"

definition button :: "nat \<Rightarrow> nat \<Rightarrow> screenState option" where
  "button x y =
     (if x \<in> {253..547} \<and> y \<in> {288..313} then Some S_GAME
      else if x \<in> {268..532} \<and> y \<in> {352..376} then Some M_GAME
      else if x \<in> {358..442} \<and> y \<in> {412..437} then Some QUIT
      else None)"

fun point :: "nat \<Rightarrow> nat \<Rightarrow> motion \<Rightarrow> pointer \<Rightarrow> pointer" where
  "point w h (click, dx, dy) (x, y, sc) =
     (let x = slide w x dx; y = slide h y (- dy)
      in (x, y, if click then (case button x y of None \<Rightarrow> sc | Some sc' \<Rightarrow> sc') else sc))"

text \<open>The three bytes of a packet: flags and sign bits, then the displacements as 9-bit numbers.\<close>

definition decode :: "u8 list \<Rightarrow> motion" where
  "decode b = (bit (b ! 0) 0, int (unat (b ! 1)) - (if bit (b ! 0) 4 then 256 else 0),
     int (unat (b ! 2)) - (if bit (b ! 0) 5 then 256 else 0))"

definition motion_of :: "packet \<Rightarrow> motion" where
  "motion_of p = (lb p, sint (delta_x p), sint (delta_y p))"

lemma motion_of_parse:
  assumes "length b = 3"
  shows "motion_of (parse_mouse_bytes (q\<lparr>pbytes := b\<rparr>)) = decode b"
proof -
  obtain b0 b1 b2 where b: "b = [b0, b1, b2]"
    using assms by (auto simp: numeral_3_eq_3 length_Suc_conv)
  show ?thesis
    unfolding b using parse_mouse_bytes_fields [of "q\<lparr>pbytes := [b0, b1, b2]\<rparr>" b0 b1 b2]
    by (simp add: motion_of_def decode_def)
qed

lemma packets_of_length: "b \<in> set (packets_of bs) \<Longrightarrow> length b = 3"
  by (induction bs rule: packets_of.induct) (auto split: if_splits)

text \<open>The sum of a coordinate and a displacement in 16 bits.\<close>

lemma unat_add_sint: "unat (p + d) = nat ((int (unat p) + sint d) mod 65536)" for p d :: u16
proof -
  have "p + d = word_of_int (int (unat p) + sint d)" by simp
  then have "uint (p + d) = (int (unat p) + sint d) mod 65536"
    by (simp only: uint_word_of_int) simp
  then show ?thesis by (metis nat_uint_eq)
qed

lemma unat_sub_sint: "unat (p - d) = nat ((int (unat p) + - sint d) mod 65536)" for p d :: u16
proof -
  have "p - d = word_of_int (int (unat p) + - sint d)" by simp
  then have "uint (p - d) = (int (unat p) + - sint d) mod 65536"
    by (simp only: uint_word_of_int) simp
  then show ?thesis by (metis nat_uint_eq)
qed


section \<open>Runs of a menu\<close>

abbreviation menus :: "screenState set" where
  "menus \<equiv> {MAIN, GOONE, GOTWO}"

definition pointer_of :: "('w, 'z) main_st_scheme \<Rightarrow> pointer" where
  "pointer_of s = (unat (mouse_x (mouse (vid s))), unat (mouse_y (mouse (vid s))), screenState s)"

text \<open>The byte the mouse handler leaves, when the message an iteration receives reports its interrupt.\<close>

definition iter_bytes :: "'w sys \<Rightarrow> ('w, 'z) main_st_scheme \<Rightarrow> u8 list" where
  "iter_bytes S s =
     (let (hw, w) = receive_hw S (world s)
      in case hw of None \<Rightarrow> []
         | Some ints \<Rightarrow> if raised ints (bit_no_mouse s) then [byteFromMouse (mouse_ih S (s\<lparr>world := w\<rparr>))] else [])"

text \<open>\<open>n\<close> iterations of a menu, fewer if it is left before, and the bytes they read.\<close>

abbreviation menu_run ::
    "'w sys \<Rightarrow> nat \<Rightarrow> ('w, 'z) main_st_scheme \<Rightarrow> fault + ('w, 'z) main_st_scheme" where
  "menu_run S \<equiv> run_while (\<lambda>s. screenState s \<in> menus) (screen_iter S)"

abbreviation menu_bytes :: "'w sys \<Rightarrow> nat \<Rightarrow> ('w, 'z) main_st_scheme \<Rightarrow> u8 list" where
  "menu_bytes S \<equiv> events_while (\<lambda>s. screenState s \<in> menus) (screen_iter S) (iter_bytes S)"

text \<open>The pictures a menu draws.\<close>

fun menu_pictures :: "screenState \<Rightarrow> images \<Rightarrow> xpm_image set" where
  "menu_pictures MAIN i = {img_main i}"
| "menu_pictures GOONE i = {gameOver1 i, gameOver2 i}"
| "menu_pictures GOTWO i = {gameOver2 i}"
| "menu_pictures _ i = {}"

text \<open>A screen that holds the pictures and the cursor, and a packet being collected.\<close>

definition menu_ready :: "('w, 'z) main_st_scheme \<Rightarrow> bool" where
  "menu_ready s \<longleftrightarrow> wf_video (vid s) \<and> 60 \<le> scr_w (vid s) \<and> 60 \<le> scr_h (vid s)
     \<and> cursor_ok (vid s) (cursor (imgs s))
     \<and> (\<forall>p \<in> menu_pictures (screenState s) (imgs s). img_fits (vid s) p 0 0)
     \<and> counter s < 3 \<and> length (pbytes (pp s)) = 3"

lemma screen_iter_menu:
  assumes "screenState s \<in> menus"
  obtains a b where "screen_iter S s = menu_iter S a b s"
    "a \<in> menu_pictures (screenState s) (imgs s)" "b \<in> menu_pictures (screenState s) (imgs s)"
  using assms that
  by (cases "screenState s") (auto simp: screen_iter_def main_iter_def goone_iter_def gotwo_iter_def)

lemma menu_ready_vid:
  assumes "menu_ready s" and "wf_video (vid t)" and "same_geom (vid s) (vid t)" and "imgs t = imgs s"
    and "screenState t \<in> {screenState s, S_GAME, M_GAME, QUIT}" and "counter t < 3" "length (pbytes (pp t)) = 3"
  shows "menu_ready t"
  using assms by (auto simp: menu_ready_def same_geom_def cursor_ok_def img_fits_def)

lemma menu_enter_ready:
  assumes r: "menu_ready s" and a: "a \<in> menu_pictures (screenState s) (imgs s)"
  obtains mid where "menu_enter a s = Inr mid" "menu_ready mid" "pointer_of mid = pointer_of s"
    "world mid = world s" "byteFromMouse mid = byteFromMouse s" "bit_no_mouse mid = bit_no_mouse s"
    "counter mid = counter s" "pp mid = pp s" "imgs mid = imgs s" "same_geom (vid s) (vid mid)"
proof (cases "printed s")
  case True
  then show ?thesis using r by (intro that [of s]) (simp_all add: menu_enter_def same_geom_def)
next
  case False
  have "img_fits (vid s) a (unat (0 :: u16)) (unat (0 :: u16))" using r a by (simp add: menu_ready_def)
  then obtain m where m: "draw_img a 0 0 (vid s) = Inr ((vid s)\<lparr>video_mem := m\<rparr>)"
    using draw_img_paints by blast
  let ?mid = "s\<lparr>vid := (vid s)\<lparr>video_mem := m\<rparr>, printed := True, startGame := False\<rparr>"
  have g: "same_geom (vid s) (vid ?mid)" by (simp add: same_geom_def)
  moreover have "menu_ready ?mid"
    using r by (intro menu_ready_vid [OF r _ g]) (simp_all add: menu_ready_def)
  ultimately show ?thesis
    using m False by (intro that [of ?mid]) (simp_all add: menu_enter_def pointer_of_def)
qed

lemma mouseInPlace_nat:
  "mouseInPlace a b c d v \<longleftrightarrow> unat (mouse_x (mouse v)) \<in> {unat a..unat c} \<and> unat (mouse_y (mouse v)) \<in> {unat b..unat d}"
  by (auto simp: mouseInPlace_def word_le_nat_alt)

lemma menu_click_button:
  "screenState (menu_click s) =
     (if lb (pp s) then (case button (unat (mouse_x (mouse (vid s)))) (unat (mouse_y (mouse (vid s)))) of
        None \<Rightarrow> screenState s | Some sc \<Rightarrow> sc) else screenState s)"
  by (simp add: menu_click_def button_def mouseInPlace_nat)

lemma menu_packet_point:
  assumes r: "menu_ready s" and b: "b \<in> menu_pictures (screenState s) (imgs s)"
  obtains t where "menu_packet b s = Inr t" "menu_ready t"
    "pointer_of t = point (scr_w (vid s)) (scr_h (vid s)) (motion_of (pp s)) (pointer_of s)"
    "counter t = counter s" "pp t = pp s" "imgs t = imgs s" "same_geom (vid s) (vid t)"
    "world t = world s" "bit_no_mouse t = bit_no_mouse s"
proof -
  have "img_fits (vid s) b (unat (0 :: u16)) (unat (0 :: u16))" using r b by (simp add: menu_ready_def)
  then obtain m where m: "draw_img b 0 0 (vid s) = Inr ((vid s)\<lparr>video_mem := m\<rparr>)"
    using draw_img_paints by blast
  let ?v = "(vid s)\<lparr>video_mem := m\<rparr>"
  have v: "wf_video ?v" "60 \<le> scr_w ?v" "60 \<le> scr_h ?v" "cursor_ok ?v (cursor (imgs s))"
    using r by (simp_all add: menu_ready_def cursor_ok_def)
  obtain u where u: "mouseMovement (delta_x (pp s)) (delta_y (pp s)) (cursor (imgs s)) ?v = Inr u" "wf_video u"
      "unat (mouse_x (mouse u)) = max 30 (min (unat (mouse_x (mouse ?v) + delta_x (pp s))) (scr_w ?v - 30))"
      "unat (mouse_y (mouse u)) = max 30 (min (unat (mouse_y (mouse ?v) - delta_y (pp s))) (scr_h ?v - 30))"
      "frame_rest u = frame_rest (?v\<lparr>mouse := mouse u\<rparr>)"
    by (rule mouseMovement_result [OF v])
  let ?t = "menu_click (s\<lparr>vid := u\<rparr>)"
  have g: "same_geom (vid s) (vid ?t)"
    using frame_rest_same_geom [OF u(5)] by (simp add: same_geom_def)
  have sc: "screenState ?t \<in> {screenState s, S_GAME, M_GAME, QUIT}"
    using menu_click_screen [of "s\<lparr>vid := u\<rparr>"] by simp
  have x: "unat (mouse_x (mouse u)) = slide (scr_w (vid s)) (unat (mouse_x (mouse (vid s)))) (sint (delta_x (pp s)))"
    and y: "unat (mouse_y (mouse u)) = slide (scr_h (vid s)) (unat (mouse_y (mouse (vid s)))) (- sint (delta_y (pp s)))"
    using u(3,4) unfolding slide_def unat_add_sint [symmetric] unat_sub_sint [symmetric] by simp_all
  have "menu_ready ?t"
    by (rule menu_ready_vid [OF r _ g _ sc]) (use u(2) r in \<open>simp_all add: menu_ready_def\<close>)
  moreover have "pointer_of ?t = point (scr_w (vid s)) (scr_h (vid s)) (motion_of (pp s)) (pointer_of s)"
    by (simp add: pointer_of_def motion_of_def menu_click_button x y Let_def cong: option.case_cong)
  ultimately show ?thesis
    using m u(1) g by (intro that [of ?t]) (simp_all add: menu_packet_def menu_click_def)
qed

lemma iter_bytes_eq:
  "iter_bytes S s = (case receive_hw S (world s) of (None, w) \<Rightarrow> []
     | (Some ints, w) \<Rightarrow> if raised ints (bit_no_mouse s)
         then [if valid_mouse_status (kbc_status S w) then kbc_data S w else byteFromMouse s] else [])"
  by (simp add: iter_bytes_def mouse_ih_eq kbc_read2_def split: prod.split option.split)

lemma menu_ready_mouse:
  fixes s :: "('w, 'z) main_st_scheme"
  assumes "menu_ready s" and "c < 3" "length (pbytes p) = 3"
  shows "menu_ready ((mouse_ih S s)\<lparr>counter := c, pp := p\<rparr>)"
  using assms by (simp add: menu_ready_def)

text \<open>One byte: collected, and acted upon when it completes a packet.\<close>

lemma menu_mouse_point:
  fixes s :: "('w, 'z) main_st_scheme"
  assumes r: "menu_ready s" and b: "b \<in> menu_pictures (screenState s) (imgs s)"
  obtains t ps where "menu_mouse S b s = Inr t" "menu_ready t"
    "mouse_run [byteFromMouse (mouse_ih S s)] (counter s) (pp s) = Inr (ps, counter t, pp t)"
    "pointer_of t = fold (point (scr_w (vid s)) (scr_h (vid s))) (map motion_of ps) (pointer_of s)"
    "imgs t = imgs s" "same_geom (vid s) (vid t)"
    "world t = inworld S KBC_OUT_BUF (inworld S KBC_ST_REG (world s))" "bit_no_mouse t = bit_no_mouse s"
proof -
  obtain c p full where st: "mouse_step (byteFromMouse (mouse_ih S s)) (counter s) (pp s) = Inr (c, p, full)"
      "c < 3" "length (pbytes p) = 3"
    using mouse_step_invariant [of "counter s" "pp s" "byteFromMouse (mouse_ih S s)"] r
    by (auto simp: menu_ready_def)
  let ?m = "(mouse_ih S s)\<lparr>counter := c, pp := p\<rparr>"
  have m: "menu_ready ?m" by (rule menu_ready_mouse [OF r st(2,3)])
  have w: "world (mouse_ih S s) = inworld S KBC_OUT_BUF (inworld S KBC_ST_REG (world s))"
    by (simp add: mouse_ih_eq kbc_read2_def)
  have it: "menu_mouse S b s = (if full then menu_packet b ?m else Inr ?m)"
    by (simp add: menu_mouse_def st(1))
  show ?thesis
  proof (cases full)
    case True
    have "b \<in> menu_pictures (screenState ?m) (imgs ?m)" using b by simp
    then obtain t where t: "menu_packet b ?m = Inr t" "menu_ready t"
      "pointer_of t = point (scr_w (vid ?m)) (scr_h (vid ?m)) (motion_of (pp ?m)) (pointer_of ?m)"
      "counter t = counter ?m" "pp t = pp ?m" "imgs t = imgs ?m" "same_geom (vid ?m) (vid t)"
      "world t = world ?m" "bit_no_mouse t = bit_no_mouse ?m"
      by (rule menu_packet_point [OF m])
    show ?thesis
      by (rule that [of t "[p]"]) (use it t True st(1) w in \<open>simp_all add: pointer_of_def\<close>)
  next
    case False
    show ?thesis
      by (rule that [of ?m "[]"]) (use it m False st(1) w in \<open>simp_all add: pointer_of_def same_geom_def\<close>)
  qed
qed

definition after_message :: "'w sys \<Rightarrow> ('w, 'z) main_st_scheme \<Rightarrow> 'w" where
  "after_message S s =
     (case receive_hw S (world s) of (hw, w) \<Rightarrow>
        if \<exists>ints. hw = Some ints \<and> raised ints (bit_no_mouse s)
        then inworld S KBC_OUT_BUF (inworld S KBC_ST_REG w) else w)"

lemma menu_iter_point:
  fixes s :: "('w, 'z) main_st_scheme"
  assumes r: "menu_ready s" and sc: "screenState s \<in> menus"
  obtains t ps where "screen_iter S s = Inr t" "menu_ready t"
    "mouse_run (iter_bytes S s) (counter s) (pp s) = Inr (ps, counter t, pp t)"
    "pointer_of t = fold (point (scr_w (vid s)) (scr_h (vid s))) (map motion_of ps) (pointer_of s)"
    "imgs t = imgs s" "same_geom (vid s) (vid t)" "bit_no_mouse t = bit_no_mouse s"
    "world t = after_message S s"
proof -
  obtain a b where it: "screen_iter S s = menu_iter S a b s"
    and a: "a \<in> menu_pictures (screenState s) (imgs s)" and b: "b \<in> menu_pictures (screenState s) (imgs s)"
    by (rule screen_iter_menu [OF sc])
  obtain mid where mid: "menu_enter a s = Inr mid" "menu_ready mid" "pointer_of mid = pointer_of s"
    "world mid = world s" "byteFromMouse mid = byteFromMouse s" "bit_no_mouse mid = bit_no_mouse s"
    "counter mid = counter s" "pp mid = pp s" "imgs mid = imgs s" "same_geom (vid s) (vid mid)"
    by (rule menu_enter_ready [OF r a])
  obtain hw w where rc: "receive_hw S (world s) = (hw, w)" by fastforce
  let ?u = "mid\<lparr>world := w\<rparr>"
  have u: "menu_ready ?u" "pointer_of ?u = pointer_of s"
    using mid(2,3) by (simp_all add: menu_ready_def pointer_of_def)
  have wh: "scr_w (vid ?u) = scr_w (vid s)" "scr_h (vid ?u) = scr_h (vid s)"
    using mid(10) by (simp_all add: same_geom_def)
  show ?thesis
  proof (cases "\<exists>ints. hw = Some ints \<and> raised ints (bit_no_mouse s)")
    case False
    then have "screen_iter S s = Inr ?u" "iter_bytes S s = []"
      using mid rc by (cases hw; simp add: it menu_iter_def iter_bytes_def)+
    then show ?thesis
      using u mid(6-10) False rc by (intro that [of ?u "[]"]) (auto simp: after_message_def)
  next
    case True
    then obtain ints where ints: "hw = Some ints" "raised ints (bit_no_mouse s)" by blast
    have bytes: "iter_bytes S s = [byteFromMouse (mouse_ih S ?u)]"
      using rc ints mid(5) by (simp add: iter_bytes_eq mouse_ih_eq kbc_read2_def)
    have "screenState ?u = screenState s" using mid(3) by (simp add: pointer_of_def)
    then have "b \<in> menu_pictures (screenState ?u) (imgs ?u)" using b mid(9) by simp
    then obtain t ps where t: "menu_mouse S b ?u = Inr t" "menu_ready t"
      "mouse_run [byteFromMouse (mouse_ih S ?u)] (counter ?u) (pp ?u) = Inr (ps, counter t, pp t)"
      "pointer_of t = fold (point (scr_w (vid ?u)) (scr_h (vid ?u))) (map motion_of ps) (pointer_of ?u)"
      "imgs t = imgs ?u" "same_geom (vid ?u) (vid t)"
      "world t = inworld S KBC_OUT_BUF (inworld S KBC_ST_REG (world ?u))" "bit_no_mouse t = bit_no_mouse ?u"
      by (rule menu_mouse_point [OF u(1)])
    have "screen_iter S s = Inr t"
      using rc ints mid(1,4,6) t(1) by (simp add: it menu_iter_def)
    moreover have "same_geom (vid s) (vid t)" using mid(10) t(6) by (auto intro: same_geom_trans)
    moreover have same: "counter ?u = counter s" "pp ?u = pp s" "imgs ?u = imgs s" using mid(7-9) by simp_all
    ultimately show ?thesis
      using t(2,7,8) t(3-5) [unfolded wh u(2) same] mid(6) rc ints
      by (intro that [of t ps]) (simp_all add: bytes after_message_def del: mouse_run.simps)
  qed
qed


lemma mouse_run_append:
  "mouse_run (as @ bs) c p = bind_res (mouse_run as c p) (\<lambda>(ps, c, p).
     bind_res (mouse_run bs c p) (\<lambda>(qs, r). Inr (ps @ qs, r)))"
  by (induction as arbitrary: c p) (auto simp: bind_res_def split: sum.split prod.split)

text \<open>The reference reads bytes: it assembles packets and moves the pointer by each of them.\<close>

definition feed :: "nat \<Rightarrow> nat \<Rightarrow> u8 list \<Rightarrow> pointer \<times> u8 \<times> packet \<Rightarrow> (pointer \<times> u8 \<times> packet) option" where
  "feed w h bs = (\<lambda>(p, c, q). case mouse_run bs c q of Inl _ \<Rightarrow> None
     | Inr (ps, r) \<Rightarrow> Some (fold (point w h) (map motion_of ps) p, r))"

lemma feed_append: "feed w h (as @ bs) v = Option.bind (feed w h as v) (feed w h bs)"
  by (auto simp: feed_def mouse_run_append bind_res_def split: sum.split prod.split)

interpretation in_menu: event_loop "\<lambda>s. screenState s \<in> menus" "screen_iter S" "iter_bytes S"
    "\<lambda>s. menu_ready s \<and> scr_w (vid s) = w \<and> scr_h (vid s) = h"
    "\<lambda>s. (pointer_of s, counter s, pp s)" "feed w h"
  for S :: "'w sys" and w h
proof
  fix s :: "('w, 'z) main_st_scheme" and x
  assume r: "menu_ready s \<and> scr_w (vid s) = w \<and> scr_h (vid s) = h" and sc: "screenState s \<in> menus"
    and x: "feed w h (iter_bytes S s) (pointer_of s, counter s, pp s) = Some x"
  show "\<exists>t. screen_iter S s = Inr t \<and> (menu_ready t \<and> scr_w (vid t) = w \<and> scr_h (vid t) = h)
      \<and> (pointer_of t, counter t, pp t) = x"
    using r x by (auto simp: feed_def same_geom_def intro: menu_iter_point [OF _ sc, of S])
qed (simp_all add: feed_append, simp add: feed_def)


section \<open>Properties\<close>

text \<open>
  C15. The menus. On a screen that holds the pictures and the cursor, any number of iterations of a menu
  succeeds without an access outside the frame buffer or the packet; the cursor and the screen
  afterwards are those of the pointer moved by the packets in the bytes that the mouse interrupts of the
  run delivered, and when a button was hit, the loop has ended.
\<close>

theorem menu_refines_pointer:
  fixes s :: "('w, 'z) main_st_scheme"
  assumes "menu_ready s" and "counter s = 0"
  shows "\<exists>t. menu_run S n s = Inr t \<and> menu_ready t
    \<and> pointer_of t = fold (point (scr_w (vid s)) (scr_h (vid s)))
        (map decode (packets_of (menu_bytes S n s))) (pointer_of s)
    \<and> (screenState t \<notin> menus \<longrightarrow>
        while_res (\<lambda>s. screenState s \<in> menus) (\<lambda>s. Some (screen_iter S s)) s = Some (Inr t))"
proof -
  let ?bs = "menu_bytes S n s"
  have "length (pbytes (pp s)) = 3" using assms(1) by (simp add: menu_ready_def)
  then obtain c q where run:
    "mouse_run ?bs 0 (pp s) = Inr (map (\<lambda>b. parse_mouse_bytes ((pp s)\<lparr>pbytes := b\<rparr>)) (packets_of ?bs), c, q)"
    using mouse_run_packets [of "pp s" ?bs "pp s"] by auto
  have moves: "map motion_of (map (\<lambda>b. parse_mouse_bytes ((pp s)\<lparr>pbytes := b\<rparr>)) (packets_of ?bs)) = map decode (packets_of ?bs)"
    using packets_of_length motion_of_parse by simp
  have "feed (scr_w (vid s)) (scr_h (vid s)) ?bs (pointer_of s, counter s, pp s)
      = Some (fold (point (scr_w (vid s)) (scr_h (vid s))) (map decode (packets_of ?bs)) (pointer_of s), c, q)"
    by (simp only: feed_def assms(2) prod.case run sum.case moves)
  from in_menu.run_exec [OF _ this] obtain t where t: "menu_run S n s = Inr t" "menu_ready t"
    "pointer_of t = fold (point (scr_w (vid s)) (scr_h (vid s))) (map decode (packets_of ?bs)) (pointer_of s)"
    using assms(1) by auto
  with run_while_leaves [OF t(1)] show ?thesis by auto
qed

text \<open>The screen after the start: the pointer is in the middle, which is on the button of the one-machine game.\<close>

definition menu_demo :: "u32 list \<Rightarrow> message list \<Rightarrow> script main_st" where
  "menu_demo ins ms = main_demo ins ms (demo_115\<lparr>mouse := \<lparr>mouse_x = 400, mouse_y = 300\<rparr>\<rparr>) MAIN"

lemma menu_demo_ready: "menu_ready (menu_demo ins ms)" "counter (menu_demo ins ms) = 0"
  by (simp_all add: menu_ready_def menu_demo_def main_demo_def demo_115_def tiny_video_def tiny_img_def
      wf_video_def cursor_ok_def img_fits_def)

lemma menu_demo_byte:
  assumes "world s = demo_script (0x21 # b # ins) (hw_message 4096 # ms) n" and "bit_no_mouse s = 12"
  shows "iter_bytes script_sys s = [ucast b]" "after_message script_sys s = demo_script ins ms n"
proof -
  have "raised 4096 12" by (simp add: raised_iff bit_numeral_word_iff)
  moreover have "valid_mouse_status 0x21" by (simp add: valid_mouse_status_def bit_numeral_word_iff)
  ultimately show "iter_bytes script_sys s = [ucast b]" "after_message script_sys s = demo_script ins ms n"
    using assms by (simp_all add: iter_bytes_eq after_message_def receive_demo kbc_demo)
      (simp add: inworld_def script_simps demo_script_def)
qed

lemma menu_bytes_step:
  fixes s :: "(script, 'z) main_st_scheme"
  assumes "menu_ready s" "screenState s \<in> menus" "bit_no_mouse s = 12"
    and "world s = demo_script (0x21 # b # ins) (hw_message 4096 # ms) n"
  obtains t :: "(script, 'z) main_st_scheme" and ps where "menu_bytes script_sys (Suc k) s = ucast b # menu_bytes script_sys k t"
    "menu_ready t" "bit_no_mouse t = 12" "world t = demo_script ins ms n"
    "mouse_run [ucast b] (counter s) (pp s) = Inr (ps, counter t, pp t)"
    "ps = [] \<longrightarrow> screenState t = screenState s"
proof -
  note d = menu_demo_byte [OF assms(4,3)]
  obtain t ps where t: "screen_iter script_sys s = Inr t" "menu_ready t"
    "mouse_run (iter_bytes script_sys s) (counter s) (pp s) = Inr (ps, counter t, pp t)"
    "pointer_of t = fold (point (scr_w (vid s)) (scr_h (vid s))) (map motion_of ps) (pointer_of s)"
    "imgs t = imgs s" "same_geom (vid s) (vid t)" "bit_no_mouse t = bit_no_mouse s"
    "world t = after_message script_sys s"
    by (rule menu_iter_point [OF assms(1,2)])
  show ?thesis
  proof (rule that [of t ps])
    show "menu_bytes script_sys (Suc k) s = ucast b # menu_bytes script_sys k t"
      using assms(2) t(1) by (simp add: d)
    show "mouse_run [ucast b] (counter s) (pp s) = Inr (ps, counter t, pp t)" using t(3) by (simp only: d)
    show "ps = [] \<longrightarrow> screenState t = screenState s" using t(4) by (auto simp: pointer_of_def)
  qed (use t assms(3) in \<open>simp_all add: d\<close>)
qed

text \<open>A click without a movement starts the game.\<close>

theorem menu_refines_pointer_witness:
  "\<exists>t. while_res (\<lambda>s. screenState s \<in> menus) (\<lambda>s. Some (screen_iter script_sys s))
       (menu_demo [0x21, 9, 0x21, 0, 0x21, 0] (replicate 3 (hw_message 4096))) = Some (Inr t)
     \<and> pointer_of t = (400, 300, S_GAME)"
proof -
  let ?s = "menu_demo [0x21, 9, 0x21, 0, 0x21, 0] (replicate 3 (hw_message 4096))"
  have s: "screenState ?s \<in> menus" "bit_no_mouse ?s = 12" "counter ?s = 0"
    "world ?s = demo_script [0x21, 9, 0x21, 0, 0x21, 0] [hw_message 4096, hw_message 4096, hw_message 4096] 1860000"
    by (simp_all add: menu_demo_def main_demo_def numeral_3_eq_3)
  obtain t :: "script main_st" and ps where t: "menu_bytes script_sys (Suc (Suc (Suc 0))) ?s = ucast (9 :: u32) # menu_bytes script_sys (Suc (Suc 0)) t"
    "menu_ready t" "bit_no_mouse t = 12"
    "world t = demo_script [0x21, 0, 0x21, 0] [hw_message 4096, hw_message 4096] 1860000"
    "mouse_run [ucast (9 :: u32)] (counter ?s) (pp ?s) = Inr (ps, counter t, pp t)"
    "ps = [] \<longrightarrow> screenState t = screenState ?s"
    by (rule menu_bytes_step [OF menu_demo_ready(1) s(1,2,4), where k = "Suc (Suc 0)"])
  have t1: "counter t = 1" "ps = []" using t(5) s(3) by (auto simp: mouse_step_first)
  have tm: "screenState t \<in> menus" using t(6) t1(2) s(1) by simp
  obtain u :: "script main_st" and qs where u: "menu_bytes script_sys (Suc (Suc 0)) t = ucast (0 :: u32) # menu_bytes script_sys (Suc 0) u"
    "menu_ready u" "bit_no_mouse u = 12"
    "world u = demo_script [0x21, 0] [hw_message 4096] 1860000"
    "mouse_run [ucast (0 :: u32)] (counter t) (pp t) = Inr (qs, counter u, pp u)"
    "qs = [] \<longrightarrow> screenState u = screenState t"
    by (rule menu_bytes_step [OF t(2) tm t(3,4), where k = "Suc 0"])
  have "qs = []" using u(5) t1(1) by (auto simp: mouse_step_second)
  then have um: "screenState u \<in> menus" using u(6) tm by simp
  obtain v :: "script main_st" where "menu_bytes script_sys (Suc 0) u = ucast (0 :: u32) # menu_bytes script_sys 0 v"
    by (rule menu_bytes_step [OF u(2) um u(3,4), where k = 0])
  with t(1) u(1) have bytes: "menu_bytes script_sys (Suc (Suc (Suc 0))) ?s = [9, 0, 0]" by simp
  have p: "fold (point (scr_w (vid ?s)) (scr_h (vid ?s))) (map decode (packets_of [9, 0, 0])) (pointer_of ?s)
      = (400, 300, S_GAME)"
    by (simp add: decode_def slide_def button_def pointer_of_def menu_demo_def main_demo_def demo_115_def tiny_video_def
        bit_numeral_word_iff)
  obtain x where x: "pointer_of x = (400, 300, S_GAME)"
    "screenState x \<notin> menus \<longrightarrow> while_res (\<lambda>s. screenState s \<in> menus) (\<lambda>s. Some (screen_iter script_sys s)) ?s = Some (Inr x)"
    using menu_refines_pointer [OF menu_demo_ready, of script_sys "Suc (Suc (Suc 0))"
        "[0x21, 9, 0x21, 0, 0x21, 0]" "replicate 3 (hw_message 4096)", unfolded bytes p] by blast
  then show ?thesis by (auto simp: pointer_of_def)
qed

end
