(* ===== verification/Pause_Run.thy ===== *)
theory Pause_Run
  imports Game_Run
begin

text \<open>
  The pause of \<open>proj/src/main.c\<close>. The loop for \<open>PAUSE\<close> reacts to the keys of the players like the game
  does: it moves them on the picture of the pause screen, which then plays the part of the trails. When the
  game goes on, the frame of before the pause comes back, but the players stay where the keys of the
  pause have led them.
\<close>


section \<open>Runs of the pause\<close>

definition iter_keys :: "'w sys \<Rightarrow> ('w, 'z) main_st_scheme \<Rightarrow> game_event list" where
  "iter_keys S s =
     (let (hw, w) = receive_hw S (world s)
      in case hw of None \<Rightarrow> []
         | Some ints \<Rightarrow> if raised ints (bit_no_keyboard s) then [key_event S (s\<lparr>world := w\<rparr>)] else [])"

text \<open>\<open>n\<close> iterations of the pause, fewer if it ends before, and the key releases they react to.\<close>

abbreviation pause_run ::
    "'w sys \<Rightarrow> nat \<Rightarrow> ('w, 'z) main_st_scheme \<Rightarrow> fault + ('w, 'z) main_st_scheme" where
  "pause_run S \<equiv> run_while (\<lambda>s. screenState s = PAUSE) (pause_iter S)"

abbreviation pause_keys :: "'w sys \<Rightarrow> nat \<Rightarrow> ('w, 'z) main_st_scheme \<Rightarrow> game_event list" where
  "pause_keys S \<equiv> events_while (\<lambda>s. screenState s = PAUSE) (pause_iter S) (iter_keys S)"

text \<open>The picture of the pause is on the screen and the frame of \<open>v\<close> is saved.\<close>

definition halted :: "video_st \<Rightarrow> ('w, 'z) main_st_scheme \<Rightarrow> bool" where
  "halted v s \<longleftrightarrow> tron_ok (vid s) \<and> (\<exists>m len. halted_with v m len s)"

lemma pause_enter_halted: "halted v s \<Longrightarrow> pause_enter s = Inr s"
  by (auto simp: halted_def halted_with_def pause_enter_def)

lemma pause_iter_keys:
  assumes h: "halted v s" and t: "play (iter_keys S s) (game_of s) = Some x"
  obtains t where "pause_iter S s = Inr t" "halted v t" "game_of t = x"
proof -
  obtain m len where m: "halted_with v m len s" and ok: "tron_ok (vid s)"
    using h by (auto simp: halted_def)
  obtain hw w where r: "receive_hw S (world s) = (hw, w)" by fastforce
  let ?s = "s\<lparr>world := w\<rparr>"
  show ?thesis
  proof (cases "\<exists>ints. hw = Some ints \<and> raised ints (bit_no_keyboard s)")
    case False
    then have it: "pause_iter S s = Inr ?s" "iter_keys S s = []"
      using r by (cases hw; simp add: pause_iter_def pause_enter_halted [OF h] iter_keys_def)+
    have "halted v ?s" using ok halted_key [OF m, of ?s w] by (auto simp: halted_def)
    with it t show ?thesis by (intro that [of ?s]) simp_all
  next
    case True
    then have it: "pause_iter S s = key_pressed S ?s" "iter_keys S s = [key_event S ?s]"
      using r by (auto simp: pause_iter_def pause_enter_halted [OF h] iter_keys_def)
    have "tron_event (key_event S ?s) (game_of ?s) = Some x"
      using t it(2) by (auto simp del: tron_event.simps split: Option.bind_splits)
    then obtain u where u: "key_pressed S ?s = Inr u" "tron_ok (vid u)" "game_of u = x"
      using key_pressed_tron_event [of ?s S x] ok by auto
    moreover have "halted v u" using u(1,2) halted_key [OF m, of u w S] by (auto simp: halted_def)
    ultimately show ?thesis using it(1) by (intro that [of u]) simp_all
  qed
qed

interpretation in_pause: event_loop "\<lambda>s. screenState s = PAUSE" "pause_iter S" "iter_keys S" "halted v" game_of play
  for S :: "'w sys" and v
  by unfold_locales (simp_all add: play_append, metis pause_iter_keys)

text \<open>The first iteration shows the picture.\<close>

lemma pause_start:
  assumes p: "pause_enter s = Inr p" and "\<not> printed s" and "startGame s" and ok: "tron_ok (vid s)"
  shows "halted (vid s) p" "cycle (tron_of (vid p)) = cycle (tron_of (vid s))" "screenState p = screenState s"
    "pause_iter S s = pause_iter S p" "iter_keys S s = iter_keys S p"
proof -
  obtain u v where u: "save_screen s = Inr u" and d: "draw_img (img_pause (imgs u)) 0 0 (vid u) = Inr v"
    and p': "p = u\<lparr>printed := True, paused := True, vid := v\<rparr>"
    using p assms(2) by (auto simp: pause_enter_def bind_res_eq_Inr_iff Let_def)
  obtain c where u': "u = s\<lparr>saveGameScreen := c\<rparr>"
    by (rule save_screenD [OF u]) blast
  have f: "frame_rest v = frame_rest (vid s)" using draw_img_frame_rest [OF d] by (simp add: u')
  note same = frame_rest_eqD [OF f]
  have "wf_video v = wf_video (vid s)" using same by (simp add: wf_video_def)
  then have "tron_ok v" using ok same by (simp add: tron_ok_def on_grid_def)
  moreover obtain m len where "halted_with (vid s) m len p"
    by (rule pause_enter_saves [OF p assms(2,3)])
  ultimately show h: "halted (vid s) p" by (auto simp: halted_def p')
  show "cycle (tron_of (vid p)) = cycle (tron_of (vid s))"
    using same(5,6) by (simp add: p' fun_eq_iff)
  show "screenState p = screenState s" by (simp add: p' u')
  show "pause_iter S s = pause_iter S p"
    unfolding pause_iter_def p pause_enter_halted [OF h] ..
  show "iter_keys S s = iter_keys S p"
    by (simp add: iter_keys_def p' u' cong: option.case_cong) (auto intro!: key_event_cong split: prod.split option.split)
qed

lemma pause_run_start:
  assumes "pause_enter s = Inr p" and "\<not> printed s" and "startGame s" and "tron_ok (vid s)" and "screenState s = PAUSE"
  shows "pause_run S (Suc n) s = pause_run S (Suc n) p" "pause_keys S n s = pause_keys S n p"
  using pause_start [OF assms(1-4)] assms(5) by (simp, cases n) simp_all


section \<open>Back in the game\<close>

lemma pixel_cong:
  assumes "mode_115 v" and "same_geom v v'" and "\<And>k. k < 1440000 \<Longrightarrow> video_mem v' k = video_mem v k"
    and "x < 800" "y < 600"
  shows "pixel v' x y = pixel v x y"
proof -
  have r: "scr_w v = 800" "bpp v = 3" "scr_w v' = 800" "bpp v' = 3"
    using assms(1,2) by (simp_all add: mode_115_def same_geom_def)
  have "(y * 800 + x) * 3 + i < 1440000" if "i < 3" for i using assms(4,5) that by simp
  then show ?thesis unfolding pixel_def r by (intro load_le_cong assms(3)) simp
qed

lemma halted_back:
  assumes h: "halted v t" and v: "mode_115 v"
  obtains u where "sgame_enter t = Inr u" "playing u"
    "tron_of (vid u) = (tron_of v)\<lparr>cycle := cycle (tron_of (vid t))\<rparr>"
proof -
  obtain m len where m: "halted_with v m len t" and ok: "tron_ok (vid t)" using h by (auto simp: halted_def)
  have g: "same_geom v (vid t)" and started: "startGame t" using m by (simp_all add: halted_with_def)
  let ?v = "(vid t)\<lparr>video_mem := copy_block (frame_bytes v) (copy_block (frame_bytes v) (video_mem v) m) (video_mem (vid t))\<rparr>"
  have g': "same_geom v ?v" using g by (simp add: same_geom_def)
  have mem: "video_mem ?v k = video_mem v k" if "k < 1440000" for k
    using that by (simp add: copy_block_def clear_screen_115(1) [OF v])
  have r: "h_res v = 800" "v_res v = 600" using v by (simp_all add: mode_115_def)
  have r': "h_res ?v = 800" "v_res ?v = 600" using g' r by (simp_all add: same_geom_def)
  have "trail (tron_of ?v) = trail (tron_of v)"
    unfolding tron_of_def r r' using pixel_cong [OF v g' mem] by (auto simp del: video_st.simps)
  then have "tron_of ?v = (tron_of v)\<lparr>cycle := cycle (tron_of (vid t))\<rparr>"
    using r r' by (intro tron.equality) (simp_all add: fun_eq_iff)
  moreover have "tron_ok ?v" using ok by (simp add: tron_ok_def on_grid_def)
  ultimately show ?thesis
    using started by (intro that [OF halted_sgame_enter [OF m]]) (simp_all add: playing_def)
qed

text \<open>
  C16. A pause does not stop the players: the keys released during it move them, with the picture of the
  pause screen in the part of the trails, so that a key that leads onto a pixel of the picture which is
  not black ends the program. When the game goes on, the trails are those of before the pause, and the
  players are wherever the keys of the pause have led them, without having left a trail.
\<close>

theorem pause_moves_players:
  fixes s :: "('w, 'z) main_st_scheme"
  assumes "screenState s = PAUSE" and "\<not> printed s" and "startGame s" and v: "mode_115 (vid s)" "tron_ok (vid s)"
    and p: "pause_enter s = Inr p"
    and play: "play (pause_keys S n s) (tron_of (vid p), PAUSE) = Some (g, sc)"
  shows "cycle (tron_of (vid p)) = cycle (tron_of (vid s))
    \<and> (\<exists>t. pause_run S n s = Inr t \<and> screenState t = sc
        \<and> (sc = S_GAME \<longrightarrow> (\<exists>u. sgame_enter t = Inr u \<and> playing u
              \<and> tron_of (vid u) = (tron_of (vid s))\<lparr>cycle := cycle g\<rparr>)))"
proof -
  note start = pause_start [OF p assms(2,3) v(2)]
  have sc: "game_of p = (tron_of (vid p), PAUSE)" using start(3) assms(1) by simp
  show ?thesis
  proof (cases n)
    case 0
    then show ?thesis using play start(2) assms(1) by auto
  next
    case (Suc k)
    note eq = pause_run_start [OF p assms(2,3) v(2) assms(1), of S]
    obtain t where t: "pause_run S n p = Inr t" "halted (vid s) t" "game_of t = (g, sc)"
      using in_pause.run_exec [OF start(1), of S n "(g, sc)"] play sc eq(2) by auto
    obtain u where u: "sgame_enter t = Inr u" "playing u"
      "tron_of (vid u) = (tron_of (vid s))\<lparr>cycle := cycle (tron_of (vid t))\<rparr>"
      by (rule halted_back [OF t(2) v(1)])
    show ?thesis
      using t u start(2) by (auto simp: Suc eq(1) simp del: run_while.simps)
  qed
qed

text \<open>
  Blue, on its way to the right, is turned up during a pause whose picture is empty: back in the game it is one
  row higher, and no cell is taken.
\<close>

definition pause_demo :: "script main_st" where
  "pause_demo = (main_demo [0x15, 145, 0x15, 153] [hw_message 2, hw_message 2] facing PAUSE)
     \<lparr>imgs := \<lparr>img_main = tiny_img, gameOver1 = tiny_img, gameOver2 = tiny_img,
        img_pause = tiny_img\<lparr>width := 0, height := 0\<rparr>, cursor = tiny_img\<rparr>,
      saveGameScreen := Some (\<lambda>_. 0, 1440000)\<rparr>"

definition pause_demo_shown :: "script main_st" where
  "pause_demo_shown = pause_demo\<lparr>printed := True, paused := True,
     saveGameScreen := Some (copy_block 1440000 (video_mem facing) (\<lambda>_. 0), 1440000)\<rparr>"

lemma pause_demo_enter: "pause_enter pause_demo = Inr pause_demo_shown"
proof -
  have "accessible facing 0 1440000" by (simp add: accessible_def facing_def demo_115_def tiny_video_def)
  moreover have "draw_img (tiny_img\<lparr>width := 0, height := 0\<rparr>) 0 0 facing = Inr facing"
    by (simp add: draw_img_def Let_def)
  ultimately show ?thesis
    by (simp add: pause_enter_def save_screen_def pause_demo_shown_def pause_demo_def main_demo_def
        clear_screen_115(1) [OF facing_ok(2)] get_video_mem_def)
qed

definition up_move :: MovementInfo where
  "up_move = \<lparr>dir = UP, playerColor = BLUE\<rparr>"

definition facing_up :: tron where
  "facing_up = (tron_of facing)\<lparr>trail := {(60, 59)}, cycle := (cycle (tron_of facing))(BLUE := ((60, 59), UP))\<rparr>"

lemma pause_demo_play:
  "play (pause_keys script_sys 2 pause_demo) (tron_of (vid pause_demo_shown), PAUSE) = Some (facing_up, S_GAME)"
proof -
  let ?w = "pause_demo_shown\<lparr>world := demo_script [0x15, 145, 0x15, 153] [hw_message 2] 1860000\<rparr>"
  have sh: "vid pause_demo_shown = facing" "screenState pause_demo_shown = PAUSE" "bit_no_keyboard pause_demo_shown = 1"
    "world pause_demo_shown = demo_script [0x15, 145, 0x15, 153] [hw_message 2, hw_message 2] 1860000"
    by (simp_all add: pause_demo_shown_def pause_demo_def main_demo_def)
  have k1: "nextMove (kbc_ih script_sys ?w) = up_move" "screenState (kbc_ih script_sys ?w) = PAUSE"
    "key_event script_sys ?w = Key False up_move"
    using sh(2)
    by (simp_all add: key_event_def kbc_ih_eq kbc_demo valid_kbd_0x15 key_move_def up_move_def Let_def)
  have c: "tron_command BLUE UP False (tron_of facing) = Some (False, facing_up)"
    by (simp add: tron_command_def facing_tron facing_up_def)
  obtain v where v: "tron_of v = facing_up" "key_pressed script_sys ?w =
      Inr ((kbc_ih script_sys ?w)\<lparr>vid := v, screenState := PAUSE\<rparr>)"
    using key_pressed_tron [of ?w up_move script_sys False facing_up] k1 c facing_ok(1) sh(1)
    by (auto simp: up_move_def)
  let ?t = "(kbc_ih script_sys ?w)\<lparr>vid := v, screenState := PAUSE\<rparr>"
  have k2: "key_event script_sys (?t\<lparr>world := demo_script [0x15, 153] [] 1860000\<rparr>) = Key True up_move"
    using k1(1) by (simp add: key_event_def kbc_ih_eq [of _ "?t\<lparr>world := demo_script [0x15, 153] [] 1860000\<rparr>"]
        kbc_demo valid_kbd_0x15 key_move_def Let_def)
  have start: "world pause_demo = world pause_demo_shown" "nextMove pause_demo = nextMove pause_demo_shown"
    "bit_no_keyboard pause_demo = 1" "screenState pause_demo = PAUSE"
    by (simp_all add: pause_demo_shown_def pause_demo_def main_demo_def)
  have "key_event script_sys (pause_demo\<lparr>world := world ?w\<rparr>) = key_event script_sys ?w"
    by (rule key_event_cong) (simp_all add: start)
  then have i1: "iter_keys script_sys pause_demo = [Key False up_move]"
    using start k1(3) by (simp add: iter_keys_def sh receive_demo raised_keyboard)
  have "world ?t = demo_script [0x15, 153] [hw_message 2] 1860000"
    by (simp add: world_kbc_ih) (simp add: inworld_def script_simps demo_script_def)
  then have i2: "iter_keys script_sys ?t = [Key True up_move]"
    using k2 by (simp add: iter_keys_def receive_demo raised_keyboard sh(3))
  have it: "pause_iter script_sys pause_demo = Inr ?t"
    using v(2) by (simp add: pause_iter_def pause_demo_enter sh receive_demo raised_keyboard)
  have "tron_event (Key False up_move) (tron_of facing, PAUSE) = Some (facing_up, PAUSE)"
    using c by (simp add: up_move_def)
  moreover have "tron_event (Key True up_move) (facing_up, PAUSE) = Some (facing_up, S_GAME)"
    by (simp add: up_move_def toggle_pause_def tron_command_def facing_up_def)
  moreover have "pause_keys script_sys 2 pause_demo = [Key False up_move, Key True up_move]"
    using i2 by (simp add: numeral_2_eq_2 i1 it start(4) split: sum.split)
  ultimately show ?thesis by (simp add: sh(1) del: tron_event.simps)
qed

theorem pause_moves_players_witness:
  "\<exists>t u. pause_run script_sys 2 pause_demo = Inr t \<and> sgame_enter t = Inr u
    \<and> tron_of (vid u) = (tron_of facing)\<lparr>cycle := (cycle (tron_of facing))(BLUE := ((60, 59), UP))\<rparr>
    \<and> trail (tron_of (vid u)) = {}"
proof -
  have s: "screenState pause_demo = PAUSE" "\<not> printed pause_demo" "startGame pause_demo" "vid pause_demo = facing"
    by (simp_all add: pause_demo_def main_demo_def)
  have m: "mode_115 (vid pause_demo)" "tron_ok (vid pause_demo)" using s(4) facing_ok by simp_all
  have g: "cycle facing_up = (cycle (tron_of facing))(BLUE := ((60, 59), UP))" "trail (tron_of facing) = {}"
    by (simp_all add: facing_up_def facing_tron)
  show ?thesis
    using pause_moves_players [OF s(1-3) m pause_demo_enter pause_demo_play] g by (auto simp: s(4))
qed

end
