(* ===== verification/Screen_Run.thy ===== *)
theory Screen_Run
  imports Menu_Run
begin

text \<open>
  The screens of \<open>proj/src/main.c\<close> as a machine that reacts to events: a click on a button, a crash in a
  tick, the pause key, a crash caused by a key. Which events an iteration sees is read off the packet, the
  scan code and the results of the calls that move the players; which screen follows is the table
  \<open>react\<close>. Every run of the program follows this machine.
\<close>


section \<open>The machine\<close>

datatype screen_event = Click screenState | Crash player | Pause_Key | Key_Crash

text \<open>
  The keys of an iteration are handled after its tick, so that a game that is already lost (on an end
  screen, but still in its last iteration) may be paused or end the program.
\<close>

fun react :: "screenState \<Rightarrow> screen_event \<Rightarrow> screenState option" where
  "react sc (Click b) = (if sc \<in> {MAIN, GOONE, GOTWO} \<and> b \<in> {S_GAME, M_GAME, QUIT} then Some b else None)"
| "react sc (Crash p) = (if sc = S_GAME then Some (if p = BLUE then GOTWO else GOONE) else None)"
| "react sc Pause_Key =
     (if sc = PAUSE then Some S_GAME else if sc \<in> {S_GAME, GOONE, GOTWO} then Some PAUSE else None)"
| "react sc Key_Crash = (if sc \<in> {S_GAME, PAUSE, GOONE, GOTWO} then Some QUIT else None)"

primrec reacts :: "screen_event list \<Rightarrow> screenState \<Rightarrow> screenState option" where
  "reacts [] sc = Some sc"
| "reacts (e # es) sc = Option.bind (react sc e) (reacts es)"

lemma reacts_append: "reacts (as @ bs) sc = Option.bind (reacts as sc) (reacts bs)"
  by (induction as arbitrary: sc) (auto split: Option.bind_split)

lemma react_MAIN: "react sc e \<noteq> Some MAIN"
  by (cases e) auto

lemma react_final: "sc \<in> {M_GAME, QUIT} \<Longrightarrow> react sc e = None"
  by (cases e) auto

lemma reacts_MAIN: "reacts es sc = Some MAIN \<Longrightarrow> sc = MAIN"
proof (induction es arbitrary: sc)
  case (Cons e es)
  then obtain b where "react sc e = Some b" "reacts es b = Some MAIN" by (auto split: Option.bind_splits)
  with Cons.IH react_MAIN show ?case by blast
qed simp

lemma reacts_final: "reacts es sc = Some b \<Longrightarrow> sc \<in> {M_GAME, QUIT} \<Longrightarrow> b = sc"
  by (cases es) (simp_all add: react_final)


section \<open>The events of an iteration\<close>

text \<open>What a handler sees of the message an iteration receives.\<close>

definition on_message ::
    "'w sys \<Rightarrow> ('w, 'z) main_st_scheme \<Rightarrow> (u64 \<Rightarrow> ('w, 'z) main_st_scheme \<Rightarrow> 'a list) \<Rightarrow> 'a list" where
  "on_message S s F = (let (hw, w) = receive_hw S (world s)
     in case hw of None \<Rightarrow> [] | Some ints \<Rightarrow> F ints (s\<lparr>world := w\<rparr>))"

text \<open>A packet with the left button down is completed, and the cursor comes to a button.\<close>

definition click_events :: "'w sys \<Rightarrow> ('w, 'z) main_st_scheme \<Rightarrow> screen_event list" where
  "click_events S s =
     (case mouse_run (iter_bytes S s) (counter s) (pp s) of
        Inr (p # _, _) \<Rightarrow>
          (if lb p
           then case screen_iter S s of
                  Inl _ \<Rightarrow> []
                | Inr t \<Rightarrow> (case button (unat (mouse_x (mouse (vid t)))) (unat (mouse_y (mouse (vid t)))) of
                    None \<Rightarrow> [] | Some b \<Rightarrow> [Click b])
           else [])
      | _ \<Rightarrow> [])"

definition reports :: "int \<Rightarrow> fault + (int \<times> video_st) \<Rightarrow> bool" where
  "reports k r \<longleftrightarrow> (case r of Inl _ \<Rightarrow> False | Inr (r, _) \<Rightarrow> r = k)"

definition tick_events :: "('w, 'z) main_st_scheme \<Rightarrow> screen_event list" where
  "tick_events s =
     (if fifth (totalInterrupts s + 1)
      then if reports 1 (passive_move_players (vid s)) then [Crash BLUE]
           else if reports 2 (passive_move_players (vid s)) then [Crash ORANGE]
           else []
      else [])"

definition pause_key :: "'w sys \<Rightarrow> 'w \<Rightarrow> bool" where
  "pause_key S w \<longleftrightarrow> valid_kbd_status (kbc_status S w) \<and> kbc_data S w = 153"

definition key_events :: "'w sys \<Rightarrow> ('w, 'z) main_st_scheme \<Rightarrow> screen_event list" where
  "key_events S s =
     (let m = nextMove (kbc_ih S s)
      in (if pause_key S (world s) then [Pause_Key] else [])
         @ (if dir m \<noteq> UNCHANGED \<and> reports 1 (move_player m False (vid s)) then [Key_Crash] else []))"

definition game_events :: "'w sys \<Rightarrow> u64 \<Rightarrow> ('w, 'z) main_st_scheme \<Rightarrow> screen_event list" where
  "game_events S ints s =
     (if raised ints (bit_no_timer s) then tick_events s else [])
     @ (case if raised ints (bit_no_timer s) then timer_tick s else Inr s of
          Inl _ \<Rightarrow> []
        | Inr t \<Rightarrow> if raised ints (bit_no_keyboard t) then key_events S t else [])"

definition screen_events :: "'w sys \<Rightarrow> ('w, 'z) main_st_scheme \<Rightarrow> screen_event list" where
  "screen_events S s =
     (case screenState s of
        PAUSE \<Rightarrow> (case pause_enter s of Inl _ \<Rightarrow> [] | Inr m \<Rightarrow>
          on_message S m (\<lambda>ints m. if raised ints (bit_no_keyboard m) then key_events S m else []))
      | S_GAME \<Rightarrow> (case sgame_enter s of Inl _ \<Rightarrow> [] | Inr m \<Rightarrow> on_message S m (game_events S))
      | M_GAME \<Rightarrow> []
      | QUIT \<Rightarrow> []
      | _ \<Rightarrow> click_events S s)"


section \<open>An iteration follows the machine\<close>

lemma tick_events_react:
  assumes tick: "timer_tick s = Inr t" and sc: "screenState s = S_GAME"
  shows "reacts (tick_events s) S_GAME = Some (screenState t)" "screenState t \<in> {S_GAME, GOONE, GOTWO}"
proof -
  have "screenState t = (if fifth (totalInterrupts s + 1)
      then if reports 1 (passive_move_players (vid s)) then GOTWO
           else if reports 2 (passive_move_players (vid s)) then GOONE else S_GAME
      else S_GAME)"
  proof (cases "fifth (totalInterrupts s + 1)")
    case True
    then obtain k v where p: "passive_move_players (vid s) = Inr (k, v)"
      using tick by (cases "passive_move_players (vid s)") (auto simp: timer_tick_def)
    with True tick sc show ?thesis by (auto simp: timer_tick_def reports_def Let_def)
  qed (use tick sc in \<open>auto simp: timer_tick_def Let_def\<close>)
  then show "reacts (tick_events s) S_GAME = Some (screenState t)" "screenState t \<in> {S_GAME, GOONE, GOTWO}"
    by (simp_all add: tick_events_def)
qed

lemma key_events_react:
  assumes key: "key_pressed S s = Inr t" and "screenState s \<in> {S_GAME, PAUSE, GOONE, GOTWO}"
  shows "reacts (key_events S s) (screenState s) = Some (screenState t)"
proof -
  let ?k = "kbc_ih S s"
  have k: "screenState ?k = (if pause_key S (world s) then toggle_pause (screenState s) else screenState s)"
    by (simp add: screenState_kbc_ih pause_key_def)
  have t: "screenState t = (if dir (nextMove ?k) \<noteq> UNCHANGED \<and> reports 1 (move_player (nextMove ?k) False (vid s))
      then QUIT else screenState ?k)"
  proof (cases "dir (nextMove ?k) = UNCHANGED")
    case False
    then obtain j v where "move_player (nextMove ?k) False (vid s) = Inr (j, v)"
      using key by (cases "move_player (nextMove ?k) False (vid s)") (auto simp: key_pressed_def)
    with False key show ?thesis by (auto simp: key_pressed_def reports_def Let_def)
  qed (use key in \<open>simp add: key_pressed_def\<close>)
  show ?thesis
    using assms(2) by (auto simp: key_events_def t k toggle_pause_def Let_def)
qed

lemma on_message_cases:
  assumes "(let (hw, w) = receive_hw S (world s); s = s\<lparr>world := w\<rparr>
      in case hw of None \<Rightarrow> Inr s | Some ints \<Rightarrow> R ints s) = Inr t"
  shows "(\<exists>w. t = s\<lparr>world := w\<rparr> \<and> on_message S s F = [])
    \<or> (\<exists>ints w. R ints (s\<lparr>world := w\<rparr>) = Inr t \<and> on_message S s F = F ints (s\<lparr>world := w\<rparr>))"
  using assms by (cases "receive_hw S (world s)"; cases "fst (receive_hw S (world s))")
    (auto simp: on_message_def)

lemma pause_events_react:
  assumes it: "pause_iter S s = Inr t" and sc: "screenState s = PAUSE"
  shows "reacts (screen_events S s) PAUSE = Some (screenState t)"
proof -
  obtain m where m: "pause_enter s = Inr m"
    and r: "(let (hw, w) = receive_hw S (world m); s = m\<lparr>world := w\<rparr> in case hw of None \<Rightarrow> Inr s
      | Some ints \<Rightarrow> if raised ints (bit_no_keyboard s) then key_pressed S s else Inr s) = Inr t"
    using it unfolding pause_iter_def bind_res_eq_Inr_iff by blast
  have P: "screenState m = PAUSE" using pause_enterD(1) [OF m] sc by simp
  let ?F = "\<lambda>ints m. if raised ints (bit_no_keyboard m) then key_events S m else []"
  have ev: "screen_events S s = on_message S m ?F" by (simp add: screen_events_def sc m)
  consider (none) w where "t = m\<lparr>world := w\<rparr>" "on_message S m ?F = []"
    | (some) ints w where "(if raised ints (bit_no_keyboard (m\<lparr>world := w\<rparr>)) then key_pressed S (m\<lparr>world := w\<rparr>)
        else Inr (m\<lparr>world := w\<rparr>)) = Inr t" "on_message S m ?F = ?F ints (m\<lparr>world := w\<rparr>)"
    using on_message_cases [OF r, of ?F] by blast
  then show ?thesis
  proof cases
    case none
    then show ?thesis using P by (simp add: ev)
  next
    case (some ints w)
    then show ?thesis
      using P key_events_react [of S "m\<lparr>world := w\<rparr>" t] by (auto simp: ev split: if_splits)
  qed
qed

lemma game_events_react:
  assumes it: "sgame_iter S s = Inr t" and sc: "screenState s = S_GAME"
  shows "reacts (screen_events S s) S_GAME = Some (screenState t)"
proof -
  obtain m where m: "sgame_enter s = Inr m"
    and r: "(let (hw, w) = receive_hw S (world m); s = m\<lparr>world := w\<rparr> in case hw of None \<Rightarrow> Inr s
      | Some ints \<Rightarrow> bind_res (if raised ints (bit_no_timer s) then timer_tick s else Inr s) (\<lambda>s.
                if raised ints (bit_no_keyboard s) then key_pressed S s else Inr s)) = Inr t"
    using it unfolding sgame_iter_def bind_res_eq_Inr_iff by blast
  have G: "screenState m = S_GAME" using sgame_enterD(1) [OF m] sc by simp
  have ev: "screen_events S s = on_message S m (game_events S)" by (simp add: screen_events_def sc m)
  consider (none) w where "t = m\<lparr>world := w\<rparr>" "on_message S m (game_events S) = []"
    | (some) ints w where "bind_res (if raised ints (bit_no_timer (m\<lparr>world := w\<rparr>)) then timer_tick (m\<lparr>world := w\<rparr>)
        else Inr (m\<lparr>world := w\<rparr>)) (\<lambda>s. if raised ints (bit_no_keyboard s) then key_pressed S s else Inr s) = Inr t"
      "on_message S m (game_events S) = game_events S ints (m\<lparr>world := w\<rparr>)"
    using on_message_cases [OF r, of "game_events S"] by blast
  then show ?thesis
  proof cases
    case none
    then show ?thesis using G by (simp add: ev)
  next
    case (some ints w)
    let ?m = "m\<lparr>world := w\<rparr>"
    obtain u where u: "(if raised ints (bit_no_timer ?m) then timer_tick ?m else Inr ?m) = Inr u"
      and t: "(if raised ints (bit_no_keyboard u) then key_pressed S u else Inr u) = Inr t"
      using some(1) unfolding bind_res_eq_Inr_iff by blast
    have "reacts (if raised ints (bit_no_timer ?m) then tick_events ?m else []) S_GAME = Some (screenState u)"
      and U: "screenState u \<in> {S_GAME, PAUSE, GOONE, GOTWO}"
      using u G tick_events_react [of ?m u] by (auto split: if_splits)
    moreover have "reacts (if raised ints (bit_no_keyboard u) then key_events S u else []) (screenState u)
        = Some (screenState t)"
      using t key_events_react [of S u t] U by (auto split: if_splits)
    ultimately show ?thesis
      unfolding ev some(2) game_events_def u by (simp add: reacts_append)
  qed
qed

lemma menu_events_react:
  assumes it: "menu_iter S a b s = Inr t" and scr: "screen_iter S s = Inr t" and sc: "screenState s \<in> menus"
  shows "reacts (click_events S s) (screenState s) = Some (screenState t)"
proof -
  obtain mid where mid: "menu_enter a s = Inr mid"
    and r: "(let (hw, w) = receive_hw S (world mid); s = mid\<lparr>world := w\<rparr> in case hw of None \<Rightarrow> Inr s
      | Some ints \<Rightarrow> if raised ints (bit_no_mouse s) then menu_mouse S b s else Inr s) = Inr t"
    using it unfolding menu_iter_def bind_res_eq_Inr_iff by blast
  have e: "world mid = world s" "bit_no_mouse mid = bit_no_mouse s" "byteFromMouse mid = byteFromMouse s"
    "counter mid = counter s" "pp mid = pp s" "screenState mid = screenState s"
    using mid by (auto simp: menu_enter_def bind_res_eq_Inr_iff split: if_splits)
  obtain hw w where hw: "receive_hw S (world s) = (hw, w)" by fastforce
  show ?thesis
  proof (cases "\<exists>ints. hw = Some ints \<and> raised ints (bit_no_mouse s)")
    case False
    then have "t = mid\<lparr>world := w\<rparr>" "iter_bytes S s = []"
      using r hw e by (cases hw; simp add: iter_bytes_def)+
    then show ?thesis using e by (simp add: click_events_def)
  next
    case True
    let ?m = "mid\<lparr>world := w\<rparr>"
    have M: "menu_mouse S b ?m = Inr t" using True r hw e by auto
    define byte where "byte = byteFromMouse (mouse_ih S ?m)"
    have bytes: "iter_bytes S s = [byte]"
      using True hw e by (auto simp: iter_bytes_def byte_def mouse_ih_eq kbc_read2_def)
    obtain c p full where st: "mouse_step byte (counter s) (pp s) = Inr (c, p, full)"
      and t: "(if full then menu_packet b ((mouse_ih S ?m)\<lparr>counter := c, pp := p\<rparr>)
               else Inr ((mouse_ih S ?m)\<lparr>counter := c, pp := p\<rparr>)) = Inr t"
      using M e by (auto simp: menu_mouse_def byte_def bind_res_eq_Inr_iff Let_def split: prod.splits)
    show ?thesis
    proof (cases full)
      case False
      then show ?thesis using t st e bytes by (auto simp: click_events_def)
    next
      case full: True
      obtain v where t': "t = menu_click ((mouse_ih S ?m)\<lparr>counter := c, pp := p, vid := v\<rparr>)"
        using t full by (auto simp: menu_packet_def bind_res_eq_Inr_iff)
      have "screenState t = (if lb p then (case button (unat (mouse_x (mouse (vid t)))) (unat (mouse_y (mouse (vid t)))) of
          None \<Rightarrow> screenState s | Some sc \<Rightarrow> sc) else screenState s)"
        unfolding t' using e by (simp add: menu_click_button split: option.split)
      moreover have "k \<in> {S_GAME, M_GAME, QUIT}" if "button x y = Some k" for x y k
        using that by (auto simp: button_def split: if_splits)
      ultimately show ?thesis
        using sc full st bytes scr by (fastforce simp: click_events_def split: option.splits)
    qed
  qed
qed

lemma screen_events_react:
  assumes "screen_iter S s = Inr t"
  shows "reacts (screen_events S s) (screenState s) = Some (screenState t)"
proof (cases "screenState s \<in> menus")
  case True
  then obtain a b where "screen_iter S s = menu_iter S a b s" by (rule screen_iter_menu)
  with True assms show ?thesis
    using menu_events_react [of S a b s t] by (auto simp: screen_events_def)
next
  case False
  then show ?thesis
    using assms pause_events_react [of S s t] game_events_react [of S s t]
    by (cases "screenState s")
      (auto simp: screen_iter_def screen_events_def mgame_iter_def begin_gameD(1))
qed


section \<open>Properties\<close>

text \<open>
  C5. The screens. In every run of the program, of any number of iterations, the screen at the end is the one the
  machine \<open>react\<close> reaches on the events of the iterations: a click on a button of a menu leads to the game, to
  the two-machine game or to the end; in a tick a crash of blue leads to the second end screen and one of
  orange to the first; the pause key leads from the game to the pause and back; a crash on a key press leads
  to the end. Hence no run comes back to the main menu once it has left it, and none leaves the
  two-machine game.
\<close>

theorem screens_follow_events:
  assumes "run_while (\<lambda>s. screenState s \<noteq> QUIT) (screen_iter S) n s = Inr t"
  shows "reacts (events_while (\<lambda>s. screenState s \<noteq> QUIT) (screen_iter S) (screen_events S) n s) (screenState s)
      = Some (screenState t)
    \<and> (screenState s \<noteq> MAIN \<longrightarrow> screenState t \<noteq> MAIN)
    \<and> (screenState s = M_GAME \<longrightarrow> screenState t = M_GAME)"
proof -
  have "reacts (events_while (\<lambda>s. screenState s \<noteq> QUIT) (screen_iter S) (screen_events S) n s) (screenState s)
      = Some (screenState t)"
    using assms
  proof (induction n arbitrary: s)
    case (Suc n)
    then show ?case
      using screen_events_react [of S s] by (auto simp: bind_res_eq_Inr_iff reacts_append split: if_splits)
  qed simp
  then show ?thesis using reacts_MAIN reacts_final [of _ "screenState s"] by force
qed

text \<open>Key P is released in the game: one event, and the screen of the pause.\<close>

theorem screens_follow_events_witness:
  "\<exists>t. run_while (\<lambda>s. screenState s \<noteq> QUIT) (screen_iter script_sys) 1
       (main_demo [0x15, 153] [hw_message 2] tiny_video S_GAME) = Inr t
     \<and> reacts [Pause_Key] S_GAME = Some (screenState t)"
proof -
  let ?s = "main_demo [0x15, 153] [hw_message 2] tiny_video S_GAME"
  let ?w = "?s\<lparr>world := demo_script [0x15, 153] [] 1860000\<rparr>"
  have w: "dir (nextMove ?w) = UNCHANGED" "world ?w = demo_script [0x15, 153] [] 1860000" "screenState ?s = S_GAME"
    by (simp_all add: main_demo_def)
  obtain t where t: "key_pressed script_sys ?w = Inr t" "screenState t = PAUSE"
    using demo_pause_key [OF w(2,1)] by (auto simp: main_demo_def toggle_pause_def)
  have enter: "sgame_enter ?s = Inr ?s"
    by (simp add: sgame_enter_def begin_game_def main_demo_def)
  have msg: "receive_hw script_sys (world ?s) = (Some 2, demo_script [0x15, 153] [] 1860000)"
    "bit_no_timer ?s = 0" "bit_no_keyboard ?s = 1"
    by (simp_all add: main_demo_def receive_demo)
  have "pause_key script_sys (world ?w)"
    by (simp add: pause_key_def main_demo_def kbc_demo valid_kbd_0x15)
  moreover have "nextMove (kbc_ih script_sys ?w) = nextMove ?w"
    by (simp add: kbc_ih_eq Let_def main_demo_def kbc_demo key_move_def)
  ultimately have "key_events script_sys ?w = [Pause_Key]"
    using w(1) by (simp add: key_events_def)
  then have "screen_events script_sys ?s = [Pause_Key]"
    by (simp add: screen_events_def w(3) enter on_message_def msg game_events_def raised_keyboard)
  moreover have "screen_iter script_sys ?s = Inr t"
    using t(1) by (simp add: screen_iter_def w(3) sgame_iter_def enter msg raised_keyboard)
  ultimately show ?thesis
    using screens_follow_events [of script_sys 1 ?s t] t(2) w(3) by (auto simp del: reacts.simps)
qed

end
