(* ===== verification/Lab2.thy ===== *)
theory Lab2
  imports Timer Lab_Loop
begin

text \<open>
  \<open>lab2/lab2.c\<close>: the test functions of the timer driver. \<open>timer_test_int\<close> counts seconds by the
  interrupts of timer 0; shown is that it returns after exactly the requested number of seconds.
\<close>


section \<open>Test functions\<close>

text \<open>\<open>uninit\<close> is the content of the local \<open>b\<close> before the call.\<close>

definition timer_test_read_config ::
    "'w sys \<Rightarrow> u8 \<Rightarrow> u8 \<Rightarrow> timer_status_field \<Rightarrow> ('w, 'z) timer_st_scheme \<Rightarrow>
     int \<times> ('w, 'z) timer_st_scheme" where
  "timer_test_read_config S uninit timer field s =
     (let (_, b, s) = timer_get_conf S timer uninit s
      in timer_display_conf S timer b field s)"

definition timer_test_time_base ::
    "'w sys \<Rightarrow> u8 \<Rightarrow> u8 \<Rightarrow> u32 \<Rightarrow> ('w, 'z) timer_st_scheme \<Rightarrow> int \<times> ('w, 'z) timer_st_scheme" where
  "timer_test_time_base S uninit timer freq s = timer_set_frequency S uninit timer freq s"

text \<open>\<open>totalInterrupts % 60 == 0\<close>, for the signed counter.\<close>

definition full_second :: "('w, 'z) timer_st_scheme \<Rightarrow> bool" where
  "full_second s \<longleftrightarrow> sint (totalInterrupts s) mod 60 = 0"

definition timer_test_int_ih ::
    "'w sys \<Rightarrow> u8 \<Rightarrow> u64 \<Rightarrow> u8 \<times> ('w, 'z) timer_st_scheme \<Rightarrow> fault + u8 \<times> ('w, 'z) timer_st_scheme" where
  "timer_test_int_ih S bit_no ints ls =
     (case ls of (time, s) \<Rightarrow>
        if raised ints bit_no
        then let s = timer_int_handler s
             in if full_second s
                then let s = s\<lparr>world := timer_print_elapsed_time S (world s)\<rparr> in Inr (time - 1, s)
                else Inr (time, s)
        else Inr (time, s))"

definition timer_test_int ::
    "'w sys \<Rightarrow> u8 \<Rightarrow> ('w, 'z) timer_st_scheme \<Rightarrow> (fault + int \<times> ('w, 'z) timer_st_scheme) option" where
  "timer_test_int S time s =
     (let (bit_no, _, s) = timer_subscribe_int S s
      in then_res (driver_loop S (\<lambda>(time, s). 0 < time) (timer_test_int_ih S bit_no) (time, s))
           (\<lambda>(time, s). Some (Inr (0, s))))"


section \<open>Counting seconds\<close>

text \<open>
  While the loop runs, the interrupts counted so far make up the seconds that are gone: \<open>elapsed\<close>
  relates the counter to the remaining time, starting with \<open>time0\<close> seconds.
\<close>

definition elapsed :: "u8 \<Rightarrow> u8 \<Rightarrow> u32 \<Rightarrow> bool" where
  "elapsed time0 time ticks \<longleftrightarrow>
     unat time + unat ticks div 60 = unat time0 \<and> unat ticks \<le> 60 * unat time0"

lemma sint_small:
  assumes "unat (x :: u32) < 2147483648"
  shows "sint x = int (unat x)"
proof -
  have "int (unat x) < 2147483648" using assms by linarith
  then have "signed_take_bit 31 (int (unat x)) = int (unat x)"
    by (intro signed_take_bit_int_eq_self) (simp_all add: order_trans [OF _ uint_ge_0])
  moreover have "sint x = signed_take_bit 31 (int (unat x))"
    by (simp add: sint_uint)
  ultimately show ?thesis by simp
qed

lemma div_60_Suc:
  fixes n :: nat
  shows "Suc n mod 60 = 0 \<Longrightarrow> Suc n div 60 = Suc (n div 60)"
    and "Suc n mod 60 \<noteq> 0 \<Longrightarrow> Suc n div 60 = n div 60"
  by (simp_all add: div_Suc)

lemma elapsed_tick:
  assumes el: "elapsed time0 time ticks" and time: "0 < time"
  shows "unat (ticks + 1) = unat ticks + 1"
    and "sint (ticks + 1) mod 60 = 0 \<longleftrightarrow> (unat ticks + 1) mod 60 = 0"
    and "(unat ticks + 1) mod 60 = 0 \<Longrightarrow> elapsed time0 (time - 1) (ticks + 1)"
    and "(unat ticks + 1) mod 60 \<noteq> 0 \<Longrightarrow> elapsed time0 time (ticks + 1)"
proof -
  have t0: "unat time0 < 256" using unat_less [of time0] by simp
  have pos: "0 < unat time" using time by (simp add: word_less_nat_alt)
  have small: "unat ticks < 60 * unat time0"
  proof (rule ccontr)
    assume "\<not> ?thesis"
    then have "unat ticks div 60 = unat time0" using el by (simp add: elapsed_def)
    then show False using el pos by (simp add: elapsed_def)
  qed
  then show u: "unat (ticks + 1) = unat ticks + 1"
    using t0 unat_add_of_nat [of ticks 1] by simp
  have "sint (ticks + 1) = int (unat ticks + 1)"
    using sint_small [of "ticks + 1"] u small t0 by simp
  moreover have "int (unat ticks + 1) mod 60 = int ((unat ticks + 1) mod 60)"
    by (simp only: of_nat_mod of_nat_numeral)
  ultimately show "sint (ticks + 1) mod 60 = 0 \<longleftrightarrow> (unat ticks + 1) mod 60 = 0"
    by (simp only: of_nat_eq_0_iff)
  have less: "unat (time - 1) = unat time - 1"
    using pos by (simp add: unat_minus_one word_gt_0_no unat_gt_0)
  show "elapsed time0 (time - 1) (ticks + 1)" if "(unat ticks + 1) mod 60 = 0"
    using el pos small div_60_Suc(1) [of "unat ticks"] that by (simp add: elapsed_def u less)
  show "elapsed time0 time (ticks + 1)" if "(unat ticks + 1) mod 60 \<noteq> 0"
    using el pos small div_60_Suc(2) [of "unat ticks"] that by (simp add: elapsed_def u)
qed


section \<open>The loop returns\<close>

text \<open>
  An observer of the output: \<open>P\<close> counts the calls of \<open>timer_print_elapsed_time\<close>, which nothing else of
  the loop changes.
\<close>

definition counts_prints :: "'w sys \<Rightarrow> ('w \<Rightarrow> nat) \<Rightarrow> bool" where
  "counts_prints S P \<longleftrightarrow>
     (\<forall>w. P (timer_print_elapsed_time S w) = P w + 1) \<and> (\<forall>w. P (snd (receive_hw S w)) = P w)"

definition second_inv ::
    "'w sys \<Rightarrow> ('w \<Rightarrow> nat) \<Rightarrow> ('w \<Rightarrow> nat) \<Rightarrow> u8 \<Rightarrow> nat \<Rightarrow> u8 \<times> ('w, 'z) timer_st_scheme \<Rightarrow> bool" where
  "second_inv S busy P time0 p0 ls \<longleftrightarrow>
     keeps_interrupting S 0 busy \<and> counts_prints S P
     \<and> elapsed time0 (fst ls) (totalInterrupts (snd ls))
     \<and> P (world (snd ls)) + unat (fst ls) = p0 + unat time0"

lemma timer_test_int_ih_eq:
  assumes "elapsed time0 time (totalInterrupts s)" and "0 < time" and "raised ints 0"
  shows "timer_test_int_ih S 0 ints (time, s) =
    (if (unat (totalInterrupts s) + 1) mod 60 = 0
     then Inr (time - 1, s\<lparr>totalInterrupts := totalInterrupts s + 1,
                         world := timer_print_elapsed_time S (world s)\<rparr>)
     else Inr (time, s\<lparr>totalInterrupts := totalInterrupts s + 1\<rparr>))"
  using assms(3) elapsed_tick(2) [OF assms(1,2)]
  by (simp add: timer_test_int_ih_def timer_int_handler_def full_second_def)

lemma timer_test_int_ih_quiet:
  "\<not> raised ints 0 \<Longrightarrow> timer_test_int_ih S 0 ints (time, s) = Inr (time, s)"
  by (simp add: timer_test_int_ih_def)

lemma second_inv_reaction:
  assumes I: "second_inv S busy P time0 p0 (time, s)" and time: "0 < time" and r: "raised ints 0"
  shows "\<exists>time' s'. timer_test_int_ih S 0 ints (time, s) = Inr (time', s')
    \<and> second_inv S busy P time0 p0 (time', s')
    \<and> unat (totalInterrupts s') = unat (totalInterrupts s) + 1"
proof -
  have el: "elapsed time0 time (totalInterrupts s)" using I by (simp add: second_inv_def)
  note tick = elapsed_tick [OF el time]
  have "unat (time - 1) = unat time - 1" "0 < unat time"
    using time by (simp_all add: unat_minus_one word_less_nat_alt word_gt_0_no unat_gt_0)
  then show ?thesis
    using I tick timer_test_int_ih_eq [OF el time r, of S]
    by (auto simp: second_inv_def counts_prints_def)
qed

interpretation seconds: driver_progress S "\<lambda>(time, s). 0 < time" "timer_test_int_ih S 0"
    "second_inv S busy P time0 p0" 0 "\<lambda>(time, s). 60 * unat time0 - unat (totalInterrupts s)" busy
  for S busy P time0 p0
proof
  fix l :: u8 and s :: "('a, 'b) timer_st_scheme"
  assume "second_inv S busy P time0 p0 (l, s)"
  then show "second_inv S busy P time0 p0 (l, s\<lparr>world := snd (receive_hw S (world s))\<rparr>)"
    by (simp add: second_inv_def counts_prints_def)
next
  fix ls :: "u8 \<times> ('a, 'b) timer_st_scheme" and ints
  assume "second_inv S busy P time0 p0 ls" "case ls of (time, s) \<Rightarrow> 0 < time"
  then show "\<exists>t. timer_test_int_ih S 0 ints ls = Inr t \<and> second_inv S busy P time0 p0 t"
    using second_inv_reaction [of S busy P time0 p0 "fst ls" "snd ls" ints]
      timer_test_int_ih_quiet [of ints S "fst ls" "snd ls"]
    by (cases "raised ints 0"; cases ls) auto
next
  fix ls :: "u8 \<times> ('a, 'b) timer_st_scheme" and ints t
  assume I: "second_inv S busy P time0 p0 ls" "case ls of (time, s) \<Rightarrow> 0 < time"
    and r: "raised ints 0" "timer_test_int_ih S 0 ints ls = Inr t"
  obtain time' s' where t: "t = (time', s')" "second_inv S busy P time0 p0 (time', s')"
      "unat (totalInterrupts s') = unat (totalInterrupts (snd ls)) + 1"
    using second_inv_reaction [of S busy P time0 p0 "fst ls" "snd ls" ints] I r by (cases ls) auto
  then have "unat (totalInterrupts s') \<le> 60 * unat time0" by (simp add: second_inv_def elapsed_def)
  then show "(case t of (time, s) \<Rightarrow> 60 * unat time0 - unat (totalInterrupts s))
      < (case ls of (time, s) \<Rightarrow> 60 * unat time0 - unat (totalInterrupts s))"
    using t by (cases ls) auto
next
  fix ls :: "u8 \<times> ('a, 'b) timer_st_scheme" and ints t
  assume "\<not> raised ints 0" "timer_test_int_ih S 0 ints ls = Inr t"
  then show "t = ls" by (cases ls) (simp add: timer_test_int_ih_quiet)
qed (auto simp: second_inv_def)

text \<open>
  C23. \<open>timer_test_int\<close> returns 0, provided that the timer keeps interrupting, after exactly 60 counted
  interrupts per second of its argument, having reported each second once.
\<close>

theorem timer_test_int_returns:
  assumes "keeps_interrupting S 0 busy" and "counts_prints S P"
    and "totalInterrupts s = 0" and "timer_subscribe_int S s = (bit_no, r, s0)"
  shows "\<exists>t. timer_test_int S time s = Some (Inr (0, t))
    \<and> unat (totalInterrupts t) = 60 * unat time \<and> P (world t) = P (world s0) + unat time"
proof -
  have s0: "bit_no = 0" "totalInterrupts s0 = 0"
    using assms(3,4) by (auto simp: timer_subscribe_int_def split: prod.splits)
  have "second_inv S busy P time (P (world s0)) (time, s0)"
    using assms(1,2) by (simp add: second_inv_def elapsed_def s0)
  from seconds.returns [OF this] obtain time' t where
    loop: "driver_loop S (\<lambda>(time, s). 0 < time) (timer_test_int_ih S 0) (time, s0) = Some (Inr (time', t))"
    and I: "second_inv S busy P time (P (world s0)) (time', t)" and "\<not> 0 < time'"
    by auto
  moreover from this have "unat time' = 0" by (simp add: word_less_nat_alt)
  ultimately have "unat (totalInterrupts t) = 60 * unat time" "P (world t) = P (world s0) + unat time"
    by (auto simp: second_inv_def elapsed_def)
  with loop assms(4) show ?thesis by (simp add: timer_test_int_def s0)
qed

text \<open>A world that delivers timer interrupts only and counts the reports.\<close>

definition ticking_sys :: "nat sys" where
  "ticking_sys = idle_sys\<lparr>
     driver_receive := (\<lambda>w. (0, hw_message 1, 4, w)), timer_print_elapsed_time := Suc\<rparr>"

definition seconds_demo :: "nat timer_st" where
  "seconds_demo = \<lparr>world = 0, countSysInb = 0, timer_hook_id = 0, totalInterrupts = 0\<rparr>"

lemma ticking_receive [simp]: "receive_hw ticking_sys w = (Some 1, w)"
  by (simp add: receive_hw_def ticking_sys_def hw_message_def is_ipc_notify_def)

theorem timer_test_int_returns_witness:
  "\<exists>t. timer_test_int ticking_sys 5 seconds_demo = Some (Inr (0, t))
    \<and> unat (totalInterrupts t) = 300 \<and> world t = 5"
proof -
  have k: "keeps_interrupting ticking_sys 0 (\<lambda>_. 0)"
    by (simp add: keeps_interrupting_def raised_iff)
  have p: "counts_prints ticking_sys id"
    by (simp add: counts_prints_def) (simp add: ticking_sys_def)
  have z: "totalInterrupts seconds_demo = 0" by (simp add: seconds_demo_def)
  have sub: "timer_subscribe_int ticking_sys seconds_demo = (0, 0, seconds_demo\<lparr>timer_hook_id := 100\<rparr>)"
    by (simp add: timer_subscribe_int_def ticking_sys_def idle_sys_def seconds_demo_def)
  show ?thesis
    using timer_test_int_returns [OF k p z sub, of 5] by (simp add: seconds_demo_def)
qed

end
