(* ===== verification/Lab3.thy ===== *)
theory Lab3
  imports Lab2 Kbc
begin

text \<open>
  \<open>lab3/lab3.c\<close>: the test functions of the keyboard driver, by interrupts, by polling, and by interrupts
  with a time limit. Shown is when they return: with the break code of Escape as the last scan
  code, or, with a time limit, after exactly that many seconds without a key.
\<close>


section \<open>Test functions\<close>

definition print_scancode :: "'w sys \<Rightarrow> ('w, 'z) kbc_st_scheme \<Rightarrow> ('w, 'z) kbc_st_scheme" where
  "print_scancode S s =
     s\<lparr>world := kbd_print_scancode S (scanCode s AND MSB = 0) 1 (scanCode s) (world s)\<rparr>"

definition kbd_scan_ih ::
    "'w sys \<Rightarrow> u8 \<Rightarrow> u64 \<Rightarrow> unit \<times> ('w, 'z) kbc_st_scheme \<Rightarrow> fault + unit \<times> ('w, 'z) kbc_st_scheme" where
  "kbd_scan_ih S bit_no ints ls =
     (case ls of (_, s) \<Rightarrow>
        if raised ints bit_no then Inr ((), print_scancode S (lab_kbc_ih S s)) else Inr ((), s))"

definition kbd_test_scan ::
    "'w sys \<Rightarrow> ('w, 'z) kbc_st_scheme \<Rightarrow> (fault + int \<times> ('w, 'z) kbc_st_scheme) option" where
  "kbd_test_scan S s =
     (let (bit_no, _, s) = keyboard_subscribe_int S s;
          s = s\<lparr>scanCode := 0, countSysInb := 0\<rparr>
      in then_res (driver_loop S (\<lambda>(_, s). scanCode s \<noteq> ESC_BREAK_CODE) (kbd_scan_ih S bit_no) ((), s))
           (\<lambda>(_, s). let (_, s) = keyboard_unsubscribe_int S s;
                         s = s\<lparr>world := kbd_print_no_sysinb S (countSysInb s) (world s)\<rparr>
                     in Some (Inr (0, s))))"

definition kbd_poll_iter :: "'w sys \<Rightarrow> ('w, 'z) kbc_st_scheme \<Rightarrow> (fault + ('w, 'z) kbc_st_scheme) option" where
  "kbd_poll_iter S s =
     (let s = s\<lparr>scanCode := 0\<rparr>;
          s = lab_kbc_ih S s;
          s = (if scanCode s \<noteq> 0 then print_scancode S s else s)
      in Some (Inr (delay S DELAY_US s)))"

definition kbd_test_poll ::
    "'w sys \<Rightarrow> ('w, 'z) kbc_st_scheme \<Rightarrow> (fault + int \<times> ('w, 'z) kbc_st_scheme) option" where
  "kbd_test_poll S s =
     (let s = s\<lparr>scanCode := 0, countSysInb := 0\<rparr>
      in then_res (while_res (\<lambda>s. scanCode s \<noteq> ESC_BREAK_CODE) (kbd_poll_iter S) s)
           (\<lambda>s. let s = enableInterrupts S s;
                    s = s\<lparr>world := kbd_print_no_sysinb S (countSysInb s) (world s)\<rparr>
                in Some (Inr (0, s))))"

definition kbd_timed_ih ::
    "'w sys \<Rightarrow> u8 \<Rightarrow> u8 \<Rightarrow> u8 \<Rightarrow> u64 \<Rightarrow> u8 \<times> ('w, 'z) kbc_st_scheme \<Rightarrow> fault + u8 \<times> ('w, 'z) kbc_st_scheme"
  where
  "kbd_timed_ih S nInit bit_noKBC bit_noTIMER ints ls =
     (let (n, s) = ls;
          (n, s) = (if raised ints bit_noKBC
                    then let s = lab_kbc_ih S s;
                             s = print_scancode S s
                         in (nInit, s\<lparr>totalInterrupts := 0\<rparr>)
                    else (n, s));
          (n, s) = (if raised ints bit_noTIMER
                    then let s = timer_int_handler s
                         in if full_second s then (n - 1, s) else (n, s)
                    else (n, s))
      in Inr (n, s))"

definition kbd_test_timed_scan ::
    "'w sys \<Rightarrow> u8 \<Rightarrow> ('w, 'z) kbc_st_scheme \<Rightarrow> (fault + int \<times> ('w, 'z) kbc_st_scheme) option" where
  "kbd_test_timed_scan S n s =
     (let (bit_noTIMER, _, s) = timer_subscribe_int S s;
          (bit_noKBC, _, s) = keyboard_subscribe_int S s
      in then_res (driver_loop S (\<lambda>(n, s). scanCode s \<noteq> ESC_BREAK_CODE \<and> 0 < n)
                     (kbd_timed_ih S n bit_noKBC bit_noTIMER) (n, s))
           (\<lambda>(n, s). let (_, s) = timer_unsubscribe_int S s;
                         (_, s) = keyboard_unsubscribe_int S s
                     in Some (Inr (0, s))))"


section \<open>Scanning until Escape\<close>

interpretation scan: driver_contract S "\<lambda>(_, s). scanCode s \<noteq> ESC_BREAK_CODE" "kbd_scan_ih S bit_no"
    "\<lambda>_. True" for S bit_no
  by unfold_locales (auto simp: kbd_scan_ih_def)

lemma kbd_test_scan_ends:
  assumes "kbd_test_scan S s = Some r"
  shows "\<exists>t. r = Inr (0, t) \<and> scanCode t = ESC_BREAK_CODE"
proof -
  obtain b rs s1 where sub: "keyboard_subscribe_int S s = (b, rs, s1)" by (metis prod_cases3)
  let ?s = "s1\<lparr>scanCode := 0, countSysInb := 0\<rparr>"
  obtain r' where r': "driver_loop S (\<lambda>(_, s). scanCode s \<noteq> ESC_BREAK_CODE) (kbd_scan_ih S b) ((), ?s) = Some r'"
    using assms sub
    by (cases "driver_loop S (\<lambda>(_, s). scanCode s \<noteq> ESC_BREAK_CODE) (kbd_scan_ih S b) ((), ?s)")
      (auto simp: kbd_test_scan_def)
  obtain t where t: "r' = Inr ((), t)" "scanCode t = ESC_BREAK_CODE"
    using scan.safe [OF _ r'] by auto
  show ?thesis
    using assms sub r' t
    by (auto simp: kbd_test_scan_def keyboard_unsubscribe_int_def split: prod.splits)
qed

lemma kbd_test_poll_ends:
  assumes "kbd_test_poll S s = Some r"
  shows "\<exists>t u. while_res (\<lambda>s. scanCode s \<noteq> ESC_BREAK_CODE) (kbd_poll_iter S)
      (s\<lparr>scanCode := 0, countSysInb := 0\<rparr>) = Some (Inr u) \<and> scanCode u = ESC_BREAK_CODE
    \<and> r = Inr (0, t) \<and> t = (enableInterrupts S u)\<lparr>world :=
         kbd_print_no_sysinb S (countSysInb (enableInterrupts S u)) (world (enableInterrupts S u))\<rparr>"
proof -
  let ?loop = "while_res (\<lambda>s. scanCode s \<noteq> ESC_BREAK_CODE) (kbd_poll_iter S)
      (s\<lparr>scanCode := 0, countSysInb := 0\<rparr>)"
  obtain r' where r': "?loop = Some r'" using assms by (cases ?loop) (auto simp: kbd_test_poll_def)
  obtain u where "r' = Inr u" "scanCode u = ESC_BREAK_CODE"
    using while_res_safe [OF r', of "\<lambda>_. True"] by (auto simp: kbd_poll_iter_def Let_def)
  with assms r' show ?thesis by (simp add: kbd_test_poll_def Let_def)
qed


section \<open>The time limit\<close>

text \<open>The clock of the loop after a key: the time limit is back, no interrupt is counted.\<close>

definition key_reset :: "'w sys \<Rightarrow> u8 \<Rightarrow> u64 \<Rightarrow> u8 \<times> ('w, 'z) kbc_st_scheme \<Rightarrow> u8 \<times> ('w, 'z) kbc_st_scheme" where
  "key_reset S nInit ints ls =
     (if raised ints 1
      then (nInit, (print_scancode S (lab_kbc_ih S (snd ls)))\<lparr>totalInterrupts := 0\<rparr>) else ls)"

definition timed_clock :: "u8 \<Rightarrow> u8 \<times> ('w, 'z) kbc_st_scheme \<Rightarrow> bool" where
  "timed_clock nInit ls \<longleftrightarrow> elapsed nInit (fst ls) (totalInterrupts (snd ls))"

lemma elapsed_start [simp]: "elapsed n n 0"
  by (simp add: elapsed_def)

lemma elapsed_le: "elapsed n0 n ticks \<Longrightarrow> 0 < n \<Longrightarrow> 0 < n0"
  by (simp add: elapsed_def word_less_nat_alt)

lemma kbd_timed_ih_eq:
  "kbd_timed_ih S nInit 1 0 ints ls =
     (let (n, s) = key_reset S nInit ints ls
      in if raised ints 0
         then let s = s\<lparr>totalInterrupts := totalInterrupts s + 1\<rparr>
              in if full_second s then Inr (n - 1, s) else Inr (n, s)
         else Inr (n, s))"
  by (cases ls) (simp add: kbd_timed_ih_def key_reset_def timer_int_handler_def Let_def)

lemma key_reset_clock:
  assumes "timed_clock nInit ls" and "0 < fst ls"
  shows "timed_clock nInit (key_reset S nInit ints ls)" and "0 < fst (key_reset S nInit ints ls)"
  using assms elapsed_le [of nInit "fst ls" "totalInterrupts (snd ls)"]
  by (auto simp: timed_clock_def key_reset_def)

lemma timed_tick:
  assumes "timed_clock nInit (n, s)" and "0 < n"
  shows "let s' = s\<lparr>totalInterrupts := totalInterrupts s + 1\<rparr>
    in timed_clock nInit (if full_second s' then n - 1 else n, s')
      \<and> unat (totalInterrupts s') = unat (totalInterrupts s) + 1"
  using assms elapsed_tick [of nInit n "totalInterrupts s"]
  by (auto simp: timed_clock_def full_second_def Let_def)

lemma kbd_timed_ih_clock:
  assumes "timed_clock nInit ls" and "0 < fst ls"
  shows "\<exists>t. kbd_timed_ih S nInit 1 0 ints ls = Inr t \<and> timed_clock nInit t"
proof -
  obtain n s where k: "key_reset S nInit ints ls = (n, s)" by fastforce
  have "timed_clock nInit (n, s)" "0 < n" using key_reset_clock [OF assms, of S ints] by (simp_all add: k)
  then show ?thesis using timed_tick [of nInit n s] by (auto simp: kbd_timed_ih_eq k Let_def)
qed

interpretation timed_scan: driver_contract S "\<lambda>(n, s). scanCode s \<noteq> ESC_BREAK_CODE \<and> 0 < n"
    "kbd_timed_ih S nInit 1 0" "timed_clock nInit" for S nInit
proof
  fix ls :: "u8 \<times> ('a, 'b) kbc_st_scheme" and ints
  assume "timed_clock nInit ls" "case ls of (n, s) \<Rightarrow> scanCode s \<noteq> ESC_BREAK_CODE \<and> 0 < n"
  then show "\<exists>t. kbd_timed_ih S nInit 1 0 ints ls = Inr t \<and> timed_clock nInit t"
    by (intro kbd_timed_ih_clock) auto
qed (auto simp: timed_clock_def)

text \<open>With a silent keyboard the clock runs down.\<close>

definition silent_clock ::
    "'w sys \<Rightarrow> ('w \<Rightarrow> nat) \<Rightarrow> u8 \<Rightarrow> u8 \<times> ('w, 'z) kbc_st_scheme \<Rightarrow> bool" where
  "silent_clock S busy nInit ls \<longleftrightarrow> keeps_interrupting S 0 busy \<and> silent S 1 \<and> timed_clock nInit ls"

interpretation silent_scan: driver_progress S "\<lambda>(n, s). scanCode s \<noteq> ESC_BREAK_CODE \<and> 0 < n"
    "kbd_timed_ih S nInit 1 0" "silent_clock S busy nInit" 0
    "\<lambda>(n, s). 60 * unat nInit - unat (totalInterrupts s)" busy
  for S busy nInit
proof
  fix ls :: "u8 \<times> ('a, 'b) kbc_st_scheme" and ints
  assume "silent_clock S busy nInit ls" "case ls of (n, s) \<Rightarrow> scanCode s \<noteq> ESC_BREAK_CODE \<and> 0 < n"
  then show "\<exists>t. kbd_timed_ih S nInit 1 0 ints ls = Inr t \<and> silent_clock S busy nInit t"
    using kbd_timed_ih_clock [of nInit ls S ints] by (auto simp: silent_clock_def)
next
  fix ls t :: "u8 \<times> ('a, 'b) kbc_st_scheme" and w ints
  assume I: "silent_clock S busy nInit ls" "case ls of (n, s) \<Rightarrow> scanCode s \<noteq> ESC_BREAK_CODE \<and> 0 < n"
    and d: "fst (receive_hw S w) = Some ints" and r: "raised ints 0"
    and t: "kbd_timed_ih S nInit 1 0 ints ls = Inr t"
  obtain n s where ls: "ls = (n, s)" by (cases ls)
  have "key_reset S nInit ints ls = ls" using silent_D [OF _ d] I by (auto simp: silent_clock_def key_reset_def)
  then have "timed_clock nInit t \<and> unat (totalInterrupts (snd t)) = unat (totalInterrupts s) + 1"
    using timed_tick [of nInit n s] I t r by (auto simp: silent_clock_def kbd_timed_ih_eq ls Let_def split: if_splits)
  then show "(case t of (n, s) \<Rightarrow> 60 * unat nInit - unat (totalInterrupts s))
      < (case ls of (n, s) \<Rightarrow> 60 * unat nInit - unat (totalInterrupts s))"
    by (cases t) (auto simp: ls timed_clock_def elapsed_def)
next
  fix ls t :: "u8 \<times> ('a, 'b) kbc_st_scheme" and w ints
  assume I: "silent_clock S busy nInit ls" and d: "fst (receive_hw S w) = Some ints"
    and r: "\<not> raised ints 0" "kbd_timed_ih S nInit 1 0 ints ls = Inr t"
  have "key_reset S nInit ints ls = ls" using silent_D [OF _ d] I by (auto simp: silent_clock_def key_reset_def)
  then show "t = ls" using r by (cases ls) (simp add: kbd_timed_ih_eq)
qed (auto simp: silent_clock_def timed_clock_def)

lemma subscribe_timed:
  "timer_subscribe_int S s = (bt, rt, s1) \<Longrightarrow> keyboard_subscribe_int S s1 = (bk, rk, s2) \<Longrightarrow>
   bt = 0 \<and> bk = 1 \<and> totalInterrupts s2 = totalInterrupts s"
  by (auto simp: timer_subscribe_int_def keyboard_subscribe_int_def c_consts split: prod.splits)

lemma unsubscribe_timed:
  "timer_unsubscribe_int S s = (rt, s1) \<Longrightarrow> keyboard_unsubscribe_int S s1 = (rk, s2) \<Longrightarrow>
   scanCode s2 = scanCode s \<and> totalInterrupts s2 = totalInterrupts s"
  by (auto simp: timer_unsubscribe_int_def keyboard_unsubscribe_int_def split: prod.splits)

text \<open>
  C24. Whenever \<open>kbd_test_timed_scan\<close> ends, it returns 0, and either the last scan code is the break code of
  Escape or exactly \<open>60 * n\<close> timer interrupts were counted since the last key (or since the start). It
  does end when the timer keeps interrupting and the keyboard is silent.
\<close>

theorem kbd_test_timed_scan_ends:
  assumes "totalInterrupts s = 0"
  shows "(\<forall>r. kbd_test_timed_scan S n s = Some r \<longrightarrow>
      (\<exists>t. r = Inr (0, t) \<and> (scanCode t = ESC_BREAK_CODE \<or> unat (totalInterrupts t) = 60 * unat n)))
    \<and> (keeps_interrupting S 0 busy \<and> silent S 1 \<longrightarrow> (\<exists>r. kbd_test_timed_scan S n s = Some r))"
proof -
  obtain bt rt s1 bk rk s2 where sub: "timer_subscribe_int S s = (bt, rt, s1)"
      "keyboard_subscribe_int S s1 = (bk, rk, s2)"
    by (metis prod_cases3)
  note bits = subscribe_timed [OF sub]
  let ?loop = "driver_loop S (\<lambda>(n, s). scanCode s \<noteq> ESC_BREAK_CODE \<and> 0 < n) (kbd_timed_ih S n 1 0) (n, s2)"
  let ?fin = "\<lambda>(n, s). let (_, s) = timer_unsubscribe_int S s; (_, s) = keyboard_unsubscribe_int S s
    in Some (Inr (0, s)) :: (fault + int \<times> _) option"
  have run: "kbd_test_timed_scan S n s = then_res ?loop ?fin"
    using bits by (simp add: kbd_test_timed_scan_def sub)
  have clock: "timed_clock n (n, s2)" using bits assms by (simp add: timed_clock_def)
  have "\<exists>t. r = Inr (0, t) \<and> (scanCode t = ESC_BREAK_CODE \<or> unat (totalInterrupts t) = 60 * unat n)"
    if r: "kbd_test_timed_scan S n s = Some r" for r
  proof -
    obtain r' where r': "?loop = Some r'" using r run by (cases ?loop) auto
    obtain n' t where t: "r' = Inr (n', t)" "timed_clock n (n', t)"
        "scanCode t = ESC_BREAK_CODE \<or> n' = 0"
      using timed_scan.safe [OF clock r'] by (auto simp: word_less_nat_alt unat_eq_zero)
    obtain ru t1 rv t2 where un: "timer_unsubscribe_int S t = (ru, t1)" "keyboard_unsubscribe_int S t1 = (rv, t2)"
      by fastforce
    have "unat (totalInterrupts t) = 60 * unat n" if "n' = 0"
      using t(2) that by (auto simp: timed_clock_def elapsed_def)
    then show ?thesis using r run r' t un unsubscribe_timed [OF un] by auto
  qed
  moreover have "\<exists>r. kbd_test_timed_scan S n s = Some r" if "keeps_interrupting S 0 busy" "silent S 1"
  proof -
    have "silent_clock S busy n (n, s2)" using that clock by (simp add: silent_clock_def)
    from silent_scan.returns [OF this] show ?thesis
      by (auto simp: run split: prod.splits)
  qed
  ultimately show ?thesis by blast
qed

definition kbd_demo :: "nat kbc_st" where
  "kbd_demo = timer_st.extend seconds_demo \<lparr>scanCode = 0, hook_idKEYBOARD = 1\<rparr>"

theorem kbd_test_timed_scan_ends_witness:
  "totalInterrupts kbd_demo = 0 \<and> keeps_interrupting ticking_sys 0 (\<lambda>_. 0) \<and> silent ticking_sys 1
   \<and> (\<exists>t. kbd_test_timed_scan ticking_sys 3 kbd_demo = Some (Inr (0, t))
        \<and> (scanCode t = ESC_BREAK_CODE \<or> unat (totalInterrupts t) = 180))"
proof -
  have s: "totalInterrupts kbd_demo = 0" by (simp add: kbd_demo_def seconds_demo_def timer_st.defs)
  have env: "keeps_interrupting ticking_sys 0 (\<lambda>_. 0)" "silent ticking_sys 1"
    by (simp_all add: keeps_interrupting_def silent_def raised_iff)
  from kbd_test_timed_scan_ends [OF s, of ticking_sys 3 "\<lambda>_. 0"] env
  obtain r where "kbd_test_timed_scan ticking_sys 3 kbd_demo = Some r" by blast
  with kbd_test_timed_scan_ends [OF s, of ticking_sys 3 "\<lambda>_. 0"] s env show ?thesis by auto
qed

end
