(* ===== verification/Lab4.thy ===== *)
theory Lab4
  imports Lab2 Mouse
begin

text \<open>
  \<open>lab4/lab4.c\<close>: the test functions of the mouse driver. Shown: \<open>mouse_test_packet\<close> stays inside its packet
  buffer and returns after printing exactly the requested number of packets; \<open>mouse_test_gesture\<close>
  never returns, whatever the mouse does.
\<close>


section \<open>Test functions\<close>

text \<open>
  The mouse part of the loops: take a byte, and decode and print the packet it completes. The local
  structure \<open>pp\<close> is not initialised; its content is an argument of the test functions.
\<close>

definition packet_byte ::
    "'w sys \<Rightarrow> packet \<Rightarrow> u8 \<Rightarrow> ('w, 'z) mouse_st_scheme \<Rightarrow>
     fault + packet \<times> u8 \<times> bool \<times> ('w, 'z) mouse_st_scheme" where
  "packet_byte S pp counter s =
     (let s = mouse_ih S s
      in bind_res (mouse_step (byteFromMouse s) counter pp)
           (\<lambda>(counter, pp, done).
              Inr (pp, counter, done,
                   if done then s\<lparr>world := mouse_print_packet S pp (world s)\<rparr> else s)))"

definition mouse_packet_ih ::
    "'w sys \<Rightarrow> u8 \<Rightarrow> u64 \<Rightarrow> (packet \<times> u8 \<times> u32) \<times> ('w, 'z) mouse_st_scheme \<Rightarrow>
     fault + (packet \<times> u8 \<times> u32) \<times> ('w, 'z) mouse_st_scheme" where
  "mouse_packet_ih S bit_no ints ls =
     (case ls of ((pp, counter, cnt), s) \<Rightarrow>
        if raised ints bit_no
        then bind_res (packet_byte S pp counter s)
               (\<lambda>(pp, counter, done, s). Inr ((pp, counter, if done then cnt - 1 else cnt), s))
        else Inr ((pp, counter, cnt), s))"

definition mouse_close :: "'w sys \<Rightarrow> ('w, 'z) mouse_st_scheme \<Rightarrow> ('w, 'z) mouse_st_scheme" where
  "mouse_close S s = (let (_, s) = mouse_unsubscribe_int S s in disableDataReporting S s)"

definition mouse_test_packet ::
    "'w sys \<Rightarrow> packet \<Rightarrow> u32 \<Rightarrow> ('w, 'z) mouse_st_scheme \<Rightarrow>
     (fault + int \<times> ('w, 'z) mouse_st_scheme) option" where
  "mouse_test_packet S pp cnt s =
     (let (_, w) = mouse_enable_data_reporting S (world s); s = s\<lparr>world := w\<rparr>;
          (bit_no, _, s) = mouse_subscribe_int S s
      in then_res (driver_loop S (\<lambda>((pp, counter, cnt), s). 0 < cnt) (mouse_packet_ih S bit_no)
                     ((pp, 0, cnt), s))
           (\<lambda>(_, s). Some (Inr (0, mouse_close S s))))"

definition mouse_async_ih ::
    "'w sys \<Rightarrow> u8 \<Rightarrow> u8 \<Rightarrow> u8 \<Rightarrow> u64 \<Rightarrow> (packet \<times> u8 \<times> u8) \<times> ('w, 'z) mouse_st_scheme \<Rightarrow>
     fault + (packet \<times> u8 \<times> u8) \<times> ('w, 'z) mouse_st_scheme" where
  "mouse_async_ih S init bit_no bit_noTIMER ints ls =
     (let ((pp, counter, idle_time), s) = ls;
          (idle_time, s) =
            (if raised ints bit_noTIMER
             then let s = timer_int_handler s
                  in if full_second s then (idle_time - 1, s) else (idle_time, s)
             else (idle_time, s))
      in if raised ints bit_no
         then let idle_time = init; s = s\<lparr>totalInterrupts := 0\<rparr>
              in bind_res (packet_byte S pp counter s)
                   (\<lambda>(pp, counter, done, s). Inr ((pp, counter, idle_time), s))
         else Inr ((pp, counter, idle_time), s))"

definition mouse_test_async ::
    "'w sys \<Rightarrow> packet \<Rightarrow> u8 \<Rightarrow> ('w, 'z) mouse_st_scheme \<Rightarrow>
     (fault + int \<times> ('w, 'z) mouse_st_scheme) option" where
  "mouse_test_async S pp idle_time s =
     (let (bit_noTIMER, _, s) = timer_subscribe_int S s;
          (_, w) = mouse_enable_data_reporting S (world s); s = s\<lparr>world := w\<rparr>;
          (bit_no, _, s) = mouse_subscribe_int S s
      in then_res (driver_loop S (\<lambda>((pp, counter, idle_time), s). 0 < idle_time)
                     (mouse_async_ih S idle_time bit_no bit_noTIMER) ((pp, 0, idle_time), s))
           (\<lambda>(_, s). Some (Inr (0, mouse_close S s))))"

text \<open>
  \<open>a / (double) b <= c\<close> for integers: the quotient of a positive, negative or zero \<open>a\<close> by 0 is infinite with
  the sign of \<open>a\<close>, or not a number. (The operands have at most 18 bits, so that rounding does not
  change the comparison.)
\<close>

definition ratio_le :: "int \<Rightarrow> int \<Rightarrow> int \<Rightarrow> bool" where
  "ratio_le a b c =
     (if 0 < b then a \<le> c * b else if b < 0 then c * b \<le> a else a < 0)"

text \<open>What the loop of \<open>mouse_test_gesture\<close> does with the last packet after every hardware notification.\<close>

definition gesture_step :: "u8 \<Rightarrow> u8 \<Rightarrow> packet \<Rightarrow> int \<Rightarrow> int \<Rightarrow> int \<times> int" where
  "gesture_step x_len tolerance pp started peak =
     (let dx = sint (delta_x pp); dy = sint (delta_y pp); tol = uint tolerance; len = uint x_len;
          started =
            (if lb pp \<and> \<not> rb pp \<and> \<not> mb pp
             then (if started \<noteq> 0
                   then (if ratio_le (dy + tol) (dx - tol) 1 \<or> ratio_le (dy - tol) (dx + tol) 1
                         then 0 else started)
                   else started + dx)
             else started);
          started =
            (if \<not> lb pp \<and> \<not> mb pp \<and> \<not> rb pp \<and> 0 < started \<and> started < len then 0 else started);
          (started, peak) =
            (if rb pp \<and> \<not> lb pp \<and> \<not> mb pp
             then (if peak \<noteq> 0
                   then (if ratio_le (dy + tol) (dx - tol) (- 1) \<or> ratio_le (dy - tol) (dx + tol) (- 1)
                         then (0, 0) else (started, peak))
                   else (started, peak + dx))
             else (0, 0));
          (started, peak) =
            (if \<not> lb pp \<and> \<not> mb pp \<and> \<not> rb pp \<and> 0 < peak \<and> peak < len then (0, 0) else (started, peak))
      in (started, peak))"

definition mouse_gesture_ih ::
    "'w sys \<Rightarrow> u8 \<Rightarrow> u8 \<Rightarrow> u8 \<Rightarrow> u64 \<Rightarrow> (packet \<times> u8 \<times> int \<times> int) \<times> ('w, 'z) mouse_st_scheme \<Rightarrow>
     fault + (packet \<times> u8 \<times> int \<times> int) \<times> ('w, 'z) mouse_st_scheme" where
  "mouse_gesture_ih S x_len tolerance bit_no ints ls =
     (case ls of ((pp, counter, started, peak), s) \<Rightarrow>
        bind_res
          (if raised ints bit_no then packet_byte S pp counter s else Inr (pp, counter, False, s))
          (\<lambda>(pp, counter, done, s).
             let (started, peak) = gesture_step x_len tolerance pp started peak
             in Inr ((pp, counter, started, peak), s)))"

text \<open>\<open>counter\<close> is the content of the local of that name, which the code does not initialise here.\<close>

definition mouse_test_gesture ::
    "'w sys \<Rightarrow> packet \<Rightarrow> u8 \<Rightarrow> u8 \<Rightarrow> u8 \<Rightarrow> ('w, 'z) mouse_st_scheme \<Rightarrow>
     (fault + int \<times> ('w, 'z) mouse_st_scheme) option" where
  "mouse_test_gesture S pp counter x_len tolerance s =
     (let (bit_no, _, s) = mouse_subscribe_int S s;
          (_, w) = mouse_enable_data_reporting S (world s); s = s\<lparr>world := w\<rparr>
      in then_res (driver_loop S (\<lambda>((pp, counter, started, peak), s). \<not> (started \<noteq> 0 \<and> peak \<noteq> 0))
                     (mouse_gesture_ih S x_len tolerance bit_no) ((pp, counter, 0, 0), s))
           (\<lambda>(_, s). Some (Inr (0, mouse_close S s))))"

definition mouse_test_remote :: "u16 \<Rightarrow> u8 \<Rightarrow> int" where
  "mouse_test_remote period cnt = 1"


section \<open>The gesture that is never recognised\<close>

text \<open>A movement with the left button only is forgotten in the same step that sees it.\<close>

lemma gesture_step_forgets: "\<exists>p. gesture_step x_len tolerance pp 0 peak = (0, p)"
  by (simp add: gesture_step_def Let_def)

lemma packet_byte_keeps:
  assumes "counter < 3" and "length (pbytes pp) = 3"
  shows "\<exists>pp' counter' done s'. packet_byte S pp counter s = Inr (pp', counter', done, s')
    \<and> counter' < 3 \<and> length (pbytes pp') = 3"
  using mouse_step_invariant [OF assms, of "byteFromMouse (mouse_ih S s)"]
  by (auto simp: packet_byte_def Let_def)

definition gesture_inv :: "(packet \<times> u8 \<times> int \<times> int) \<times> ('w, 'z) mouse_st_scheme \<Rightarrow> bool" where
  "gesture_inv ls \<longleftrightarrow>
     (case ls of ((pp, counter, started, peak), s) \<Rightarrow>
        started = 0 \<and> counter < 3 \<and> length (pbytes pp) = 3)"

lemma mouse_gesture_ih_forgets:
  assumes "mouse_gesture_ih S x_len tolerance bit_no ints ((pp, counter, 0, peak), s)
     = Inr ((pp', counter', started', peak'), s')"
  shows "started' = 0"
proof -
  obtain q p where "gesture_step x_len tolerance q 0 peak = (started', p)"
    using assms by (auto simp: mouse_gesture_ih_def bind_res_eq_Inr_iff split_beta prod_eq_iff split: if_splits)
  then show ?thesis using gesture_step_forgets [of x_len tolerance q peak] by auto
qed

lemma gesture_iter_forgets:
  assumes "driver_iter S (mouse_gesture_ih S x_len tolerance bit_no) ((pp, counter, 0, peak), s)
     = Some (Inr ((pp', counter', started', peak'), s'))"
  shows "started' = 0"
proof -
  obtain r w where r: "receive_hw S (world s) = (r, w)" by fastforce
  with assms show ?thesis
    using mouse_gesture_ih_forgets [of S x_len tolerance bit_no _ pp counter peak]
    by (cases r) (auto simp: driver_iter_def)
qed

lemma mouse_gesture_ih_safe:
  assumes "gesture_inv ls"
  shows "\<exists>t. mouse_gesture_ih S x_len tolerance bit_no ints ls = Inr t \<and> gesture_inv t"
proof -
  obtain pp counter peak s where ls: "ls = ((pp, counter, 0, peak), s)"
      and I: "counter < 3" "length (pbytes pp) = 3"
    using assms by (auto simp: gesture_inv_def split: prod.splits)
  obtain pp' counter' d s' where
    b: "(if raised ints bit_no then packet_byte S pp counter s else Inr (pp, counter, False, s))
       = Inr (pp', counter', d, s')" "counter' < 3" "length (pbytes pp') = 3"
    using packet_byte_keeps [OF I, of S s] I by (cases "raised ints bit_no") auto
  obtain p where "gesture_step x_len tolerance pp' 0 peak = (0, p)"
    using gesture_step_forgets by blast
  with b show ?thesis by (simp add: ls mouse_gesture_ih_def gesture_inv_def)
qed

interpretation gesture: driver_contract S "\<lambda>((pp, counter, started, peak), s). \<not> (started \<noteq> 0 \<and> peak \<noteq> 0)"
    "mouse_gesture_ih S x_len tolerance bit_no" gesture_inv for S x_len tolerance bit_no
proof
  fix ls :: "(packet \<times> u8 \<times> int \<times> int) \<times> ('a, 'b) mouse_st_scheme" and ints
  assume "gesture_inv ls"
  then show "\<exists>t. mouse_gesture_ih S x_len tolerance bit_no ints ls = Inr t \<and> gesture_inv t"
    by (rule mouse_gesture_ih_safe)
qed (auto simp: gesture_inv_def)

text \<open>
  C21. \<open>mouse_test_gesture\<close> never returns, whatever the mouse does: it runs forever when the uninitialised
  counter happens to be a valid index of the packet, and otherwise runs forever or leaves the packet
  buffer. (The branch for the second stroke resets the first one for every packet that is not part
  of the second.)
\<close>

theorem mouse_test_gesture_never_returns:
  "mouse_test_gesture S pp counter x_len tolerance s \<noteq> Some (Inr r)
   \<and> (counter < 3 \<and> length (pbytes pp) = 3 \<longrightarrow> mouse_test_gesture S pp counter x_len tolerance s = None)"
proof -
  obtain bit_no rs s1 where sub: "mouse_subscribe_int S s = (bit_no, rs, s1)" by (metis prod_cases3)
  let ?s = "s1\<lparr>world := snd (mouse_enable_data_reporting S (world s1))\<rparr>"
  let ?b = "\<lambda>((pp, counter, started, peak), s). \<not> (started \<noteq> (0 :: int) \<and> peak \<noteq> (0 :: int))"
  let ?c = "driver_iter S (mouse_gesture_ih S x_len tolerance bit_no)"
  let ?I = "\<lambda>((pp, counter, started, peak), s). started = (0 :: int)"
  let ?loop = "while_res ?b ?c ((pp, counter, 0, 0), ?s)"
  have run: "mouse_test_gesture S pp counter x_len tolerance s
      = then_res ?loop (\<lambda>(_, s). Some (Inr (0, mouse_close S s)))"
    by (simp add: mouse_test_gesture_def sub driver_loop_def split_beta)
  have keep: "?I t" if "?I ls" "?b ls" "?c ls = Some (Inr t)" for ls t
    using that gesture_iter_forgets [of S x_len tolerance bit_no] by (cases t; cases ls) auto
  have "?loop \<noteq> Some (Inr t)" for t
  proof
    assume "?loop = Some (Inr t)"
    then have "?I t \<and> \<not> ?b t" by (rule while_res_invariant [OF _ _ keep]) simp
    then show False by (auto split: prod.splits)
  qed
  moreover have "?loop = None" if "counter < 3" "length (pbytes pp) = 3"
  proof (rule ccontr)
    assume "?loop \<noteq> None"
    then obtain r where "?loop = Some r" by blast
    then show False
      using gesture.safe [of "((pp, counter, 0, 0), ?s)" S x_len tolerance bit_no r] that
      by (auto simp: driver_loop_def gesture_inv_def)
  qed
  ultimately show ?thesis by (auto simp: run then_res_eq_Some_Inr)
qed

definition mouse_demo :: "nat mouse_st" where
  "mouse_demo = \<lparr>world = 0, countSysInb = 0, timer_hook_id = 0, totalInterrupts = 0, scanCode = 0,
     hook_idKEYBOARD = 1, byteFromMouse = 0, hook_idMOUSE = 12\<rparr>"

definition packet_demo :: packet where
  "packet_demo = \<lparr>pbytes = [0, 0, 0], rb = False, mb = False, lb = False, delta_x = 0, delta_y = 0,
     x_ov = False, y_ov = False\<rparr>"

theorem mouse_test_gesture_never_returns_witness:
  "mouse_test_gesture ticking_sys packet_demo 0 50 10 mouse_demo = None"
  using mouse_test_gesture_never_returns [of ticking_sys packet_demo 0 50 10 mouse_demo]
  by (simp add: packet_demo_def)


section \<open>Printing packets\<close>

text \<open>
  An observer of the output: \<open>P\<close> counts the packets printed and no other system call changes it.
\<close>

definition counts_packets :: "'w sys \<Rightarrow> ('w \<Rightarrow> nat) \<Rightarrow> bool" where
  "counts_packets S P \<longleftrightarrow>
     (\<forall>pp w. P (mouse_print_packet S pp w) = P w + 1)
     \<and> (\<forall>w. P (snd (receive_hw S w)) = P w)
     \<and> (\<forall>port w. P (snd (snd (sys_inb S port w))) = P w)
     \<and> (\<forall>port v w. P (snd (sys_outb S port v w)) = P w)
     \<and> (\<forall>t w. P (tickdelay S t w) = P w)
     \<and> (\<forall>irq pol hook w. P (snd (snd (sys_irqsetpolicy S irq pol hook w))) = P w)
     \<and> (\<forall>hook w. P (snd (snd (sys_irqrmpolicy S hook w))) = P w)
     \<and> (\<forall>w. P (snd (mouse_enable_data_reporting S w)) = P w)"

lemma counts_packets_D:
  assumes "counts_packets S P"
  shows "P (mouse_print_packet S pp w) = P w + 1" "P (snd (receive_hw S w)) = P w"
    "P (inworld S port w) = P w" "P (snd (sys_outb S port v w)) = P w" "P (tickdelay S n w) = P w"
    "P (snd (snd (sys_irqsetpolicy S irq pol hook w))) = P w"
    "P (snd (snd (sys_irqrmpolicy S hook w))) = P w"
    "P (snd (mouse_enable_data_reporting S w)) = P w"
  using assms by (simp_all add: counts_packets_def inworld_def)

lemma send_KBC_loop_unobserved:
  assumes "counts_packets S P"
  shows "P (world (snd (send_KBC_loop n S cmd s))) = P (world s)"
  by (induction n arbitrary: s)
    (simp_all add: counts_packets_D [OF assms] delay_def split_beta)

lemma mouse_close_unobserved:
  assumes "counts_packets S P"
  shows "P (world (mouse_close S s)) = P (world s)"
  by (simp add: mouse_close_def disableDataReporting_def mouse_unsubscribe_int_def read_command_byte_def
      write_command_byte_def send_KBC_command_byte_def delay_def split_beta
      counts_packets_D [OF assms] send_KBC_loop_unobserved [OF assms])

lemma mouse_ih_unobserved:
  assumes "counts_packets S P"
  shows "P (world (mouse_ih S s)) = P (world s)"
  by (simp add: mouse_ih_def Let_def counts_packets_D [OF assms])

lemma packet_byte_prints:
  assumes "counts_packets S P" and "packet_byte S pp counter s = Inr (pp', counter', done, s')"
  shows "P (world s') = P (world s) + (if done then 1 else 0)"
  using assms(2)
  by (auto simp: packet_byte_def Let_def bind_res_eq_Inr_iff counts_packets_D [OF assms(1)]
      mouse_ih_unobserved [OF assms(1)])

definition packet_inv ::
    "'w sys \<Rightarrow> ('w \<Rightarrow> nat) \<Rightarrow> nat \<Rightarrow> (packet \<times> u8 \<times> u32) \<times> ('w, 'z) mouse_st_scheme \<Rightarrow> bool" where
  "packet_inv S P goal ls \<longleftrightarrow>
     (case ls of ((pp, counter, cnt), s) \<Rightarrow>
        counts_packets S P \<and> counter < 3 \<and> length (pbytes pp) = 3 \<and> P (world s) + unat cnt = goal)"

lemma unat_pred: "0 < (x :: 'a::len word) \<Longrightarrow> unat (x - 1) = unat x - 1 \<and> 0 < unat x"
  by (simp add: unat_minus_one word_gt_0_no unat_gt_0)

lemma mouse_packet_ih_keeps:
  assumes "packet_inv S P goal ((pp, counter, cnt), s)" and "0 < cnt"
  shows "\<exists>t. mouse_packet_ih S bit_no ints ((pp, counter, cnt), s) = Inr t \<and> packet_inv S P goal t"
proof (cases "raised ints bit_no")
  case True
  have I: "counts_packets S P" "counter < 3" "length (pbytes pp) = 3" "P (world s) + unat cnt = goal"
    using assms(1) by (simp_all add: packet_inv_def)
  obtain pp' counter' d s' where b: "packet_byte S pp counter s = Inr (pp', counter', d, s')"
      "counter' < 3" "length (pbytes pp') = 3"
    using packet_byte_keeps [OF I(2,3)] by blast
  have "P (world s') + unat (if d then cnt - 1 else cnt) = goal"
    using packet_byte_prints [OF I(1) b(1)] I(4) unat_pred [OF assms(2)] by auto
  then show ?thesis using True b I(1) by (simp add: mouse_packet_ih_def packet_inv_def)
qed (use assms in \<open>simp add: mouse_packet_ih_def\<close>)

interpretation packets: driver_contract S "\<lambda>((pp, counter, cnt), s). 0 < cnt" "mouse_packet_ih S bit_no"
    "packet_inv S P goal" for S bit_no P goal
proof
  fix ls :: "(packet \<times> u8 \<times> u32) \<times> ('a, 'b) mouse_st_scheme" and ints
  assume "packet_inv S P goal ls" "(\<lambda>((pp, counter, cnt), s). 0 < cnt) ls"
  then show "\<exists>t. mouse_packet_ih S bit_no ints ls = Inr t \<and> packet_inv S P goal t"
    using mouse_packet_ih_keeps [of S P goal] by (cases ls) auto
qed (auto simp: packet_inv_def counts_packets_D(2) split: prod.splits)

text \<open>
  What a PS/2 mouse in stream mode delivers: packets of three bytes, of which the first has bit 3 set; the
  other two are displacements, arbitrary bytes. \<open>phase\<close> reads off the state of the world which byte of a packet is
  the next one. With each interrupt on the line one byte is ready, without errors. The
  stream may be joined in the middle of a packet.
\<close>

definition packet_stream :: "'w sys \<Rightarrow> u8 \<Rightarrow> ('w \<Rightarrow> nat) \<Rightarrow> bool" where
  "packet_stream S line phase \<longleftrightarrow>
     (\<forall>w. phase w < 3 \<and> phase (snd (receive_hw S w)) = phase w)
     \<and> (\<forall>pp w. phase (mouse_print_packet S pp w) = phase w)
     \<and> (\<forall>w ints w'. receive_hw S w = (Some ints, w') \<and> raised ints line \<longrightarrow>
          valid_mouse_status (kbc_status S w') \<and> (phase w' = 0 \<longrightarrow> bit (kbc_data S w') 3)
          \<and> phase (inworld S KBC_OUT_BUF (inworld S KBC_ST_REG w')) = (phase w' + 1) mod 3)"

text \<open>
  Bytes until the packets are complete, at most: five for each, as two may be skipped before its first one.
\<close>

fun bytes_left :: "('w \<Rightarrow> nat) \<Rightarrow> (packet \<times> u8 \<times> u32) \<times> ('w, 'z) mouse_st_scheme \<Rightarrow> nat" where
  "bytes_left phase ((pp, counter, cnt), s) =
     5 * unat cnt + (if counter = 0 then (3 - phase (world s)) mod 3 else 0) - unat counter"

lemma packet_byte_streamed:
  assumes str: "packet_stream S line phase" and c: "counter < 3"
    and w: "receive_hw S w = (Some ints, world s)" "raised ints line"
    and b: "packet_byte S pp counter s = Inr (pp', counter', done, s')"
  shows "phase (world s') = (phase (world s) + 1) mod 3"
    "counter' = (if counter = 2 then 0 else if counter = 0 \<and> \<not> bit (kbc_data S (world s)) 3 then 0 else counter + 1)"
    "done = (counter = 2)" "phase (world s) = 0 \<longrightarrow> bit (kbc_data S (world s)) 3"
proof -
  have v: "valid_mouse_status (kbc_status S (world s))" "phase (world s) = 0 \<longrightarrow> bit (kbc_data S (world s)) 3"
    "phase (inworld S KBC_OUT_BUF (inworld S KBC_ST_REG (world s))) = (phase (world s) + 1) mod 3"
    and p: "phase (mouse_print_packet S q x) = phase x" for q x
    using str w unfolding packet_stream_def by blast+
  have "byteFromMouse (mouse_ih S s) = kbc_data S (world s)"
    "world (mouse_ih S s) = inworld S KBC_OUT_BUF (inworld S KBC_ST_REG (world s))"
    using v(1) by (simp_all add: mouse_ih_eq kbc_read2_def)
  then show "phase (world s') = (phase (world s) + 1) mod 3"
    "counter' = (if counter = 2 then 0 else if counter = 0 \<and> \<not> bit (kbc_data S (world s)) 3 then 0 else counter + 1)"
    "done = (counter = 2)"
    using b v(3) by (cases rule: counter_cases [OF c];
        auto simp: packet_byte_def mouse_step_simps Let_def p bind_res_eq_Inr_iff split: if_splits)+
qed (use str w in \<open>auto simp: packet_stream_def\<close>)

definition streamed_inv ::
    "'w sys \<Rightarrow> u8 \<Rightarrow> ('w \<Rightarrow> nat) \<Rightarrow> ('w \<Rightarrow> nat) \<Rightarrow> ('w \<Rightarrow> nat) \<Rightarrow> nat \<Rightarrow>
     (packet \<times> u8 \<times> u32) \<times> ('w, 'z) mouse_st_scheme \<Rightarrow> bool" where
  "streamed_inv S line busy phase P goal ls \<longleftrightarrow>
     keeps_interrupting S line busy \<and> packet_stream S line phase \<and> packet_inv S P goal ls"

lemma mouse_packet_ih_closer:
  assumes str: "packet_stream S bit_no phase" and c: "counter < 3" and "0 < cnt"
    and w: "receive_hw S w = (Some ints, world s)" "raised ints bit_no"
    and H: "mouse_packet_ih S bit_no ints ((pp, counter, cnt), s) = Inr t"
  shows "bytes_left phase t < bytes_left phase ((pp, counter, cnt), s)"
proof -
  obtain pp' counter' d s' where b: "packet_byte S pp counter s = Inr (pp', counter', d, s')"
    and t: "t = ((pp', counter', if d then cnt - 1 else cnt), s')"
    using H w(2) by (auto simp: mouse_packet_ih_def bind_res_eq_Inr_iff)
  note p = packet_byte_streamed [OF str c w b]
  have "phase (world s) < 3" using str by (simp add: packet_stream_def)
  then have "phase (world s) = 0 \<or> phase (world s) = 1 \<or> phase (world s) = 2" by linarith
  then show ?thesis
    using unat_pred [OF assms(3)] p by (cases rule: counter_cases [OF c]) (auto simp: t)
qed

interpretation streamed_packets: driver_progress S "\<lambda>((pp, counter, cnt), s). 0 < cnt" "mouse_packet_ih S bit_no"
    "streamed_inv S bit_no busy phase P goal" bit_no "bytes_left phase" busy
  for S bit_no busy phase P goal
proof
  fix ls :: "(packet \<times> u8 \<times> u32) \<times> ('a, 'b) mouse_st_scheme" and ints
  assume "streamed_inv S bit_no busy phase P goal ls" "(\<lambda>((pp, counter, cnt), s). 0 < cnt) ls"
  then show "\<exists>t. mouse_packet_ih S bit_no ints ls = Inr t \<and> streamed_inv S bit_no busy phase P goal t"
    using mouse_packet_ih_keeps [of S P goal] by (cases ls) (auto simp: streamed_inv_def)
next
  fix ls t :: "(packet \<times> u8 \<times> u32) \<times> ('a, 'b) mouse_st_scheme" and ints w
  assume "streamed_inv S bit_no busy phase P goal ls" "(\<lambda>((pp, counter, cnt), s). 0 < cnt) ls"
    "fst (receive_hw S w) = Some ints" "world (snd ls) = snd (receive_hw S w)"
    "raised ints bit_no" "mouse_packet_ih S bit_no ints ls = Inr t"
  moreover obtain pp counter cnt s where "ls = ((pp, counter, cnt), s)" by (metis prod.collapse)
  ultimately show "bytes_left phase t < bytes_left phase ls"
    using mouse_packet_ih_closer [of S bit_no phase counter cnt w ints s pp t]
    by (auto simp: streamed_inv_def packet_inv_def prod_eq_iff simp del: bytes_left.simps)
next
  fix ls t :: "(packet \<times> u8 \<times> u32) \<times> ('a, 'b) mouse_st_scheme" and ints
  assume "\<not> raised ints bit_no" "mouse_packet_ih S bit_no ints ls = Inr t"
  then show "t = ls" by (cases ls) (auto simp: mouse_packet_ih_def)
next
  fix l :: "packet \<times> u8 \<times> u32" and s :: "('a, 'b) mouse_st_scheme"
  assume I: "streamed_inv S bit_no busy phase P goal (l, s)"
  then show "streamed_inv S bit_no busy phase P goal (l, s\<lparr>world := snd (receive_hw S (world s))\<rparr>)"
    using packets.receive [of S P goal l s] by (simp add: streamed_inv_def)
  show "bytes_left phase (l, s\<lparr>world := snd (receive_hw S (world s))\<rparr>) = bytes_left phase (l, s)"
    using I by (cases l) (simp add: streamed_inv_def packet_stream_def)
qed (auto simp: streamed_inv_def)

lemma mouse_subscribe_unobserved:
  assumes "counts_packets S P" and "mouse_subscribe_int S s = (bit_no, r, t)"
  shows "bit_no = word_of_int (hook_idMOUSE s) \<and> P (world t) = P (world s)"
  using assms(2) counts_packets_D(6) [OF assms(1)]
  by (auto simp: mouse_subscribe_int_def split_beta)

text \<open>
  C22. \<open>mouse_test_packet\<close> never leaves its packet buffer, and whenever it ends it returns 0 and has printed
  exactly \<open>cnt\<close> packets. It does end when the mouse keeps interrupting and delivers packets in which the
  first byte has bit 3 set, also when the program joins the stream in the middle of a packet.
\<close>

theorem mouse_test_packet_prints:
  assumes P: "counts_packets S P" and pp: "length (pbytes pp) = 3"
  shows "(\<forall>r. mouse_test_packet S pp cnt s = Some r \<longrightarrow>
      (\<exists>t. r = Inr (0, t) \<and> P (world t) = P (world s) + unat cnt))
    \<and> (keeps_interrupting S (word_of_int (hook_idMOUSE s)) busy
      \<and> packet_stream S (word_of_int (hook_idMOUSE s)) phase \<longrightarrow>
        (\<exists>r. mouse_test_packet S pp cnt s = Some r))"
proof -
  let ?bit = "word_of_int (hook_idMOUSE s) :: u8"
  obtain b r0 s1 where sub: "mouse_subscribe_int S (s\<lparr>world := snd (mouse_enable_data_reporting S (world s))\<rparr>) = (b, r0, s1)"
    by (metis prod_cases3)
  then have b: "b = ?bit" and P1: "P (world s1) = P (world s)"
    using mouse_subscribe_unobserved [OF P sub] by (simp_all add: counts_packets_D [OF P])
  let ?loop = "driver_loop S (\<lambda>((pp, counter, cnt), s). 0 < cnt) (mouse_packet_ih S ?bit) ((pp, 0, cnt), s1)"
  have run: "mouse_test_packet S pp cnt s = then_res ?loop (\<lambda>(_, s). Some (Inr (0, mouse_close S s)))"
    unfolding mouse_test_packet_def by (simp add: split_beta sub b)
  have I: "packet_inv S P (P (world s) + unat cnt) ((pp, 0, cnt), s1)"
    using P pp P1 by (simp add: packet_inv_def)
  have "\<exists>t. r = Inr (0, t) \<and> P (world t) = P (world s) + unat cnt"
    if r: "mouse_test_packet S pp cnt s = Some r" for r
  proof -
    obtain r' where r': "?loop = Some r'" using r run by (cases ?loop) auto
    obtain q c n t where t: "r' = Inr ((q, c, n), t)" "packet_inv S P (P (world s) + unat cnt) ((q, c, n), t)" "\<not> 0 < n"
      using packets.safe [OF I r'] by auto
    then have "P (world t) = P (world s) + unat cnt" by (simp add: packet_inv_def word_less_nat_alt)
    then show ?thesis using r run r' t by (auto simp: mouse_close_unobserved [OF P])
  qed
  moreover have "\<exists>r. mouse_test_packet S pp cnt s = Some r" if "keeps_interrupting S ?bit busy" "packet_stream S ?bit phase"
    using streamed_packets.returns [of S ?bit busy phase P "P (world s) + unat cnt" "((pp, 0, cnt), s1)"] that I
    by (auto simp: run streamed_inv_def)
  ultimately show ?thesis by blast
qed

text \<open>
  A mouse that always interrupts and delivers packets of the bytes 8, 0, 0; the world counts the bytes read
  and the packets printed. The test starts in the middle of a packet.
\<close>

definition moving_sys :: "(nat \<times> nat) sys" where
  "moving_sys = idle_sys\<lparr>driver_receive := (\<lambda>w. (0, hw_message 0x1000, 4, w)),
     sys_inb := (\<lambda>p (n, k). if p = KBC_ST_REG then (0, 0x21, (n, k))
                            else (0, if n mod 3 = 0 then 8 else 0, (n + 1, k))),
     mouse_print_packet := (\<lambda>p (n, k). (n, Suc k))\<rparr>"

definition moving_demo :: "(nat \<times> nat) mouse_st" where
  "moving_demo = \<lparr>world = (1, 0), countSysInb = 0, timer_hook_id = 0, totalInterrupts = 0, scanCode = 0,
     hook_idKEYBOARD = 1, byteFromMouse = 0, hook_idMOUSE = 12\<rparr>"

lemma moving_receive [simp]: "receive_hw moving_sys w = (Some 0x1000, w)"
  by (simp add: receive_hw_def moving_sys_def hw_message_def is_ipc_notify_def)

lemma moving_stream: "packet_stream moving_sys 12 (\<lambda>(n, k). n mod 3)"
  by (simp add: packet_stream_def kbc_status_def kbc_data_def inval_def inworld_def valid_mouse_status_def
      split: prod.split)
    (simp add: moving_sys_def c_consts mod_Suc_eq bit_numeral_rec)

theorem mouse_test_packet_prints_witness:
  "\<exists>t. mouse_test_packet moving_sys packet_demo 2 moving_demo = Some (Inr (0, t)) \<and> snd (world t) = 2"
proof -
  have env: "counts_packets moving_sys snd" "keeps_interrupting moving_sys 12 (\<lambda>_. 0)"
    by (simp_all add: counts_packets_def keeps_interrupting_def raised_iff)
      (simp_all add: moving_sys_def idle_sys_def bit_numeral_rec split: prod.split)
  have "hook_idMOUSE moving_demo = 12" "snd (world moving_demo) = 0" "length (pbytes packet_demo) = 3"
    by (simp_all add: moving_demo_def packet_demo_def)
  then show ?thesis
    using mouse_test_packet_prints [OF env(1), of packet_demo 2 moving_demo "\<lambda>_. 0" "\<lambda>(n, k). n mod 3"]
      env(2) moving_stream by auto
qed


section \<open>The idle time\<close>

definition async_inv :: "u8 \<Rightarrow> (packet \<times> u8 \<times> u8) \<times> ('w, 'z) mouse_st_scheme \<Rightarrow> bool" where
  "async_inv init ls \<longleftrightarrow>
     (case ls of ((pp, counter, idle_time), s) \<Rightarrow>
        counter < 3 \<and> length (pbytes pp) = 3 \<and> elapsed init idle_time (totalInterrupts s))"

lemma packet_byte_ticks:
  "packet_byte S pp counter s = Inr (pp', counter', done, s') \<Longrightarrow> totalInterrupts s' = totalInterrupts s"
  by (auto simp: packet_byte_def Let_def bind_res_eq_Inr_iff mouse_ih_def)

lemma async_tick:
  assumes "elapsed init idle_time (totalInterrupts s)" and "0 < idle_time"
  shows "\<exists>i t. (if raised ints 0
      then let s = timer_int_handler s in if full_second s then (idle_time - 1, s) else (idle_time, s)
      else (idle_time, s)) = (i, t) \<and> elapsed init i (totalInterrupts t)"
  using assms elapsed_tick [OF assms] by (auto simp: timer_int_handler_def full_second_def Let_def)

lemma mouse_async_ih_keeps:
  assumes "async_inv init ((pp, counter, idle_time), s)" and "0 < idle_time"
  shows "\<exists>t. mouse_async_ih S init bit_no 0 ints ((pp, counter, idle_time), s) = Inr t \<and> async_inv init t"
proof -
  have I: "counter < 3" "length (pbytes pp) = 3" "elapsed init idle_time (totalInterrupts s)"
    using assms(1) by (simp_all add: async_inv_def)
  obtain i t where tick: "(if raised ints 0
      then let s = timer_int_handler s in if full_second s then (idle_time - 1, s) else (idle_time, s)
      else (idle_time, s)) = (i, t)" "elapsed init i (totalInterrupts t)"
    using async_tick [OF I(3) assms(2)] by blast
  obtain pp' counter' d s' where b: "packet_byte S pp counter (t\<lparr>totalInterrupts := 0\<rparr>) = Inr (pp', counter', d, s')"
      "counter' < 3" "length (pbytes pp') = 3"
    using packet_byte_keeps [OF I(1,2)] by blast
  have "elapsed init init (totalInterrupts s')"
    using packet_byte_ticks [OF b(1)] by (simp add: elapsed_def)
  with tick b I show ?thesis
    by (cases "raised ints bit_no") (simp_all add: mouse_async_ih_def async_inv_def split_beta prod_eq_iff)
qed

interpretation async: driver_contract S "\<lambda>((pp, counter, idle_time), s). 0 < idle_time"
    "mouse_async_ih S init bit_no 0" "async_inv init" for S init bit_no
proof
  fix ls :: "(packet \<times> u8 \<times> u8) \<times> ('a, 'b) mouse_st_scheme" and ints
  assume "async_inv init ls" "(\<lambda>((pp, counter, idle_time), s). 0 < idle_time) ls"
  then show "\<exists>t. mouse_async_ih S init bit_no 0 ints ls = Inr t \<and> async_inv init t"
    using mouse_async_ih_keeps [of init] by (cases ls) auto
qed (auto simp: async_inv_def split: prod.splits)

text \<open>The loop of \<open>mouse_test_async\<close> ends only after \<open>60 * idle_time\<close> interrupts without a byte of the mouse.\<close>

lemma mouse_async_loop_ends:
  assumes "totalInterrupts s = 0" and "length (pbytes pp) = 3"
    and "driver_loop S (\<lambda>((pp, counter, idle_time), s). 0 < idle_time)
           (mouse_async_ih S idle_time bit_no 0) ((pp, 0, idle_time), s) = Some r"
  shows "\<exists>l t. r = Inr (l, t) \<and> unat (totalInterrupts t) = 60 * unat idle_time"
proof -
  have "async_inv idle_time ((pp, 0, idle_time), s)"
    using assms(1,2) by (simp add: async_inv_def elapsed_def)
  from async.safe [OF this assms(3)] obtain q c i t where
    t: "r = Inr ((q, c, i), t)" "async_inv idle_time ((q, c, i), t)" "\<not> 0 < i" by auto
  then have "unat (totalInterrupts t) = 60 * unat idle_time"
    by (auto simp: async_inv_def elapsed_def word_less_nat_alt)
  with t show ?thesis by blast
qed

end
