(* ===== verification/Lab5.thy ===== *)
theory Lab5
  imports Video Lab2
begin

text \<open>
  \<open>lab5/video_gr.c\<close> and \<open>lab5/lab5.c\<close>: the graphics functions from which those of the game were made, and
  their tests. The module's static variables are those of \<open>video_st\<close> without the players and the
  cursor, which nothing here uses; \<open>set_mode\<close>, the mask sizes, the resolution and \<open>continueLoop\<close> are the same
  as in the game and not repeated. Shown: on a rectangle that fits 16-bit coordinates the two
  implementations of lines and rectangles agree; every test that maps the frame buffer divides by
  zero in a fresh process; and what the colours of the test pattern are. \<open>xpm_move\<close> is the subject of
  \<open>Lab5_Move\<close>.
\<close>


section \<open>video_gr.c\<close>

definition lab5_get_bits_per_pixel :: "video_st \<Rightarrow> u32" where
  "lab5_get_bits_per_pixel v = bytes_per_pixel v div 8"

definition lab5_new_vg_init ::
    "'w sys \<Rightarrow> u16 \<Rightarrow> ('w, 'z) prog_st_scheme \<Rightarrow> fault + ('w, 'z) prog_st_scheme" where
  "lab5_new_vg_init S mode s =
     (let (_, info, w) = vbe_get_mode_info S mode (world s)
      in if h_res (vid s) = 0 then Inl Undefined_op
         else
           let n = ucast (BytesPerScanLine info) div h_res (vid s);
               n = (if mode = 0x110 then n + 1 else n);
               vram_base = PhysBasePtr info;
               vram_size = n * ucast (XResolution info) * ucast (YResolution info) :: u32;
               v = (vid s)\<lparr>bytes_per_pixel := n,
                           h_res := ucast (XResolution info),
                           v_res := ucast (YResolution info),
                           BlueMaskSize := info_BlueMaskSize info,
                           RedMaskSize := info_RedMaskSize info,
                           GreenMaskSize := info_GreenMaskSize info\<rparr>;
               (r, w) = sys_privctl_add_mem S vram_base (vram_base + vram_size) w
           in if r \<noteq> OK then Inl Panic
              else
                let (m, w) = vm_map_phys S vram_base vram_size w
                in case m of
                     None \<Rightarrow> Inl Panic
                   | Some (bs, k) \<Rightarrow>
                       Inr (snd (set_mode S mode
                              (s\<lparr>world := w, vid := v\<lparr>video_mem := bs, mapped := k\<rparr>\<rparr>))))"

text \<open>The loop variable \<open>i\<close> is an \<open>int\<close>: the abscissa does not wrap around at 16 bits.\<close>

definition lab5_vg_draw_hline :: "u16 \<Rightarrow> u16 \<Rightarrow> u16 \<Rightarrow> u32 \<Rightarrow> video_st \<Rightarrow> fault + video_st" where
  "lab5_vg_draw_hline x y len color v =
     for_n (unat len) (\<lambda>i v.
       let tmp = pix_off v (ucast x + of_nat i) (ucast y); n = unat (bytes_per_pixel v)
       in if n \<le> 4 \<and> accessible v tmp n
          then Inr (v\<lparr>video_mem := store_le color n tmp (video_mem v)\<rparr>)
          else Inl Bad_access) v"

definition lab5_vg_draw_rectangle ::
    "u16 \<Rightarrow> u16 \<Rightarrow> u16 \<Rightarrow> u16 \<Rightarrow> u32 \<Rightarrow> video_st \<Rightarrow> fault + video_st" where
  "lab5_vg_draw_rectangle x y wd ht color v =
     for_n (unat ht) (\<lambda>k. lab5_vg_draw_hline x (y + of_nat k) wd color) v"

text \<open>
  \<open>xpm_drawer\<close> loads the picture \<open>rato\<close> of \<open>rato_xpm.h\<close>, whatever picture it is called with; \<open>uninit\<close> is the
  content of the local image structure.
\<close>

definition xpm_drawer ::
    "'w sys \<Rightarrow> xpm_map \<Rightarrow> xpm_image \<Rightarrow> xpm_map \<Rightarrow> u16 \<Rightarrow> u16 \<Rightarrow> video_st \<Rightarrow> fault + video_st" where
  "xpm_drawer S rato uninit xpm x y v =
     (let img = xpm_load S rato XPM_8_8_8 uninit;
          v = v\<lparr>img_height := height img, img_width := width img\<rparr>
      in for_n (unat (height img)) (\<lambda>row.
           for_n (unat (width img)) (\<lambda>col v.
             let a = row * unat (width img) + col
             in if a < length (bytes img)
                then lab5_vg_draw_hline (x + of_nat col) (y + of_nat row) 1 (ucast (bytes img ! a)) v
                else Inl Bad_access)) v)"

text \<open>The locals of \<open>xpm_move\<close> that its loop changes.\<close>

record move_locals =
  move_xi :: u16
  move_yi :: u16
  prevX :: u16
  prevY :: u16

text \<open>Erase the picture at the previous place and draw it at the new one.\<close>

definition redraw ::
    "'w sys \<Rightarrow> xpm_map \<Rightarrow> xpm_image \<Rightarrow> xpm_map \<Rightarrow> move_locals \<Rightarrow> video_st \<Rightarrow> fault + video_st" where
  "redraw S rato uninit xpm l v =
     bind_res (lab5_vg_draw_rectangle (prevX l) (prevY l) (img_width v) (img_height v) 0 v)
       (xpm_drawer S rato uninit xpm (move_xi l) (move_yi l))"

definition set_vid ::
    "('w, 'z) prog_st_scheme \<Rightarrow> fault + video_st \<Rightarrow> fault + ('w, 'z) prog_st_scheme" where
  "set_vid s r = bind_res r (\<lambda>v. Inr (s\<lparr>vid := v\<rparr>))"

text \<open>
  One coordinate on a timer interrupt: the new value, and whether the target was reached.
\<close>

definition advance :: "u16 \<Rightarrow> u16 \<Rightarrow> u16 \<Rightarrow> u16 \<times> bool" where
  "advance p target speed =
     (if uint p + sint speed > uint target then (target, True) else (p + speed, False))"

definition xpm_move_ih ::
    "'w sys \<Rightarrow> xpm_map \<Rightarrow> xpm_image \<Rightarrow> xpm_map \<Rightarrow> u16 \<Rightarrow> u16 \<Rightarrow> u16 \<Rightarrow> int \<Rightarrow> bool \<Rightarrow> u8 \<Rightarrow> u8 \<Rightarrow>
     u64 \<Rightarrow> move_locals \<times> ('w, 'z) prog_st_scheme \<Rightarrow> fault + move_locals \<times> ('w, 'z) prog_st_scheme" where
  "xpm_move_ih S rato uninit xpm xf yf speed frames isHorizontal timerBIT kbcBIT ints ls =
     (let (l, s) = ls;
          keyboard = (\<lambda>(l, s). if raised ints kbcBIT then Inr (l, lab_kbc_ih S s) else Inr (l, s))
      in if raised ints timerBIT
         then
           let s = s\<lparr>totalInterrupts := totalInterrupts s + 1\<rparr>;
               (l, reached) =
                 (if isHorizontal
                  then let (p, reached) = advance (move_xi l) xf speed in (l\<lparr>move_xi := p\<rparr>, reached)
                  else let (p, reached) = advance (move_yi l) yf speed in (l\<lparr>move_yi := p\<rparr>, reached))
           in if reached
              then bind_res (set_vid s (redraw S rato uninit xpm l (vid s))) (\<lambda>s. Inr (l, s))
              else if frames = 0 then Inl Undefined_op
              else if sint (totalInterrupts s) mod frames = 0
              then bind_res (set_vid s (redraw S rato uninit xpm l (vid s)))
                     (\<lambda>s. keyboard (l\<lparr>prevX := move_xi l, prevY := move_yi l\<rparr>, s))
              else keyboard (l, s)
         else keyboard (l, s))"

definition xpm_move ::
    "'w sys \<Rightarrow> xpm_map \<Rightarrow> xpm_image \<Rightarrow> xpm_map \<Rightarrow> u16 \<Rightarrow> u16 \<Rightarrow> u16 \<Rightarrow> u16 \<Rightarrow> u16 \<Rightarrow> u8 \<Rightarrow>
     ('w, 'z) prog_st_scheme \<Rightarrow> (fault + int \<times> ('w, 'z) prog_st_scheme) option" where
  "xpm_move S rato uninit xpm xi yi xf yf speed fr_rate s =
     (if fr_rate = 0 then Some (Inl Undefined_op)
      else
        let frames = 60 div uint fr_rate;
            isHorizontal = (yi = yf);
            (timerBIT, _, s) = timer_subscribe_int S s;
            (kbcBIT, _, s) = keyboard_subscribe_int S s;
            l = \<lparr>move_xi = xi, move_yi = yi, prevX = xi, prevY = yi\<rparr>
        in then_res (Some (set_vid s (xpm_drawer S rato uninit xpm xi yi (vid s)))) (\<lambda>s.
             then_res
               (driver_loop S
                  (\<lambda>(l, s). continueLoop (move_xi l) xf (move_yi l) yf isHorizontal (scanCode s))
                  (xpm_move_ih S rato uninit xpm xf yf speed frames isHorizontal timerBIT kbcBIT) (l, s))
               (\<lambda>(l, s). let (_, s) = timer_unsubscribe_int S s;
                             (_, s) = keyboard_unsubscribe_int S s
                         in Some (Inr (0, s)))))"


section \<open>lab5.c\<close>

definition video_exit :: "'w sys \<Rightarrow> ('w, 'z) prog_st_scheme \<Rightarrow> int \<times> ('w, 'z) prog_st_scheme" where
  "video_exit S s = (let (_, w) = vg_exit S (world s) in (0, s\<lparr>world := w\<rparr>))"

definition video_test_init ::
    "'w sys \<Rightarrow> u16 \<Rightarrow> u8 \<Rightarrow> ('w, 'z) prog_st_scheme \<Rightarrow> int \<times> ('w, 'z) prog_st_scheme" where
  "video_test_init S mode secs s =
     (let (_, s) = set_mode S mode s;
          s = delay S (ucast secs * 1000000) s
      in video_exit S s)"

definition wait_ih ::
    "'w sys \<Rightarrow> u8 \<Rightarrow> u64 \<Rightarrow> unit \<times> ('w, 'z) kbc_st_scheme \<Rightarrow> fault + unit \<times> ('w, 'z) kbc_st_scheme" where
  "wait_ih S bit_no ints ls =
     (case ls of (_, s) \<Rightarrow> if raised ints bit_no then Inr ((), lab_kbc_ih S s) else Inr ((), s))"

definition wait_for_esc ::
    "'w sys \<Rightarrow> ('w, 'z) kbc_st_scheme \<Rightarrow> (fault + ('w, 'z) kbc_st_scheme) option" where
  "wait_for_esc S s =
     (let (bit_no, _, s) = keyboard_subscribe_int S s;
          s = s\<lparr>scanCode := 0\<rparr>
      in then_res (driver_loop S (\<lambda>(_, s). scanCode s \<noteq> ESC_BREAK_CODE) (wait_ih S bit_no) ((), s))
           (\<lambda>(_, s). let (_, s) = keyboard_unsubscribe_int S s in Some (Inr s)))"

definition video_test_rectangle ::
    "'w sys \<Rightarrow> u16 \<Rightarrow> u16 \<Rightarrow> u16 \<Rightarrow> u16 \<Rightarrow> u16 \<Rightarrow> u32 \<Rightarrow> ('w, 'z) prog_st_scheme \<Rightarrow>
     (fault + int \<times> ('w, 'z) prog_st_scheme) option" where
  "video_test_rectangle S mode x y wd ht color s =
     then_res (Some (lab5_new_vg_init S mode s)) (\<lambda>s.
     then_res (Some (set_vid s (lab5_vg_draw_rectangle x y wd ht color (vid s)))) (\<lambda>s.
     then_res (wait_for_esc S s) (\<lambda>s. Some (Inr (video_exit S s)))))"

record RGB_decomposition =
  RGB_R :: u8
  RGB_G :: u8
  RGB_B :: u8

text \<open>Shifts of a 32-bit value by a count that C computes as an \<open>int\<close>.\<close>

definition shl32 :: "u32 \<Rightarrow> int \<Rightarrow> fault + u32" where
  "shl32 x n = (if 0 \<le> n \<and> n < 32 then Inr (push_bit (nat n) x) else Inl Undefined_op)"

definition shr32 :: "u32 \<Rightarrow> int \<Rightarrow> fault + u32" where
  "shr32 x n = (if 0 \<le> n \<and> n < 32 then Inr (drop_bit (nat n) x) else Inl Undefined_op)"

definition get_color_components :: "u32 \<Rightarrow> video_st \<Rightarrow> fault + RGB_decomposition" where
  "get_color_components color v =
     (let redSize = get_red_mask_size v; greenSize = get_green_mask_size v;
          blueSize = get_blue_mask_size v;
          total8 = get_blue_mask_size v + get_green_mask_size v + get_red_mask_size v;
          r = uint redSize; g = uint greenSize; b = uint blueSize; t = uint total8
      in bind_res (bind_res (shl32 color (32 - t)) (\<lambda>x. shr32 x (32 - t + b + g))) (\<lambda>R.
         bind_res (bind_res (shl32 color (32 - t + r)) (\<lambda>x. shr32 x (32 - t + r + b))) (\<lambda>G.
         bind_res (bind_res (shl32 color (32 - t + r + g)) (\<lambda>x. shr32 x (32 - t + r + g))) (\<lambda>B.
           Inr \<lparr>RGB_R = ucast R, RGB_G = ucast G, RGB_B = ucast B\<rparr>))))"

definition get_color ::
    "u32 \<Rightarrow> u8 \<Rightarrow> u8 \<Rightarrow> u32 \<Rightarrow> u32 \<Rightarrow> bool \<Rightarrow> video_st \<Rightarrow> fault + u32" where
  "get_color first step no_rectangles row col isPacked v =
     (if isPacked
      then bind_res (shl32 1 (uint (lab5_get_bits_per_pixel v))) (\<lambda>m.
             Inr ((first + (row * ucast no_rectangles + col) * ucast step) mod m))
      else
        bind_res (get_color_components first v) (\<lambda>decomposition.
        bind_res (shl32 1 (uint (get_red_mask_size v))) (\<lambda>mr.
        bind_res (shl32 1 (uint (get_green_mask_size v))) (\<lambda>mg.
        bind_res (shl32 1 (uint (get_blue_mask_size v))) (\<lambda>mb.
          let R = ucast ((ucast (RGB_R decomposition) + col * ucast step) mod mr) :: u8;
              G = ucast ((ucast (RGB_G decomposition) + row * ucast step) mod mg) :: u8;
              B = ucast ((ucast (RGB_B decomposition) + (col + row) * ucast step) mod mb) :: u8
          in bind_res (shl32 (ucast R) (uint (get_blue_mask_size v) + uint (get_green_mask_size v))) (\<lambda>R.
             bind_res (shl32 (ucast G) (uint (get_blue_mask_size v))) (\<lambda>G.
               Inr (R OR G OR ucast B))))))))"

definition pattern_cell ::
    "u16 \<Rightarrow> u8 \<Rightarrow> u32 \<Rightarrow> u8 \<Rightarrow> u32 \<Rightarrow> u32 \<Rightarrow> nat \<Rightarrow> nat \<Rightarrow> video_st \<Rightarrow> fault + video_st" where
  "pattern_cell mode no_rectangles first step rw rh row col v =
     bind_res (get_color first step no_rectangles (of_nat row) (of_nat col) (mode = 0x105) v) (\<lambda>c.
       lab5_vg_draw_rectangle (ucast (of_nat col * rw)) (ucast (of_nat row * rh)) (ucast rw) (ucast rh) c v)"

definition video_test_pattern ::
    "'w sys \<Rightarrow> u16 \<Rightarrow> u8 \<Rightarrow> u32 \<Rightarrow> u8 \<Rightarrow> ('w, 'z) prog_st_scheme \<Rightarrow>
     (fault + int \<times> ('w, 'z) prog_st_scheme) option" where
  "video_test_pattern S mode no_rectangles first step s =
     then_res (Some (lab5_new_vg_init S mode s)) (\<lambda>s.
       if no_rectangles = 0 then Some (Inl Undefined_op)
       else
         let rw = get_h_res (vid s) div ucast no_rectangles;
             rh = get_v_res (vid s) div ucast no_rectangles;
             n = unat no_rectangles
         in then_res (Some (set_vid s
                (for_n n (\<lambda>row. for_n n (pattern_cell mode no_rectangles first step rw rh row)) (vid s)))) (\<lambda>s.
            then_res (wait_for_esc S s) (\<lambda>s. Some (Inr (video_exit S s)))))"

definition video_test_xpm ::
    "'w sys \<Rightarrow> xpm_map \<Rightarrow> xpm_image \<Rightarrow> xpm_map \<Rightarrow> u16 \<Rightarrow> u16 \<Rightarrow> ('w, 'z) prog_st_scheme \<Rightarrow>
     (fault + int \<times> ('w, 'z) prog_st_scheme) option" where
  "video_test_xpm S rato uninit xpm x y s =
     then_res (Some (lab5_new_vg_init S 0x105 s)) (\<lambda>s.
     then_res (Some (set_vid s (xpm_drawer S rato uninit xpm x y (vid s)))) (\<lambda>s.
     then_res (wait_for_esc S s) (\<lambda>s. Some (Inr (video_exit S s)))))"

definition video_test_move ::
    "'w sys \<Rightarrow> xpm_map \<Rightarrow> xpm_image \<Rightarrow> xpm_map \<Rightarrow> u16 \<Rightarrow> u16 \<Rightarrow> u16 \<Rightarrow> u16 \<Rightarrow> u16 \<Rightarrow> u8 \<Rightarrow>
     ('w, 'z) prog_st_scheme \<Rightarrow> (fault + int \<times> ('w, 'z) prog_st_scheme) option" where
  "video_test_move S rato uninit xpm xi yi xf yf speed fr_rate s =
     then_res (Some (lab5_new_vg_init S 0x105 s)) (\<lambda>s.
     then_res (xpm_move S rato uninit xpm xi yi xf yf speed fr_rate s) (\<lambda>(_, s).
       Some (Inr (video_exit S s))))"

definition video_test_controller :: int where
  "video_test_controller = 1"


section \<open>A fresh process\<close>

text \<open>
  In a fresh process, in which the static variable \<open>h_res\<close> still has its initial value 0, every test that maps
  the frame buffer ends with a division by zero, whatever its arguments and the graphics card: the
  scan line length is divided by the resolution before the resolution is set.
\<close>

lemma lab5_fresh_process_faults:
  assumes "h_res (vid s) = 0"
  shows "video_test_rectangle S mode x y wd ht color s = Some (Inl Undefined_op)
    \<and> video_test_pattern S mode no_rectangles first step s = Some (Inl Undefined_op)
    \<and> video_test_xpm S rato uninit xpm x y s = Some (Inl Undefined_op)
    \<and> video_test_move S rato uninit xpm x y xf yf speed fr_rate s = Some (Inl Undefined_op)"
proof -
  have "lab5_new_vg_init S mode s = Inl Undefined_op" for mode
    using assms by (simp add: lab5_new_vg_init_def split_beta)
  then show ?thesis
    by (simp add: video_test_rectangle_def video_test_pattern_def video_test_xpm_def video_test_move_def)
qed

lemma lab5_fresh_process_faults_witness:
  "video_test_rectangle idle_sys 0x115 1 1 4 4 7 (prog_demo (tiny_video\<lparr>h_res := 0\<rparr>)) = Some (Inl Undefined_op)"
  by (rule conjunct1 [OF lab5_fresh_process_faults]) (simp add: prog_demo_def)


section \<open>Lines and rectangles\<close>

text \<open>The two implementations of lines and rectangles agree where no abscissa leaves 16 bits.\<close>

lemma lab5_hline_eq:
  assumes "unat x + unat len \<le> 2 ^ 16"
  shows "lab5_vg_draw_hline x y len color v = vg_draw_hline x y len color v"
proof -
  have eq: "ucast (x + of_nat i) = (ucast x + of_nat i :: u32)" if "i < unat len" for i
  proof -
    have "unat (x + of_nat i) = unat x + i" using assms that by (intro unat_add_of_nat) simp
    moreover have "unat (ucast x + of_nat i :: u32) = unat x + i"
      using unat_add_of_nat [of "ucast x :: u32" i] assms that by (simp add: unat_ucast_up)
    ultimately show ?thesis by (simp add: word_unat_eq_iff unat_ucast_up)
  qed
  show ?thesis
    unfolding lab5_vg_draw_hline_def vg_draw_hline_def
    by (rule fun_cong [OF for_n_cong [OF refl]]) (simp only: vg_draw_pixel_def eq)
qed

lemma lab5_rectangle_eq:
  assumes "unat x + unat wd \<le> 2 ^ 16"
  shows "lab5_vg_draw_rectangle x y wd ht color v = for_n (unat ht) (\<lambda>k. vg_draw_hline x (y + of_nat k) wd color) v"
  unfolding lab5_vg_draw_rectangle_def by (simp add: lab5_hline_eq [OF assms])


section \<open>Colours of the test pattern\<close>

text \<open>A component of a colour: \<open>n\<close> bits from bit \<open>k\<close>.\<close>

definition component :: "nat \<Rightarrow> nat \<Rightarrow> u32 \<Rightarrow> nat" where
  "component k n c = unat (take_bit n (drop_bit k c))"

text \<open>The two shifts cut out \<open>n\<close> bits.\<close>

lemma shifts_cut:
  assumes "k + n + m = 32" and "0 < n"
  shows "bind_res (shl32 c (int m)) (\<lambda>x. shr32 x (int m + int k)) = Inr (take_bit n (drop_bit k c))"
proof -
  have "drop_bit (m + k) (push_bit m c) = take_bit n (drop_bit k c)"
    by (rule bit_word_eqI) (use assms in \<open>auto simp: bit_simps\<close>)
  then show ?thesis using assms by (simp add: shl32_def shr32_def nat_add_distrib flip: of_nat_add)
qed

definition rgb_sizes :: "video_st \<Rightarrow> nat \<Rightarrow> nat \<Rightarrow> nat \<Rightarrow> bool" where
  "rgb_sizes v r g b \<longleftrightarrow>
     unat (RedMaskSize v) = r \<and> unat (GreenMaskSize v) = g \<and> unat (BlueMaskSize v) = b
     \<and> 0 < r \<and> 0 < g \<and> 0 < b \<and> r \<le> 8 \<and> g \<le> 8 \<and> b \<le> 8"

lemma get_color_components_eq:
  assumes "rgb_sizes v r g b"
  shows "get_color_components c v = Inr \<lparr>RGB_R = ucast (take_bit r (drop_bit (b + g) c)),
    RGB_G = ucast (take_bit g (drop_bit b c)), RGB_B = ucast (take_bit b c)\<rparr>"
proof -
  have sizes: "uint (RedMaskSize v) = int r" "uint (GreenMaskSize v) = int g" "uint (BlueMaskSize v) = int b"
    using assms by (auto simp: rgb_sizes_def)
  have le: "r \<le> 8" "g \<le> 8" "b \<le> 8" "0 < r" "0 < g" "0 < b" using assms by (auto simp: rgb_sizes_def)
  have "unat (BlueMaskSize v + GreenMaskSize v + RedMaskSize v) = b + g + r"
    using assms by (simp add: rgb_sizes_def unat_add_no_wrap)
  then have t: "uint (BlueMaskSize v + GreenMaskSize v + RedMaskSize v) = int (b + g + r)"
    by (metis uint_nat)
  let ?m = "32 - (b + g + r)"
  have m: "32 - int (b + g + r) = int ?m" using le by simp
  have "bind_res (shl32 c (int ?m)) (\<lambda>x. shr32 x (int ?m + int b + int g)) = Inr (take_bit r (drop_bit (b + g) c))"
    using shifts_cut [of "b + g" r ?m c] le by (simp add: add.assoc)
  moreover have "bind_res (shl32 c (int ?m + int r)) (\<lambda>x. shr32 x (int ?m + int r + int b)) = Inr (take_bit g (drop_bit b c))"
    using shifts_cut [of b g "?m + r" c] le by (simp only: of_nat_add add.assoc)
  moreover have "bind_res (shl32 c (int ?m + int r + int g)) (\<lambda>x. shr32 x (int ?m + int r + int g)) = Inr (take_bit b c)"
    using shifts_cut [of 0 b "?m + r + g" c] le by (simp only: of_nat_add add.assoc) simp
  ultimately show ?thesis
    unfolding get_color_components_def get_red_mask_size_def get_green_mask_size_def
      get_blue_mask_size_def Let_def sizes t m
    by (simp only: bind_res_simps)
qed

lemma ucast_byte_take_bit: "n \<le> 8 \<Longrightarrow> ucast (ucast (take_bit n x) :: u8) = take_bit n (x :: u32)"
  by (rule bit_word_eqI) (auto simp: bit_simps)

lemma shl32_nat: "n < 32 \<Longrightarrow> shl32 x (int n) = Inr (push_bit n x)"
  by (simp add: shl32_def)

lemma unat_take_bit_sum:
  fixes x y z :: u32
  assumes "n \<le> 32"
  shows "unat (take_bit n (x + y * z)) = (unat x + unat y * unat z) mod 2 ^ n"
proof -
  let ?k = "unat x + unat y * unat z"
  have "x + y * z = of_nat ?k" by simp
  then have "unat (x + y * z) = ?k mod 2 ^ 32"
    by (simp only: unat_of_nat take_bit_eq_mod) simp
  moreover have "?k mod 2 ^ 32 mod 2 ^ n = ?k mod 2 ^ n"
    using assms by (intro mod_mod_cancel le_imp_power_dvd)
  moreover have "unat (take_bit n (x + y * z)) = unat (x + y * z) mod 2 ^ n"
    using unsigned_take_bit_eq [of n "x + y * z", where ?'a = nat] by (simp add: take_bit_eq_mod [of n "unat _"])
  ultimately show ?thesis by simp
qed

lemma pack_components:
  fixes X Y Z :: u32
  assumes "r + g + b \<le> 32"
  defines "c \<equiv> push_bit (b + g) (take_bit r X) OR (push_bit b (take_bit g Y) OR take_bit b Z)"
  shows "take_bit r (drop_bit (b + g) c) = take_bit r X" "take_bit g (drop_bit b c) = take_bit g Y"
    "take_bit b c = take_bit b Z"
  unfolding c_def by (rule bit_word_eqI; use assms(1) in \<open>auto simp: bit_simps\<close>)+

lemma get_color_eq:
  assumes "rgb_sizes v r g b"
  shows "get_color first step n row col False v = Inr (
    push_bit (b + g) (take_bit r (take_bit r (drop_bit (b + g) first) + col * ucast step))
    OR (push_bit b (take_bit g (take_bit g (drop_bit b first) + row * ucast step))
        OR take_bit b (take_bit b first + (col + row) * ucast step)))"
proof -
  have sizes: "uint (RedMaskSize v) = int r" "uint (GreenMaskSize v) = int g" "uint (BlueMaskSize v) = int b"
    using assms by (auto simp: rgb_sizes_def)
  have le: "r \<le> 8" "g \<le> 8" "b \<le> 8" using assms by (auto simp: rgb_sizes_def)
  show ?thesis
    using le
    by (simp add: get_color_def get_color_components_eq [OF assms] get_red_mask_size_def
        get_green_mask_size_def get_blue_mask_size_def sizes shl32_nat take_bit_eq_mod [symmetric]
        ucast_byte_take_bit Let_def or.assoc flip: of_nat_add)
qed

text \<open>
  The colours of the test pattern. In the direct modes each component of the colour of a rectangle is that of
  the first one plus \<open>step\<close> for every column, row, or column and row, modulo the component's range. In the
  indexed mode, however, the colour is always 0, because \<open>get_bits_per_pixel\<close> divides the number of bytes
  by 8 instead of multiplying it.
\<close>

lemma get_color_spec:
  assumes "rgb_sizes v r g b"
  shows "(\<exists>c. get_color first step n row col False v = Inr c
      \<and> component (b + g) r c = (component (b + g) r first + unat col * unat step) mod 2 ^ r
      \<and> component b g c = (component b g first + unat row * unat step) mod 2 ^ g
      \<and> component 0 b c = (component 0 b first + unat (col + row) * unat step) mod 2 ^ b)
    \<and> (unat (bytes_per_pixel v) < 8 \<longrightarrow> get_color first step n row col True v = Inr 0)"
proof -
  have le: "r \<le> 8" "g \<le> 8" "b \<le> 8" using assms by (auto simp: rgb_sizes_def)
  then have "r + g + b \<le> 32" by simp
  note pack = pack_components [OF this]
  have "get_color first step n row col True v = Inr 0" if "unat (bytes_per_pixel v) < 8"
  proof -
    have "unat (bytes_per_pixel v div 8) = 0" using that by (simp add: unat_div_distrib)
    then have "bytes_per_pixel v div 8 = 0" by (simp only: unat_eq_zero)
    then show ?thesis by (simp add: get_color_def lab5_get_bits_per_pixel_def shl32_def)
  qed
  moreover obtain c where c: "get_color first step n row col False v = Inr c"
      "take_bit r (drop_bit (b + g) c) = take_bit r (take_bit r (drop_bit (b + g) first) + col * ucast step)"
      "take_bit g (drop_bit b c) = take_bit g (take_bit g (drop_bit b first) + row * ucast step)"
      "take_bit b c = take_bit b (take_bit b first + (col + row) * ucast step)"
    using get_color_eq [OF assms, of first step n row col] pack by metis
  moreover have "component (b + g) r c = (component (b + g) r first + unat col * unat step) mod 2 ^ r"
    "component b g c = (component b g first + unat row * unat step) mod 2 ^ g"
    "component 0 b c = (component 0 b first + unat (col + row) * unat step) mod 2 ^ b"
    using le by (simp_all add: component_def c unat_take_bit_sum unat_ucast_up del: unsigned_take_bit_eq)
  ultimately show ?thesis by blast
qed

lemma get_color_spec_witness:
  "rgb_sizes tiny_video 8 8 8
   \<and> (\<exists>c. get_color 0x102030 200 4 1 2 False tiny_video = Inr c \<and> component 16 8 c = 160
      \<and> component 8 8 c = 232 \<and> component 0 8 c = 136)"
proof -
  have v: "rgb_sizes tiny_video 8 8 8" by (simp add: rgb_sizes_def tiny_video_def)
  with get_color_spec [OF v, of "0x102030" 200 4 1 2] show ?thesis
    by (auto simp: component_def take_bit_eq_mod drop_bit_eq_div)
qed

end
