(* ===== verification/Minix_Ipc.thy ===== *)
theory Minix_Ipc
  imports Sys_Interface
begin

text \<open>
  The macros and inline functions of the MINIX headers between the program and the kernel: the layout of
  endpoint numbers (\<open>minix/endpoint.h\<close>), the status word of a receive (\<open>minix/ipcconst.h\<close>, \<open>minix/com.h\<close>),
  the table of IPC primitives with the functions that call through it (\<open>minix/ipc.h\<close>) and the shorthands
  of \<open>minix/syslib.h\<close>. Shown: an endpoint number is a pair of generation and process slot, the status word a
  pair of call and flags, and the test at the head of every driver loop accepts the notifications of
  the slot \<open>HARDWARE\<close>, of every generation, and no other.
\<close>


section \<open>Endpoints\<close>

definition ENDPOINT_GENERATION_SHIFT :: nat where
  "ENDPOINT_GENERATION_SHIFT = 15"

definition INT_MAX :: int where
  [c_consts]: "INT_MAX = 2147483647"

definition ENDPOINT_MAX_GENERATION :: int where
  [c_consts]: "ENDPOINT_MAX_GENERATION = INT_MAX div ENDPOINT_GENERATION_SIZE - 1"

definition ENDPOINT_SLOT_TOP :: int where
  [c_consts]: "ENDPOINT_SLOT_TOP = ENDPOINT_GENERATION_SIZE - MAX_NR_TASKS"

definition ANY :: int where
  [c_consts]: "ANY = ENDPOINT_SLOT_TOP - 1"

definition NONE :: int where
  [c_consts]: "NONE = ENDPOINT_SLOT_TOP - 2"

definition SELF :: int where
  [c_consts]: "SELF = ENDPOINT_SLOT_TOP - 3"

definition MAX_NR_PROCS :: int where
  [c_consts]: "MAX_NR_PROCS = ENDPOINT_SLOT_TOP - 3"

definition ENDPOINT :: "int \<Rightarrow> int \<Rightarrow> int" where
  "ENDPOINT g p = push_bit ENDPOINT_GENERATION_SHIFT g + p"

definition ENDPOINT_G :: "int \<Rightarrow> int" where
  "ENDPOINT_G e = drop_bit ENDPOINT_GENERATION_SHIFT (e + MAX_NR_TASKS)"

lemma ENDPOINT_GENERATION_SIZE_shift: "ENDPOINT_GENERATION_SIZE = push_bit ENDPOINT_GENERATION_SHIFT 1"
  by (simp add: c_consts ENDPOINT_GENERATION_SHIFT_def push_bit_eq_mult)

text \<open>The macros in terms of quotient and remainder.\<close>

lemma ENDPOINT_arith:
  "ENDPOINT g p = 32768 * g + p"
  "ENDPOINT_G e = (e + 1023) div 32768"
  "ENDPOINT_P e = (e + 1023) mod 32768 - 1023"
proof -
  show "ENDPOINT g p = 32768 * g + p"
    by (simp add: ENDPOINT_def ENDPOINT_GENERATION_SHIFT_def push_bit_eq_mult)
  show "ENDPOINT_G e = (e + 1023) div 32768"
    by (simp add: ENDPOINT_G_def ENDPOINT_GENERATION_SHIFT_def drop_bit_eq_div c_consts)
  have "(e + 1023) AND mask 15 = (e + 1023) mod 32768"
    by (simp add: take_bit_eq_mod flip: take_bit_eq_mask)
  then show "ENDPOINT_P e = (e + 1023) mod 32768 - 1023"
    by (simp add: ENDPOINT_P_def c_consts mask_eq_exp_minus_1)
qed

text \<open>The generations and slots of the layout; the numbers of both, and the sums the macros form, are \<open>int\<close>s.\<close>

definition valid_slot :: "int \<Rightarrow> bool" where
  "valid_slot p \<longleftrightarrow> - MAX_NR_TASKS \<le> p \<and> p < ENDPOINT_SLOT_TOP"

definition valid_generation :: "int \<Rightarrow> bool" where
  "valid_generation g \<longleftrightarrow> 0 \<le> g \<and> g \<le> ENDPOINT_MAX_GENERATION"

lemma endpoint_parts:
  assumes "valid_slot p"
  shows "ENDPOINT_G (ENDPOINT g p) = g" and "ENDPOINT_P (ENDPOINT g p) = p"
proof -
  have p: "0 \<le> p + 1023" "p + 1023 < 32768" using assms by (simp_all add: valid_slot_def c_consts)
  have e: "32768 * g + p + 1023 = (p + 1023) + g * 32768" by simp
  show "ENDPOINT_G (ENDPOINT g p) = g"
    unfolding ENDPOINT_arith e using p by simp
  show "ENDPOINT_P (ENDPOINT g p) = p"
    unfolding ENDPOINT_arith e using p by simp
qed

lemma endpoint_range:
  assumes "valid_slot p" and "valid_generation g"
  shows "- MAX_NR_TASKS \<le> ENDPOINT g p" and "ENDPOINT g p + MAX_NR_TASKS \<le> INT_MAX"
  using assms by (simp_all add: valid_slot_def valid_generation_def ENDPOINT_arith c_consts)

lemma endpoint_whole: "ENDPOINT (ENDPOINT_G e) (ENDPOINT_P e) = e" "valid_slot (ENDPOINT_P e)"
proof -
  show "ENDPOINT (ENDPOINT_G e) (ENDPOINT_P e) = e"
    using mult_div_mod_eq [of 32768 "e + 1023"] unfolding ENDPOINT_arith by linarith
  show "valid_slot (ENDPOINT_P e)"
    using pos_mod_sign [of 32768 "e + 1023"] pos_mod_bound [of 32768 "e + 1023"]
    by (simp add: valid_slot_def ENDPOINT_arith c_consts)
qed


section \<open>The status of a receive\<close>

definition SEND :: int where [c_consts]: "SEND = 1"
definition RECEIVE :: int where [c_consts]: "RECEIVE = 2"
definition SENDREC :: int where [c_consts]: "SENDREC = 3"
definition NOTIFY :: int where [c_consts]: "NOTIFY = 4"
definition SENDNB :: int where [c_consts]: "SENDNB = 5"
definition MINIX_KERNINFO :: int where [c_consts]: "MINIX_KERNINFO = 6"
definition SENDA :: int where [c_consts]: "SENDA = 16"
definition IPCNO_HIGHEST :: int where [c_consts]: "IPCNO_HIGHEST = SENDA"
definition IPC_STATUS_CALL_SHIFT :: nat where "IPC_STATUS_CALL_SHIFT = 0"
definition IPC_STATUS_CALL_MASK :: int where "IPC_STATUS_CALL_MASK = 0x3F"

definition IPC_STATUS_CALL :: "int \<Rightarrow> int" where
  "IPC_STATUS_CALL status = drop_bit IPC_STATUS_CALL_SHIFT status AND IPC_STATUS_CALL_MASK"

definition IPC_STATUS_CALL_TO :: "int \<Rightarrow> int" where
  "IPC_STATUS_CALL_TO call = push_bit IPC_STATUS_CALL_SHIFT (call AND IPC_STATUS_CALL_MASK)"

definition IPC_FLG_MSG_FROM_KERNEL :: int where [c_consts]: "IPC_FLG_MSG_FROM_KERNEL = 1"
definition IPC_STATUS_FLAGS_SHIFT :: nat where "IPC_STATUS_FLAGS_SHIFT = 16"

definition IPC_STATUS_FLAGS :: "int \<Rightarrow> int" where
  "IPC_STATUS_FLAGS flgs = push_bit IPC_STATUS_FLAGS_SHIFT flgs"

definition IPC_STATUS_FLAGS_TEST :: "int \<Rightarrow> int \<Rightarrow> int" where
  "IPC_STATUS_FLAGS_TEST status flgs = drop_bit IPC_STATUS_FLAGS_SHIFT status AND flgs"

definition NOTIFY_MESSAGE :: int where [c_consts]: "NOTIFY_MESSAGE = 0x1000"

definition is_notify :: "u32 \<Rightarrow> bool" where
  "is_notify a \<longleftrightarrow> a - word_of_int NOTIFY_MESSAGE < 0x100"

definition is_ipc_asynch :: "int \<Rightarrow> bool" where
  "is_ipc_asynch ipc_status \<longleftrightarrow> is_ipc_notify ipc_status \<or> IPC_STATUS_CALL ipc_status = SENDA"

lemma is_ipc_notify_call: "is_ipc_notify status \<longleftrightarrow> IPC_STATUS_CALL status = NOTIFY"
  by (simp add: is_ipc_notify_def IPC_STATUS_CALL_def IPC_STATUS_CALL_SHIFT_def IPC_STATUS_CALL_MASK_def NOTIFY_def)

lemma is_notify_range: "is_notify a \<longleftrightarrow> 0x1000 \<le> a \<and> a < 0x1100"
proof -
  have "a - 0x1000 < 0x100 \<longleftrightarrow> 0x1000 \<le> a \<and> a < 0x1100"
    using unat_less [of a]
    by (cases "0x1000 \<le> a") (auto simp: word_less_nat_alt word_le_nat_alt unat_sub_if_size word_size)
  then show ?thesis by (simp add: is_notify_def NOTIFY_MESSAGE_def)
qed

text \<open>The call and the flags of a status word do not disturb each other.\<close>

lemma status_bits:
  "IPC_STATUS_CALL status = take_bit 6 status" "IPC_STATUS_CALL_TO call = take_bit 6 call"
  "IPC_STATUS_FLAGS flgs = push_bit 16 flgs" "IPC_STATUS_FLAGS_TEST status flgs = drop_bit 16 status AND flgs"
  by (simp_all add: IPC_STATUS_CALL_def IPC_STATUS_CALL_TO_def IPC_STATUS_FLAGS_def IPC_STATUS_FLAGS_TEST_def
      IPC_STATUS_CALL_SHIFT_def IPC_STATUS_FLAGS_SHIFT_def IPC_STATUS_CALL_MASK_def
      take_bit_eq_mask mask_eq_exp_minus_1)

lemma status_parts:
  "IPC_STATUS_CALL (IPC_STATUS_CALL_TO call OR IPC_STATUS_FLAGS flgs) = take_bit 6 call"
  "IPC_STATUS_FLAGS_TEST (IPC_STATUS_CALL_TO call OR IPC_STATUS_FLAGS flgs) m = flgs AND m"
  unfolding status_bits by (rule bit_eqI; auto simp: bit_simps)+


section \<open>The IPC primitives\<close>

text \<open>
  \<open>struct minix_ipcvecs\<close>, which the kernel fills: functions on the state \<open>'w\<close> of the machine. A pointer
  argument is the object it points to; an object that is written is a result.
\<close>

record ('w, 'm) minix_ipcvecs =
  vec_send :: "int \<Rightarrow> 'm \<Rightarrow> 'w \<Rightarrow> int \<times> 'w"
  vec_receive :: "int \<Rightarrow> 'm \<Rightarrow> int \<Rightarrow> 'w \<Rightarrow> int \<times> 'm \<times> int \<times> 'w"
  vec_sendrec :: "int \<Rightarrow> 'm \<Rightarrow> 'w \<Rightarrow> int \<times> 'm \<times> 'w"
  vec_sendnb :: "int \<Rightarrow> 'm \<Rightarrow> 'w \<Rightarrow> int \<times> 'w"
  vec_notify :: "int \<Rightarrow> 'w \<Rightarrow> int \<times> 'w"
  vec_do_kernel_call :: "'m \<Rightarrow> 'w \<Rightarrow> int \<times> 'm \<times> 'w"
  vec_senda :: "(u32 \<times> int \<times> int \<times> 'm) list \<Rightarrow> nat \<Rightarrow> 'w \<Rightarrow> int \<times> (u32 \<times> int \<times> int \<times> 'm) list \<times> 'w"

definition ipc_send :: "('w, 'm) minix_ipcvecs \<Rightarrow> int \<Rightarrow> 'm \<Rightarrow> 'w \<Rightarrow> int \<times> 'w" where
  "ipc_send vecs dest m = vec_send vecs dest m"

definition ipc_receive :: "('w, 'm) minix_ipcvecs \<Rightarrow> int \<Rightarrow> 'm \<Rightarrow> int \<Rightarrow> 'w \<Rightarrow> int \<times> 'm \<times> int \<times> 'w" where
  "ipc_receive vecs src m st = vec_receive vecs src m st"

definition ipc_sendrec :: "('w, 'm) minix_ipcvecs \<Rightarrow> int \<Rightarrow> 'm \<Rightarrow> 'w \<Rightarrow> int \<times> 'm \<times> 'w" where
  "ipc_sendrec vecs src_dest m = vec_sendrec vecs src_dest m"

definition ipc_sendnb :: "('w, 'm) minix_ipcvecs \<Rightarrow> int \<Rightarrow> 'm \<Rightarrow> 'w \<Rightarrow> int \<times> 'w" where
  "ipc_sendnb vecs dest m = vec_sendnb vecs dest m"

definition ipc_notify :: "('w, 'm) minix_ipcvecs \<Rightarrow> int \<Rightarrow> 'w \<Rightarrow> int \<times> 'w" where
  "ipc_notify vecs dest = vec_notify vecs dest"

definition do_kernel_call :: "('w, 'm) minix_ipcvecs \<Rightarrow> 'm \<Rightarrow> 'w \<Rightarrow> int \<times> 'm \<times> 'w" where
  "do_kernel_call vecs m = vec_do_kernel_call vecs m"

definition ipc_senda ::
    "('w, 'm) minix_ipcvecs \<Rightarrow> (u32 \<times> int \<times> int \<times> 'm) list \<Rightarrow> nat \<Rightarrow> 'w
       \<Rightarrow> int \<times> (u32 \<times> int \<times> int \<times> 'm) list \<times> 'w" where
  "ipc_senda vecs table count = vec_senda vecs table count"

text \<open>The flags of an entry of the table of \<open>senda\<close>.\<close>

definition AMF_EMPTY :: u32 where [c_consts]: "AMF_EMPTY = 0"
definition AMF_VALID :: u32 where [c_consts]: "AMF_VALID = 1"
definition AMF_DONE :: u32 where [c_consts]: "AMF_DONE = 2"
definition AMF_NOTIFY :: u32 where [c_consts]: "AMF_NOTIFY = 4"
definition AMF_NOREPLY :: u32 where [c_consts]: "AMF_NOREPLY = 8"
definition AMF_NOTIFY_ERR :: u32 where [c_consts]: "AMF_NOTIFY_ERR = 16"


section \<open>The shorthands of syslib.h\<close>

text \<open>
  \<open>sys_inb\<close>, \<open>sys_outb\<close> and the interrupt calls are macros for three functions of the system library,
  which the repository does not contain.
\<close>

definition DIO_BYTE :: int where [c_consts]: "DIO_BYTE = 0x010"
definition IRQ_SETPOLICY :: int where [c_consts]: "IRQ_SETPOLICY = 1"
definition IRQ_RMPOLICY :: int where [c_consts]: "IRQ_RMPOLICY = 2"
definition IRQ_ENABLE :: int where [c_consts]: "IRQ_ENABLE = 3"
definition IRQ_DISABLE :: int where [c_consts]: "IRQ_DISABLE = 4"

record 'w syslib =
  sys_in :: "int \<Rightarrow> int \<Rightarrow> 'w \<Rightarrow> int \<times> u32 \<times> 'w"
  sys_out :: "int \<Rightarrow> u32 \<Rightarrow> int \<Rightarrow> 'w \<Rightarrow> int \<times> 'w"
  sys_irqctl :: "int \<Rightarrow> int \<Rightarrow> int \<Rightarrow> int \<Rightarrow> 'w \<Rightarrow> int \<times> int \<times> 'w"

definition syslib_inb :: "'w syslib \<Rightarrow> int \<Rightarrow> 'w \<Rightarrow> int \<times> u32 \<times> 'w" where
  "syslib_inb L p = sys_in L p DIO_BYTE"

definition syslib_outb :: "'w syslib \<Rightarrow> int \<Rightarrow> u32 \<Rightarrow> 'w \<Rightarrow> int \<times> 'w" where
  "syslib_outb L p v = sys_out L p v DIO_BYTE"

definition syslib_irqdisable :: "'w syslib \<Rightarrow> int \<Rightarrow> 'w \<Rightarrow> int \<times> int \<times> 'w" where
  "syslib_irqdisable L hook_id = sys_irqctl L IRQ_DISABLE 0 0 hook_id"

definition syslib_irqenable :: "'w syslib \<Rightarrow> int \<Rightarrow> 'w \<Rightarrow> int \<times> int \<times> 'w" where
  "syslib_irqenable L hook_id = sys_irqctl L IRQ_ENABLE 0 0 hook_id"

definition syslib_irqsetpolicy :: "'w syslib \<Rightarrow> int \<Rightarrow> int \<Rightarrow> int \<Rightarrow> 'w \<Rightarrow> int \<times> int \<times> 'w" where
  "syslib_irqsetpolicy L irq_vec policy hook_id = sys_irqctl L IRQ_SETPOLICY irq_vec policy hook_id"

definition syslib_irqrmpolicy :: "'w syslib \<Rightarrow> int \<Rightarrow> 'w \<Rightarrow> int \<times> int \<times> 'w" where
  "syslib_irqrmpolicy L hook_id = sys_irqctl L IRQ_RMPOLICY 0 0 hook_id"

text \<open>The system calls of the model, with these six given by the macros.\<close>

definition with_syslib :: "'w syslib \<Rightarrow> 'w sys \<Rightarrow> 'w sys" where
  "with_syslib L S = S\<lparr>sys_inb := syslib_inb L, sys_outb := syslib_outb L,
     sys_irqsetpolicy := syslib_irqsetpolicy L, sys_irqrmpolicy := syslib_irqrmpolicy L,
     sys_irqenable := syslib_irqenable L, sys_irqdisable := syslib_irqdisable L\<rparr>"


section \<open>Properties\<close>

text \<open>
  C26. Endpoint numbers are pairs: for every generation and every process slot of the layout, negative task
  numbers included, the macros give back the generation and the slot they were built from, no sum
  they form leaves the range of \<open>int\<close>, and a number of generation 0 is its slot. Every number is built
  from its parts, so that no two pairs share one. \<open>ANY\<close>, \<open>NONE\<close> and \<open>SELF\<close> are different, of
  generation 0, and not among the process slots.
\<close>

theorem endpoint_roundtrip:
  assumes "valid_slot p" and "valid_generation g"
  shows "ENDPOINT_G (ENDPOINT g p) = g \<and> ENDPOINT_P (ENDPOINT g p) = p
    \<and> - MAX_NR_TASKS \<le> ENDPOINT g p \<and> ENDPOINT g p + MAX_NR_TASKS \<le> INT_MAX
    \<and> ENDPOINT 0 p = p
    \<and> ENDPOINT (ENDPOINT_G e) (ENDPOINT_P e) = e
    \<and> distinct [ANY, NONE, SELF]
    \<and> (\<forall>x \<in> {ANY, NONE, SELF}. ENDPOINT_G x = 0 \<and> MAX_NR_PROCS \<le> ENDPOINT_P x)"
proof -
  have "ENDPOINT 0 p = p" by (simp add: ENDPOINT_def)
  moreover have "distinct [ANY, NONE, SELF]" by (simp add: c_consts)
  moreover have "\<forall>x \<in> {ANY, NONE, SELF}. ENDPOINT_G x = 0 \<and> MAX_NR_PROCS \<le> ENDPOINT_P x"
    by (simp add: ENDPOINT_arith c_consts)
  ultimately show ?thesis
    using endpoint_parts [OF assms(1)] endpoint_range [OF assms] endpoint_whole(1) by blast
qed

theorem endpoint_roundtrip_witness:
  "ENDPOINT 3 HARDWARE = 98303 \<and> ENDPOINT_G (ENDPOINT 3 HARDWARE) = 3 \<and> ENDPOINT_P (ENDPOINT 3 HARDWARE) = HARDWARE"
proof -
  have "valid_slot HARDWARE" "valid_generation 3" by (simp_all add: valid_slot_def valid_generation_def c_consts)
  moreover have "ENDPOINT 3 HARDWARE = 98303" by (simp add: ENDPOINT_arith c_consts)
  ultimately show ?thesis using endpoint_roundtrip [of HARDWARE 3] by blast
qed

text \<open>
  C27. What the head of every driver loop lets through: a receive hands the interrupts of the message to
  the loop exactly when the call succeeded, the call number of the status word is \<open>NOTIFY\<close>, whatever
  flags the kernel has set with it, and the sender is the slot \<open>HARDWARE\<close> in some generation.
\<close>

theorem receive_hw_accepts:
  assumes "driver_receive S w = (r, msg, status, w')"
    and "status = IPC_STATUS_CALL_TO call OR IPC_STATUS_FLAGS flgs" and "0 \<le> call" and "call \<le> IPC_STATUS_CALL_MASK"
  shows "receive_hw S w =
    (if r = 0 \<and> call = NOTIFY \<and> (\<exists>g. m_source msg = ENDPOINT g HARDWARE) then Some (interrupts msg) else None, w')"
proof -
  have "take_bit 6 call = call"
    using assms(3,4) by (intro take_bit_int_eq_self) (simp_all add: IPC_STATUS_CALL_MASK_def)
  then have n: "is_ipc_notify status \<longleftrightarrow> call = NOTIFY"
    by (simp add: is_ipc_notify_call assms(2) status_parts(1))
  have "valid_slot HARDWARE" by (simp add: valid_slot_def c_consts)
  then have "ENDPOINT_P (m_source msg) = HARDWARE \<longleftrightarrow> (\<exists>g. m_source msg = ENDPOINT g HARDWARE)"
    using endpoint_parts(2) endpoint_whole(1) [of "m_source msg"] by metis
  with n show ?thesis by (simp add: receive_hw_def assms(1))
qed

theorem receive_hw_accepts_witness:
  "receive_hw (script_sys\<lparr>driver_receive := (\<lambda>w. (0, \<lparr>m_source = ENDPOINT 2 HARDWARE, interrupts = 3\<rparr>,
      IPC_STATUS_CALL_TO NOTIFY OR IPC_STATUS_FLAGS IPC_FLG_MSG_FROM_KERNEL, w))\<rparr>) (demo_script [] [] 0)
   = (Some 3, demo_script [] [] 0)"
proof -
  have "0 \<le> NOTIFY" "NOTIFY \<le> IPC_STATUS_CALL_MASK" by (simp_all add: NOTIFY_def IPC_STATUS_CALL_MASK_def)
  then show ?thesis
    using receive_hw_accepts [of "script_sys\<lparr>driver_receive := (\<lambda>w. (0, \<lparr>m_source = ENDPOINT 2 HARDWARE, interrupts = 3\<rparr>,
      IPC_STATUS_CALL_TO NOTIFY OR IPC_STATUS_FLAGS IPC_FLG_MSG_FROM_KERNEL, w))\<rparr>" "demo_script [] [] 0" 0
      "\<lparr>m_source = ENDPOINT 2 HARDWARE, interrupts = 3\<rparr>"] by auto
qed

end
