(* ===== verification/Irq_Ledger.thy ===== *)
theory Irq_Ledger
  imports Main_Loop Lab3 Lab4 Lab5 Minix_Ipc
begin

text \<open>
  Who holds which interrupt line. MINIX keeps, for every process, the interrupt policies it has set:
  \<open>sys_irqsetpolicy\<close> enters the line under a hook id or fails, \<open>sys_irqrmpolicy\<close> takes a hook id off, and no
  other call changes the entries. \<open>held\<close> reads these entries off the state of the world. Under
  this contract the theory shows what the program and the lab tests leave behind when they return, also
  when subscriptions fail: none of them looks at the result of a subscription.
\<close>


section \<open>The contract of the kernel\<close>

text \<open>
  A call of \<open>sys_irqsetpolicy\<close> that succeeds enters the line in a free slot; an exclusive one
  (\<open>IRQ_EXCLUSIVE\<close>, \<open>minix/com.h\<close>: it disables active handlers) may drop other entries of the same line, and take the slot of
  one. A call that fails changes nothing; what it stores as the hook id is not known.
\<close>

definition irq_entered :: "int \<Rightarrow> bool \<Rightarrow> (int \<rightharpoonup> int) \<Rightarrow> int \<Rightarrow> (int \<rightharpoonup> int) \<Rightarrow> bool" where
  "irq_entered irq excl H h H' \<longleftrightarrow>
     H' h = Some irq \<and> (H h = None \<or> excl \<and> H h = Some irq)
     \<and> (\<forall>x. x \<noteq> h \<longrightarrow> H' x = H x \<or> excl \<and> H x = Some irq \<and> H' x = None)"

definition irq_policies :: "'w sys \<Rightarrow> ('w \<Rightarrow> int \<rightharpoonup> int) \<Rightarrow> bool" where
  "irq_policies S held \<longleftrightarrow>
     (\<forall>irq policy h w. case sys_irqsetpolicy S irq policy h w of (r, h', w') \<Rightarrow>
        if r = OK then irq_entered irq (policy AND IRQ_EXCLUSIVE \<noteq> 0) (held w) h' (held w')
        else held w' = held w)
   \<and> (\<forall>h w. case sys_irqrmpolicy S h w of (r, h', w') \<Rightarrow> held w' = (held w)(h := None))"

definition irq_neutral :: "'w sys \<Rightarrow> ('w \<Rightarrow> int \<rightharpoonup> int) \<Rightarrow> bool" where
  "irq_neutral S held \<longleftrightarrow>
     (\<forall>p w. held (snd (snd (sys_inb S p w))) = held w)
   \<and> (\<forall>p v w. held (snd (sys_outb S p v w)) = held w)
   \<and> (\<forall>n w. held (tickdelay S n w) = held w)
   \<and> (\<forall>w. held (snd (snd (snd (driver_receive S w)))) = held w)
   \<and> (\<forall>r w. held (snd (sys_int86 S r w)) = held w)
   \<and> (\<forall>m w. held (snd (snd (vbe_get_mode_info S m w))) = held w)
   \<and> (\<forall>b l w. held (snd (sys_privctl_add_mem S b l w)) = held w)
   \<and> (\<forall>b n w. held (snd (vm_map_phys S b n w)) = held w)
   \<and> (\<forall>w. held (snd (vg_exit S w)) = held w)
   \<and> (\<forall>w. held (snd (mouse_enable_data_reporting S w)) = held w)
   \<and> (\<forall>m n b w. held (kbd_print_scancode S m n b w) = held w)
   \<and> (\<forall>n w. held (kbd_print_no_sysinb S n w) = held w)
   \<and> (\<forall>p w. held (mouse_print_packet S p w) = held w)
   \<and> (\<forall>w. held (timer_print_elapsed_time S w) = held w)"


text \<open>
  The interrupt calls are macros for \<open>sys_irqctl\<close>: the contract rests on what that function does for the two
  request numbers.
\<close>

definition irqctl_policies :: "'w syslib \<Rightarrow> ('w \<Rightarrow> int \<rightharpoonup> int) \<Rightarrow> bool" where
  "irqctl_policies L held \<longleftrightarrow>
     (\<forall>irq policy h w. case sys_irqctl L IRQ_SETPOLICY irq policy h w of (r, h', w') \<Rightarrow>
        if r = OK then irq_entered irq (policy AND IRQ_EXCLUSIVE \<noteq> 0) (held w) h' (held w')
        else held w' = held w)
   \<and> (\<forall>h w. case sys_irqctl L IRQ_RMPOLICY 0 0 h w of (r, h', w') \<Rightarrow> held w' = (held w)(h := None))"

lemma irqctl_policies_sys: "irqctl_policies L held = irq_policies (with_syslib L S) held"
  by (simp add: irqctl_policies_def irq_policies_def with_syslib_def syslib_irqsetpolicy_def syslib_irqrmpolicy_def)












lemma held_calls:
  assumes "irq_neutral S held"
  shows "held (inworld S p w) = held w" "held (snd (snd (sys_inb S p w))) = held w"
    "held (snd (sys_outb S p v w)) = held w"
    "held (tickdelay S n w) = held w" "held (snd (snd (snd (driver_receive S w)))) = held w"
    "held (snd (sys_int86 S r w)) = held w" "held (snd (snd (vbe_get_mode_info S m w))) = held w"
    "held (snd (sys_privctl_add_mem S b l w)) = held w" "held (snd (vm_map_phys S b l w)) = held w"
    "held (snd (vg_exit S w)) = held w" "held (snd (mouse_enable_data_reporting S w)) = held w"
    "held (kbd_print_scancode S mk sz bs w) = held w" "held (kbd_print_no_sysinb S n w) = held w"
    "held (mouse_print_packet S pk w) = held w" "held (timer_print_elapsed_time S w) = held w"
  using assms by (simp_all add: irq_neutral_def inworld_def)

lemma held_outs: "irq_neutral S held \<Longrightarrow> held (outs S pvs w) = held w"
proof -
  assume neutral: "irq_neutral S held"
  show ?thesis by (induction pvs arbitrary: w) (auto simp: held_calls(3) [OF neutral])
qed



section \<open>The main program\<close>

text \<open>The entries of the kernel and the variables in which the program keeps its hook ids.\<close>

definition irqs :: "('w \<Rightarrow> int \<rightharpoonup> int) \<Rightarrow> ('w, 'z) rtc_st_scheme \<Rightarrow> (int \<rightharpoonup> int) \<times> int list" where
  "irqs held s = (held (world s), [timer_hook_id s, hook_idKEYBOARD s, hook_idMOUSE s, rtc_hook_id s])"


lemma hooks_handlers [simp]:
  fixes s :: "('w, 'z) main_st_scheme"
  shows "timer_hook_id (kbc_ih S s) = timer_hook_id s" "hook_idKEYBOARD (kbc_ih S s) = hook_idKEYBOARD s"
    "hook_idMOUSE (kbc_ih S s) = hook_idMOUSE s" "rtc_hook_id (kbc_ih S s) = rtc_hook_id s"
    "timer_hook_id (mouse_ih S s) = timer_hook_id s" "hook_idKEYBOARD (mouse_ih S s) = hook_idKEYBOARD s"
    "hook_idMOUSE (mouse_ih S s) = hook_idMOUSE s" "rtc_hook_id (mouse_ih S s) = rtc_hook_id s"
  by (simp_all add: kbc_ih_eq kbc_read2_def mouse_ih_def util_sys_inb_eq Let_def)



lemma irqs_main [simp]:
  fixes s :: "('w, 'z) main_st_scheme"
  shows "irqs held (s\<lparr>vid := v\<rparr>) = irqs held s" "irqs held (s\<lparr>screenState := sc\<rparr>) = irqs held s"
    "irqs held (s\<lparr>printed := b\<rparr>) = irqs held s" "irqs held (s\<lparr>startGame := b\<rparr>) = irqs held s"
    "irqs held (s\<lparr>paused := b\<rparr>) = irqs held s" "irqs held (s\<lparr>saveGameScreen := m\<rparr>) = irqs held s"
    "irqs held (s\<lparr>counter := c\<rparr>) = irqs held s" "irqs held (s\<lparr>pp := p\<rparr>) = irqs held s"
    "irqs held (s\<lparr>imgs := i\<rparr>) = irqs held s" "irqs held (s\<lparr>hour := h\<rparr>) = irqs held s"
    "irqs held (s\<lparr>bit_no_timer := k\<rparr>) = irqs held s" "irqs held (s\<lparr>bit_no_keyboard := k\<rparr>) = irqs held s"
    "irqs held (s\<lparr>bit_no_mouse := k\<rparr>) = irqs held s" "irqs held (s\<lparr>bit_no_rtc := k\<rparr>) = irqs held s"
  by (simp_all add: irqs_def)


















section \<open>Taking and releasing the four lines\<close>



















section \<open>The loops of the labs\<close>



definition kbc_view :: "('w \<Rightarrow> int \<rightharpoonup> int) \<Rightarrow> ('w, 'z) kbc_st_scheme \<Rightarrow> (int \<rightharpoonup> int) \<times> int \<times> int" where
  "kbc_view held s = (held (world s), timer_hook_id s, hook_idKEYBOARD s)"

definition mouse_view :: "('w \<Rightarrow> int \<rightharpoonup> int) \<Rightarrow> ('w, 'z) mouse_st_scheme \<Rightarrow> (int \<rightharpoonup> int) \<times> int \<times> int" where
  "mouse_view held s = (held (world s), timer_hook_id s, hook_idMOUSE s)"




lemma kbc_view_simps [simp]:
  "kbc_view held (s\<lparr>totalInterrupts := k\<rparr>) = kbc_view held s"
  "kbc_view held (s\<lparr>scanCode := x\<rparr>) = kbc_view held s" "kbc_view held (s\<lparr>countSysInb := k\<rparr>) = kbc_view held s"
  by (simp_all add: kbc_view_def)



lemma mouse_view_simps [simp]:
  "mouse_view held (s\<lparr>totalInterrupts := k\<rparr>) = mouse_view held s"
  "mouse_view held (s\<lparr>byteFromMouse := x\<rparr>) = mouse_view held s"
  by (simp_all add: mouse_view_def)

























section \<open>Properties\<close>


















end
