(* ===== verification/Ipc_Layout.thy ===== *)
theory Ipc_Layout
  imports LC_Prelude
begin

text \<open>
  The layout of C structures on the machine the program runs on (the i386 ABI: scalars are aligned to
  their size, but to 4 bytes at most), as needed for the messages of \<open>minix/ipc.h\<close>: sizes, alignments and
  offsets are computed from a description of the type. Shown here: fields are aligned, do not
  overlap and lie inside the structure, whatever the structure.
\<close>

named_theorems layout \<open>the type names of the headers\<close>


section \<open>Types, sizes and offsets\<close>

datatype ctype =
    Sc nat
  | Arr nat ctype
  | Struct "(string \<times> ctype) list"
  | Union "(string \<times> ctype) list"
  | Aligned nat ctype
  | Packed "(string \<times> ctype) list"

type_synonym fields = "(string \<times> ctype) list"

definition round_up :: "nat \<Rightarrow> nat \<Rightarrow> nat" where
  "round_up n a = (n + a - 1) div a * a"

fun calign :: "ctype \<Rightarrow> nat" where
  "calign (Sc n) = max 1 (min n 4)"
| "calign (Arr k t) = calign t"
| "calign (Struct fs) = foldr (\<lambda>(f, t). max (calign t)) fs 1"
| "calign (Union fs) = foldr (\<lambda>(f, t). max (calign t)) fs 1"
| "calign (Aligned a t) = max a (calign t)"
| "calign (Packed fs) = 1"

fun csize :: "ctype \<Rightarrow> nat" where
  "csize (Sc n) = n"
| "csize (Arr k t) = k * csize t"
| "csize (Struct fs) =
     round_up (foldl (\<lambda>p (f, t). round_up p (calign t) + csize t) 0 fs) (calign (Struct fs))"
| "csize (Union fs) = round_up (foldr (\<lambda>(f, t). max (csize t)) fs 0) (calign (Union fs))"
| "csize (Aligned a t) = round_up (csize t) (max a (calign t))"
| "csize (Packed fs) = foldr (\<lambda>(f, t). (+) (csize t)) fs 0"

text \<open>The fields with their offsets, the first at or after \<open>p\<close>, and the end of the last one.\<close>

fun place :: "nat \<Rightarrow> fields \<Rightarrow> (string \<times> nat \<times> ctype) list" where
  "place p [] = []"
| "place p ((f, t) # fs) =
     (let q = round_up p (calign t) in (f, q, t) # place (q + csize t) fs)"

fun place_packed :: "nat \<Rightarrow> fields \<Rightarrow> (string \<times> nat \<times> ctype) list" where
  "place_packed p [] = []"
| "place_packed p ((f, t) # fs) = (f, p, t) # place_packed (p + csize t) fs"

definition field_end :: "nat \<Rightarrow> fields \<Rightarrow> nat" where
  "field_end p fs = foldl (\<lambda>p (f, t). round_up p (calign t) + csize t) p fs"

text \<open>The field of a name, and the offset and type of the object a member expression \<open>.f.g\<close> names.\<close>

fun find_field :: "string \<Rightarrow> (string \<times> nat \<times> ctype) list \<Rightarrow> (nat \<times> ctype) option" where
  "find_field f [] = None"
| "find_field f ((g, q, t) # fs) = (if f = g then Some (q, t) else find_field f fs)"

fun fields_of :: "ctype \<Rightarrow> (string \<times> nat \<times> ctype) list" where
  "fields_of (Struct fs) = place 0 fs"
| "fields_of (Union fs) = map (\<lambda>(f, t). (f, 0, t)) fs"
| "fields_of (Packed fs) = place_packed 0 fs"
| "fields_of (Aligned a t) = fields_of t"
| "fields_of (Sc n) = []"
| "fields_of (Arr k t) = []"

fun member :: "ctype \<Rightarrow> string list \<Rightarrow> (nat \<times> ctype) option" where
  "member t [] = Some (0, t)"
| "member t (f # p) = (case find_field f (fields_of t) of
       None \<Rightarrow> None
     | Some (q, u) \<Rightarrow> (case member u p of None \<Rightarrow> None | Some (r, v) \<Rightarrow> Some (q + r, v)))"


section \<open>Soundness of the layout\<close>

lemma calign_pos: "0 < calign t"
proof (induction t)
  case (Aligned a t)
  then show ?case by simp
next
  case (Struct fs)
  show ?case by (induction fs) (auto simp: max_def)
next
  case (Union fs)
  show ?case by (induction fs) (auto simp: max_def)
qed simp_all

lemma round_up_ge: "0 < a \<Longrightarrow> n \<le> round_up n a"
proof -
  assume a: "0 < a"
  have "(n + a - 1) div a * a + (n + a - 1) mod a = n + a - 1"
    by (rule div_mult_mod_eq)
  moreover have "(n + a - 1) mod a < a" using a by (rule mod_less_divisor)
  ultimately show ?thesis unfolding round_up_def using a by linarith
qed

lemma round_up_dvd: "a dvd round_up n a"
  by (simp add: round_up_def)

lemma field_end_simps [simp]:
  "field_end p [] = p"
  "field_end p ((f, t) # fs) = field_end (round_up p (calign t) + csize t) fs"
  by (simp_all add: field_end_def)

lemma field_end_ge: "p \<le> field_end p fs"
proof (induction fs arbitrary: p)
  case (Cons x fs)
  obtain f t where x: "x = (f, t)" by (cases x)
  have "p \<le> round_up p (calign t) + csize t"
    using round_up_ge [OF calign_pos, of p t] by simp
  also have "\<dots> \<le> field_end (round_up p (calign t) + csize t) fs"
    by (rule Cons.IH)
  finally show ?case by (simp add: x)
qed simp

lemma csize_Struct: "csize (Struct fs) = round_up (field_end 0 fs) (calign (Struct fs))"
  by (simp add: field_end_def)

text \<open>Every field is aligned, starts at or after \<open>p\<close> and ends before the end.\<close>

lemma place_bounds:
  "(f, q, t) \<in> set (place p fs) \<Longrightarrow> p \<le> q \<and> calign t dvd q \<and> q + csize t \<le> field_end p fs"
proof (induction p fs rule: place.induct)
  case (2 p g u fs)
  let ?q = "round_up p (calign u)"
  have ge: "p \<le> ?q" using calign_pos by (rule round_up_ge)
  from "2.prems" consider "q = ?q" "t = u" | "(f, q, t) \<in> set (place (?q + csize u) fs)"
    by (auto simp: Let_def)
  then show ?case
  proof cases
    case 1
    then show ?thesis using ge field_end_ge [of "?q + csize u" fs] by (simp add: round_up_dvd)
  next
    case 2
    with "2.IH" [OF refl] show ?thesis using ge by auto
  qed
qed simp

lemma place_ordered:
  "sorted_wrt (\<lambda>(f, q, t) (g, r, u). q + csize t \<le> r) (place p fs)"
proof (induction p fs rule: place.induct)
  case (2 p f t fs)
  let ?q = "round_up p (calign t)"
  have "?q + csize t \<le> r" if "(g, r, u) \<in> set (place (?q + csize t) fs)" for g r u
    using place_bounds [OF that] by simp
  with 2 show ?case by (auto simp: Let_def)
qed simp

lemma place_packed_bounds:
  "(f, q, t) \<in> set (place_packed p fs) \<Longrightarrow> p \<le> q \<and> q + csize t \<le> p + csize (Packed fs)"
proof (induction p fs rule: place_packed.induct)
  case (2 p g u fs)
  from "2.prems" consider "q = p" "t = u" | "(f, q, t) \<in> set (place_packed (p + csize u) fs)"
    by auto
  then show ?case using "2.IH" by cases auto
qed simp

lemma find_field_mem: "find_field f ps = Some (q, t) \<Longrightarrow> (f, q, t) \<in> set ps"
  by (induction f ps rule: find_field.induct) (auto split: if_splits)

lemma csize_member_le:
  "(f, t) \<in> set fs \<Longrightarrow> csize t \<le> foldr (\<lambda>(f, t). max (csize t)) fs 0"
  by (induction fs) auto

text \<open>A field lies inside the object it is a field of; so does what a member expression names.\<close>

lemma fields_of_inside: "(f, q, t) \<in> set (fields_of u) \<Longrightarrow> q + csize t \<le> csize u"
proof (induction u rule: fields_of.induct)
  case (1 fs)
  then have "q + csize t \<le> field_end 0 fs" using place_bounds by fastforce
  also have "\<dots> \<le> csize (Struct fs)" unfolding csize_Struct by (rule round_up_ge [OF calign_pos])
  finally show ?case .
next
  case (2 fs)
  then have "csize t \<le> foldr (\<lambda>(f, t). max (csize t)) fs 0" "q = 0"
    using csize_member_le by fastforce+
  then show ?case
    using round_up_ge [OF calign_pos [of "Union fs"], of "foldr (\<lambda>(f, t). max (csize t)) fs 0"] by simp
next
  case (3 fs)
  then show ?case using place_packed_bounds [of f q t 0 fs] by simp
next
  case (4 a v)
  have "csize v \<le> csize (Aligned a v)"
    using round_up_ge [of "max a (calign v)" "csize v"] calign_pos [of v] by simp
  with 4 show ?case by fastforce
qed simp_all

lemma member_inside: "member t p = Some (q, u) \<Longrightarrow> q + csize u \<le> csize t"
proof (induction t p arbitrary: q u rule: member.induct)
  case (2 t f p)
  from "2.prems" obtain q' t' r where f: "find_field f (fields_of t) = Some (q', t')"
    and m: "member t' p = Some (r, u)" and q: "q = q' + r"
    by (auto split: option.splits)
  have "r + csize u \<le> csize t'" using "2.IH" [OF f refl m] .
  moreover have "q' + csize t' \<le> csize t" using f [THEN find_field_mem] by (rule fields_of_inside)
  ultimately show ?case by (simp add: q)
qed simp

end
