(* ===== verification/Ipc_Messages.thy ===== *)
theory Ipc_Messages
  imports Ipc_Layout
begin

text \<open>
  The messages of \<open>minix/ipc.h\<close>, field by field, with the type names of the headers they are made
  of. The driver loops of the program receive them (\<open>driver_receive\<close>) and read the sender and, in a
  notification, the raised interrupts. The header asserts at compile time that every payload has 56
  bytes and the whole message 64; here this is proved for the layout of the i386 ABI, and with it where
  the fields are that the program reads.
\<close>


section \<open>Type names\<close>

definition c_char :: ctype where
  [layout]: "c_char = Sc 1"

definition c_short :: ctype where
  [layout]: "c_short = Sc 2"

definition c_int :: ctype where
  [layout]: "c_int = Sc 4"

definition c_unsigned :: ctype where
  [layout]: "c_unsigned = Sc 4"

definition c_long :: ctype where
  [layout]: "c_long = Sc 4"

definition c_unsigned_long :: ctype where
  [layout]: "c_unsigned_long = Sc 4"

definition c_ptr :: ctype where
  [layout]: "c_ptr = Sc 4"

definition uint8_t :: ctype where
  [layout]: "uint8_t = Sc 1"

definition uint16_t :: ctype where
  [layout]: "uint16_t = Sc 2"

definition int32_t :: ctype where
  [layout]: "int32_t = Sc 4"

definition uint32_t :: ctype where
  [layout]: "uint32_t = Sc 4"

definition int64_t :: ctype where
  [layout]: "int64_t = Sc 8"

definition uint64_t :: ctype where
  [layout]: "uint64_t = Sc 8"

definition u8_t :: ctype where
  [layout]: "u8_t = uint8_t"

definition u16_t :: ctype where
  [layout]: "u16_t = uint16_t"

definition u32_t :: ctype where
  [layout]: "u32_t = uint32_t"

definition u64_t :: ctype where
  [layout]: "u64_t = uint64_t"

definition dev_t :: ctype where
  [layout]: "dev_t = uint64_t"

definition gid_t :: ctype where
  [layout]: "gid_t = uint32_t"

definition ino_t :: ctype where
  [layout]: "ino_t = uint64_t"

definition key_t :: ctype where
  [layout]: "key_t = c_long"

definition mode_t :: ctype where
  [layout]: "mode_t = uint32_t"

definition off_t :: ctype where
  [layout]: "off_t = int64_t"

definition pid_t :: ctype where
  [layout]: "pid_t = int32_t"

definition uid_t :: ctype where
  [layout]: "uid_t = uint32_t"

definition devmajor_t :: ctype where
  [layout]: "devmajor_t = int32_t"

definition devminor_t :: ctype where
  [layout]: "devminor_t = int32_t"

definition clock_t :: ctype where
  [layout]: "clock_t = c_unsigned"

definition size_t :: ctype where
  [layout]: "size_t = c_unsigned"

definition ssize_t :: ctype where
  [layout]: "ssize_t = c_int"

definition time_t :: ctype where
  [layout]: "time_t = int64_t"

definition clockid_t :: ctype where
  [layout]: "clockid_t = c_int"

definition phys_bytes :: ctype where
  [layout]: "phys_bytes = c_unsigned_long"

definition endpoint_t :: ctype where
  [layout]: "endpoint_t = c_int"

definition cp_grant_id_t :: ctype where
  [layout]: "cp_grant_id_t = int32_t"

definition vir_bytes :: ctype where
  [layout]: "vir_bytes = c_unsigned_long"

definition sigset_t :: ctype where
  [layout]: "sigset_t = Struct [(''__bits'', Arr 4 uint32_t)]"

definition fd_set :: ctype where
  [layout]: "fd_set = Struct [(''fds_bits'', Arr ((255 + (32 - 1)) div 32) uint32_t)]"

definition ds_val :: ctype where
  [layout]: "ds_val = Union [(''grant'', cp_grant_id_t), (''u32'', u32_t), (''ep'', endpoint_t)]"

definition M_PATH_STRING_MAX :: nat where
  [layout]: "M_PATH_STRING_MAX = 40"

definition CTL_SHORTNAME :: nat where
  [layout]: "CTL_SHORTNAME = 8"

definition NR_DOMAIN :: nat where
  [layout]: "NR_DOMAIN = 8"

definition NDEV_NAME_MAX :: nat where
  [layout]: "NDEV_NAME_MAX = 16"

definition NDEV_HWADDR_MAX :: nat where
  [layout]: "NDEV_HWADDR_MAX = 6"

definition NDEV_IOV_MAX :: nat where
  [layout]: "NDEV_IOV_MAX = 8"


section \<open>Payloads\<close>

definition mess_u8 :: fields where
  "mess_u8 =
    [(''data'', Arr 56 uint8_t)]"

definition mess_u16 :: fields where
  "mess_u16 =
    [(''data'', Arr 28 uint16_t)]"

definition mess_u32 :: fields where
  "mess_u32 =
    [(''data'', Arr 14 uint32_t)]"

definition mess_u64 :: fields where
  "mess_u64 =
    [(''data'', Arr 7 uint64_t)]"

definition mess_1 :: fields where
  "mess_1 =
    [(''m1ull1'', uint64_t), (''m1i1'', c_int), (''m1i2'', c_int), (''m1i3'', c_int),
     (''m1p1'', c_ptr), (''m1p2'', c_ptr), (''m1p3'', c_ptr), (''m1p4'', c_ptr),
     (''padding'', Arr 20 uint8_t)]"

definition mess_2 :: fields where
  "mess_2 =
    [(''m2ll1'', int64_t), (''m2i1'', c_int), (''m2i2'', c_int), (''m2i3'', c_int),
     (''m2l1'', c_long), (''m2l2'', c_long), (''m2p1'', c_ptr), (''sigset'', sigset_t),
     (''m2s1'', c_short), (''padding'', Arr 6 uint8_t)]"

definition mess_3 :: fields where
  "mess_3 =
    [(''m3i1'', c_int), (''m3i2'', c_int), (''m3p1'', c_ptr), (''m3ca1'', Arr 44 c_char)]"

definition mess_4 :: fields where
  "mess_4 =
    [(''m4ll1'', int64_t), (''m4l1'', c_long), (''m4l2'', c_long), (''m4l3'', c_long),
     (''m4l4'', c_long), (''m4l5'', c_long), (''padding'', Arr 28 uint8_t)]"

definition mess_7 :: fields where
  "mess_7 =
    [(''m7i1'', c_int), (''m7i2'', c_int), (''m7i3'', c_int), (''m7i4'', c_int),
     (''m7i5'', c_int), (''m7p1'', c_ptr), (''m7p2'', c_ptr), (''padding'', Arr 28 uint8_t)]"

definition mess_9 :: fields where
  "mess_9 =
    [(''m9ull1'', uint64_t), (''m9ull2'', uint64_t), (''m9l1'', c_long), (''m9l2'', c_long),
     (''m9l3'', c_long), (''m9l4'', c_long), (''m9l5'', c_long), (''m9s1'', c_short),
     (''m9s2'', c_short), (''m9s3'', c_short), (''m9s4'', c_short), (''padding'', Arr 12 uint8_t)]"

definition mess_10 :: fields where
  "mess_10 =
    [(''m10ull1'', u64_t), (''m10i1'', c_int), (''m10i2'', c_int), (''m10i3'', c_int),
     (''m10i4'', c_int), (''m10l1'', c_long), (''m10l2'', c_long), (''m10l3'', c_long),
     (''padding'', Arr 20 uint8_t)]"

definition mess_ds_reply :: fields where
  "mess_ds_reply =
    [(''val_out'', ds_val), (''val_len'', c_int), (''padding'', Arr 48 uint8_t)]"

definition mess_ds_req :: fields where
  "mess_ds_req =
    [(''key_grant'', cp_grant_id_t), (''key_len'', c_int), (''flags'', c_int),
     (''val_in'', ds_val), (''val_len'', c_int), (''owner'', endpoint_t),
     (''padding'', Arr 32 uint8_t)]"

definition mess_fs_vfs_breadwrite :: fields where
  "mess_fs_vfs_breadwrite =
    [(''seek_pos'', off_t), (''nbytes'', size_t), (''data'', Arr 44 uint8_t)]"

definition mess_fs_vfs_chmod :: fields where
  "mess_fs_vfs_chmod =
    [(''mode'', mode_t), (''data'', Arr 52 uint8_t)]"

definition mess_fs_vfs_chown :: fields where
  "mess_fs_vfs_chown =
    [(''mode'', mode_t), (''data'', Arr 52 uint8_t)]"

definition mess_fs_vfs_create :: fields where
  "mess_fs_vfs_create =
    [(''file_size'', off_t), (''inode'', ino_t), (''mode'', mode_t), (''uid'', uid_t),
     (''gid'', gid_t), (''data'', Arr 28 uint8_t)]"

definition mess_fs_vfs_getdents :: fields where
  "mess_fs_vfs_getdents =
    [(''seek_pos'', off_t), (''nbytes'', size_t), (''data'', Arr 44 uint8_t)]"

definition mess_fs_vfs_lookup :: fields where
  "mess_fs_vfs_lookup =
    [(''offset'', off_t), (''file_size'', off_t), (''device'', dev_t), (''inode'', ino_t),
     (''mode'', mode_t), (''uid'', uid_t), (''gid'', gid_t), (''symloop'', uint16_t),
     (''data'', Arr 10 uint8_t)]"

definition mess_fs_vfs_newnode :: fields where
  "mess_fs_vfs_newnode =
    [(''file_size'', off_t), (''device'', dev_t), (''inode'', ino_t), (''mode'', mode_t),
     (''uid'', uid_t), (''gid'', gid_t), (''data'', Arr 20 uint8_t)]"

definition mess_fs_vfs_rdlink :: fields where
  "mess_fs_vfs_rdlink =
    [(''nbytes'', size_t), (''data'', Arr 52 uint8_t)]"

definition mess_fs_vfs_readsuper :: fields where
  "mess_fs_vfs_readsuper =
    [(''file_size'', off_t), (''device'', dev_t), (''inode'', ino_t), (''flags'', uint32_t),
     (''mode'', mode_t), (''uid'', uid_t), (''gid'', gid_t), (''con_reqs'', uint16_t),
     (''data'', Arr 14 uint8_t)]"

definition mess_fs_vfs_readwrite :: fields where
  "mess_fs_vfs_readwrite =
    [(''seek_pos'', off_t), (''nbytes'', size_t), (''data'', Arr 44 uint8_t)]"

definition mess_i2c_li2cdriver_busc_i2c_exec :: fields where
  "mess_i2c_li2cdriver_busc_i2c_exec =
    [(''padding'', Arr 56 uint8_t)]"

definition mess_i2c_li2cdriver_busc_i2c_reserve :: fields where
  "mess_i2c_li2cdriver_busc_i2c_reserve =
    [(''padding'', Arr 56 uint8_t)]"

definition mess_input_linputdriver_input_conf :: fields where
  "mess_input_linputdriver_input_conf =
    [(''kbd_id'', c_int), (''mouse_id'', c_int), (''rsvd1_id'', c_int), (''rsvd2_id'', c_int),
     (''padding'', Arr 40 uint8_t)]"

definition mess_input_linputdriver_setleds :: fields where
  "mess_input_linputdriver_setleds =
    [(''led_mask'', uint32_t), (''padding'', Arr 52 uint8_t)]"

definition mess_input_tty_event :: fields where
  "mess_input_tty_event =
    [(''id'', c_int), (''page'', c_int), (''code'', c_int), (''value'', c_int),
     (''flags'', c_int), (''padding'', Arr 36 uint8_t)]"

definition mess_krn_lsys_schedule :: fields where
  "mess_krn_lsys_schedule =
    [(''acnt_queue'', time_t), (''acnt_deqs'', c_unsigned_long),
     (''acnt_ipc_sync'', c_unsigned_long), (''acnt_ipc_async'', c_unsigned_long),
     (''acnt_preempt'', c_unsigned_long), (''acnt_cpu'', uint32_t),
     (''acnt_cpu_load'', uint32_t), (''padding'', Arr 24 uint8_t)]"

definition mess_krn_lsys_sys_devio :: fields where
  "mess_krn_lsys_sys_devio =
    [(''value'', uint32_t), (''padding'', Arr 52 uint8_t)]"

definition mess_krn_lsys_sys_fork :: fields where
  "mess_krn_lsys_sys_fork =
    [(''endpt'', endpoint_t), (''msgaddr'', vir_bytes), (''padding'', Arr 48 uint8_t)]"

definition mess_krn_lsys_sys_getwhoami :: fields where
  "mess_krn_lsys_sys_getwhoami =
    [(''endpt'', endpoint_t), (''privflags'', c_int), (''initflags'', c_int),
     (''name'', Arr 44 c_char)]"

definition mess_krn_lsys_sys_irqctl :: fields where
  "mess_krn_lsys_sys_irqctl =
    [(''hook_id'', c_int), (''padding'', Arr 52 uint8_t)]"

definition mess_krn_lsys_sys_times :: fields where
  "mess_krn_lsys_sys_times =
    [(''real_ticks'', clock_t), (''boot_ticks'', clock_t), (''user_time'', clock_t),
     (''system_time'', clock_t), (''boot_time'', time_t), (''padding'', Arr 32 uint8_t)]"

definition mess_krn_lsys_sys_trace :: fields where
  "mess_krn_lsys_sys_trace =
    [(''data'', c_long), (''padding'', Arr 52 uint8_t)]"

definition mess_krn_lsys_sys_umap :: fields where
  "mess_krn_lsys_sys_umap =
    [(''dst_addr'', phys_bytes), (''padding'', Arr 52 uint8_t)]"

definition mess_krn_lsys_sys_vumap :: fields where
  "mess_krn_lsys_sys_vumap =
    [(''pcount'', c_int), (''padding'', Arr 52 uint8_t)]"

definition mess_lbdev_lblockdriver_msg :: fields where
  "mess_lbdev_lblockdriver_msg =
    [(''pos'', off_t), (''minor'', c_int), (''id'', c_int), (''access'', c_int),
     (''count'', c_int), (''grant'', cp_grant_id_t), (''flags'', c_int), (''user'', endpoint_t),
     (''request'', c_unsigned_long), (''padding'', Arr 16 uint8_t)]"

definition mess_lblockdriver_lbdev_reply :: fields where
  "mess_lblockdriver_lbdev_reply =
    [(''status'', c_int), (''id'', c_int), (''padding'', Arr 48 uint8_t)]"

definition mess_lc_ipc_semctl :: fields where
  "mess_lc_ipc_semctl =
    [(''id'', c_int), (''num'', c_int), (''cmd'', c_int), (''opt'', vir_bytes), (''ret'', c_int),
     (''padding'', Arr 36 uint8_t)]"

definition mess_lc_ipc_semget :: fields where
  "mess_lc_ipc_semget =
    [(''key'', key_t), (''nr'', c_int), (''flag'', c_int), (''retid'', c_int),
     (''padding'', Arr 40 uint8_t)]"

definition mess_lc_ipc_semop :: fields where
  "mess_lc_ipc_semop =
    [(''id'', c_int), (''ops'', c_ptr), (''size'', c_unsigned), (''padding'', Arr 42 uint8_t)]"

definition mess_lc_ipc_shmat :: fields where
  "mess_lc_ipc_shmat =
    [(''id'', c_int), (''addr'', c_ptr), (''flag'', c_int), (''retaddr'', c_ptr),
     (''padding'', Arr 40 uint8_t)]"

definition mess_lc_ipc_shmctl :: fields where
  "mess_lc_ipc_shmctl =
    [(''id'', c_int), (''cmd'', c_int), (''buf'', c_ptr), (''ret'', c_int),
     (''padding'', Arr 40 uint8_t)]"

definition mess_lc_ipc_shmdt :: fields where
  "mess_lc_ipc_shmdt =
    [(''addr'', c_ptr), (''padding'', Arr 52 uint8_t)]"

definition mess_lc_ipc_shmget :: fields where
  "mess_lc_ipc_shmget =
    [(''key'', key_t), (''size'', size_t), (''flag'', c_int), (''retid'', c_int),
     (''padding'', Arr 40 uint8_t)]"

definition mess_lc_mib_sysctl :: fields where
  "mess_lc_mib_sysctl =
    [(''oldp'', vir_bytes), (''oldlen'', size_t), (''newp'', vir_bytes), (''newlen'', size_t),
     (''namelen'', c_unsigned), (''namep'', vir_bytes), (''name'', Arr CTL_SHORTNAME c_int)]"

definition mess_lc_pm_exec :: fields where
  "mess_lc_pm_exec =
    [(''name'', vir_bytes), (''namelen'', size_t), (''frame'', vir_bytes),
     (''framelen'', size_t), (''ps_str'', vir_bytes), (''padding'', Arr 36 uint8_t)]"

definition mess_lc_pm_exit :: fields where
  "mess_lc_pm_exit =
    [(''status'', c_int), (''padding'', Arr 52 uint8_t)]"

definition mess_lc_pm_getsid :: fields where
  "mess_lc_pm_getsid =
    [(''pid'', pid_t), (''padding'', Arr 52 uint8_t)]"

definition mess_lc_pm_groups :: fields where
  "mess_lc_pm_groups =
    [(''num'', c_int), (''ptr'', vir_bytes), (''padding'', Arr 48 uint8_t)]"

definition mess_lc_pm_itimer :: fields where
  "mess_lc_pm_itimer =
    [(''which'', c_int), (''value'', vir_bytes), (''ovalue'', vir_bytes),
     (''padding'', Arr 44 uint8_t)]"

definition mess_lc_pm_mcontext :: fields where
  "mess_lc_pm_mcontext =
    [(''ctx'', vir_bytes), (''padding'', Arr 52 uint8_t)]"

definition mess_lc_pm_priority :: fields where
  "mess_lc_pm_priority =
    [(''which'', c_int), (''who'', c_int), (''prio'', c_int), (''padding'', Arr 44 uint8_t)]"

definition mess_lc_pm_ptrace :: fields where
  "mess_lc_pm_ptrace =
    [(''pid'', pid_t), (''req'', c_int), (''addr'', vir_bytes), (''data'', c_long),
     (''padding'', Arr 40 uint8_t)]"

definition mess_lc_pm_reboot :: fields where
  "mess_lc_pm_reboot =
    [(''how'', c_int), (''padding'', Arr 52 uint8_t)]"

definition mess_lc_pm_rusage :: fields where
  "mess_lc_pm_rusage =
    [(''who'', endpoint_t), (''addr'', vir_bytes), (''padding'', Arr 48 uint8_t)]"

definition mess_lc_pm_setgid :: fields where
  "mess_lc_pm_setgid =
    [(''gid'', gid_t), (''padding'', Arr 52 uint8_t)]"

definition mess_lc_pm_setuid :: fields where
  "mess_lc_pm_setuid =
    [(''uid'', uid_t), (''padding'', Arr 52 uint8_t)]"

definition mess_lc_pm_sig :: fields where
  "mess_lc_pm_sig =
    [(''pid'', pid_t), (''nr'', c_int), (''act'', vir_bytes), (''oact'', vir_bytes),
     (''ret'', vir_bytes), (''padding'', Arr 36 uint8_t)]"

definition mess_lc_pm_sigset :: fields where
  "mess_lc_pm_sigset =
    [(''how'', c_int), (''ctx'', vir_bytes), (''set'', sigset_t), (''padding'', Arr 32 uint8_t)]"

definition mess_lc_pm_sprof :: fields where
  "mess_lc_pm_sprof =
    [(''action'', c_int), (''freq'', c_int), (''intr_type'', c_int), (''ctl_ptr'', vir_bytes),
     (''mem_ptr'', vir_bytes), (''mem_size'', size_t), (''padding'', Arr 32 uint8_t)]"

definition mess_lc_pm_sysuname :: fields where
  "mess_lc_pm_sysuname =
    [(''req'', c_int), (''field'', c_int), (''len'', size_t), (''value'', vir_bytes),
     (''padding'', Arr 40 uint8_t)]"

definition mess_lc_pm_time :: fields where
  "mess_lc_pm_time =
    [(''sec'', time_t), (''clk_id'', clockid_t), (''now'', c_int), (''nsec'', c_long),
     (''padding'', Arr 36 uint8_t)]"

definition mess_lc_pm_wait4 :: fields where
  "mess_lc_pm_wait4 =
    [(''pid'', pid_t), (''options'', c_int), (''addr'', vir_bytes), (''padding'', Arr 44 uint8_t)]"

definition mess_lc_readclock_rtcdev :: fields where
  "mess_lc_readclock_rtcdev =
    [(''grant'', cp_grant_id_t), (''tm'', vir_bytes), (''flags'', c_int),
     (''padding'', Arr 44 uint8_t)]"

definition mess_lc_svrctl :: fields where
  "mess_lc_svrctl =
    [(''request'', c_unsigned_long), (''arg'', vir_bytes), (''padding'', Arr 48 uint8_t)]"

definition mess_lc_vfs_chown :: fields where
  "mess_lc_vfs_chown =
    [(''name'', vir_bytes), (''len'', size_t), (''fd'', c_int), (''owner'', uid_t),
     (''group'', gid_t), (''padding'', Arr 36 uint8_t)]"

definition mess_lc_vfs_close :: fields where
  "mess_lc_vfs_close =
    [(''fd'', c_int), (''nblock'', c_int), (''padding'', Arr 48 uint8_t)]"

definition mess_lc_vfs_creat :: fields where
  "mess_lc_vfs_creat =
    [(''name'', vir_bytes), (''len'', size_t), (''flags'', c_int), (''mode'', mode_t),
     (''padding'', Arr 40 uint8_t)]"

definition mess_lc_vfs_fchdir :: fields where
  "mess_lc_vfs_fchdir =
    [(''fd'', c_int), (''padding'', Arr 52 uint8_t)]"

definition mess_lc_vfs_fchmod :: fields where
  "mess_lc_vfs_fchmod =
    [(''fd'', c_int), (''mode'', mode_t), (''padding'', Arr 48 uint8_t)]"

definition mess_lc_vfs_fcntl :: fields where
  "mess_lc_vfs_fcntl =
    [(''fd'', c_int), (''cmd'', c_int), (''arg_int'', c_int), (''arg_ptr'', vir_bytes),
     (''padding'', Arr 40 uint8_t)]"

definition mess_lc_vfs_fstat :: fields where
  "mess_lc_vfs_fstat =
    [(''fd'', c_int), (''buf'', vir_bytes), (''padding'', Arr 48 uint8_t)]"

definition mess_lc_vfs_fsync :: fields where
  "mess_lc_vfs_fsync =
    [(''fd'', c_int), (''padding'', Arr 52 uint8_t)]"

definition mess_lc_vfs_gcov :: fields where
  "mess_lc_vfs_gcov =
    [(''labellen'', size_t), (''buflen'', size_t), (''label'', vir_bytes), (''buf'', vir_bytes),
     (''padding'', Arr 40 uint8_t)]"

definition mess_lc_vfs_getvfsstat :: fields where
  "mess_lc_vfs_getvfsstat =
    [(''flags'', int32_t), (''len'', size_t), (''buf'', vir_bytes), (''padding'', Arr 44 uint8_t)]"

definition mess_lc_vfs_ioctl :: fields where
  "mess_lc_vfs_ioctl =
    [(''fd'', c_int), (''req'', c_unsigned_long), (''arg'', vir_bytes),
     (''padding'', Arr 44 uint8_t)]"

definition mess_lc_vfs_link :: fields where
  "mess_lc_vfs_link =
    [(''name1'', vir_bytes), (''name2'', vir_bytes), (''len1'', size_t), (''len2'', size_t),
     (''padding'', Arr 40 uint8_t)]"

definition mess_lc_vfs_listen :: fields where
  "mess_lc_vfs_listen =
    [(''fd'', c_int), (''backlog'', c_int), (''padding'', Arr 48 u8_t)]"

definition mess_lc_vfs_lseek :: fields where
  "mess_lc_vfs_lseek =
    [(''offset'', off_t), (''fd'', c_int), (''whence'', c_int), (''padding'', Arr 40 uint8_t)]"

definition mess_lc_vfs_mknod :: fields where
  "mess_lc_vfs_mknod =
    [(''device'', dev_t), (''name'', vir_bytes), (''len'', size_t), (''mode'', mode_t),
     (''padding'', Arr 36 uint8_t)]"

definition mess_lc_vfs_mount :: fields where
  "mess_lc_vfs_mount =
    [(''flags'', c_int), (''devlen'', size_t), (''pathlen'', size_t), (''typelen'', size_t),
     (''labellen'', size_t), (''dev'', vir_bytes), (''path'', vir_bytes), (''type'', vir_bytes),
     (''label'', vir_bytes), (''padding'', Arr 20 uint8_t)]"

definition mess_lc_vfs_path :: fields where
  "mess_lc_vfs_path =
    [(''name'', vir_bytes), (''len'', size_t), (''flags'', c_int), (''mode'', mode_t),
     (''buf'', Arr M_PATH_STRING_MAX c_char)]"

definition mess_lc_vfs_pipe2 :: fields where
  "mess_lc_vfs_pipe2 =
    [(''flags'', c_int), (''_unused'', c_int), (''oflags'', c_int), (''padding'', Arr 44 uint8_t)]"

definition mess_lc_vfs_readlink :: fields where
  "mess_lc_vfs_readlink =
    [(''name'', vir_bytes), (''namelen'', size_t), (''buf'', vir_bytes), (''bufsize'', size_t),
     (''padding'', Arr 40 uint8_t)]"

definition mess_lc_vfs_readwrite :: fields where
  "mess_lc_vfs_readwrite =
    [(''fd'', c_int), (''buf'', vir_bytes), (''len'', size_t), (''cum_io'', size_t),
     (''padding'', Arr 40 uint8_t)]"

definition mess_lc_vfs_select :: fields where
  "mess_lc_vfs_select =
    [(''nfds'', uint32_t), (''readfds'', c_ptr), (''writefds'', c_ptr), (''errorfds'', c_ptr),
     (''timeout'', vir_bytes), (''padding'', Arr 36 uint8_t)]"

definition mess_lc_vfs_sendrecv :: fields where
  "mess_lc_vfs_sendrecv =
    [(''fd'', c_int), (''buf'', vir_bytes), (''len'', size_t), (''flags'', c_int),
     (''addr'', vir_bytes), (''addr_len'', c_unsigned), (''padding'', Arr 32 uint8_t)]"

definition mess_lc_vfs_shutdown :: fields where
  "mess_lc_vfs_shutdown =
    [(''fd'', c_int), (''how'', c_int), (''padding'', Arr 48 uint8_t)]"

definition mess_lc_vfs_sockaddr :: fields where
  "mess_lc_vfs_sockaddr =
    [(''fd'', c_int), (''addr'', vir_bytes), (''addr_len'', c_unsigned),
     (''padding'', Arr 44 uint8_t)]"

definition mess_lc_vfs_socket :: fields where
  "mess_lc_vfs_socket =
    [(''domain'', c_int), (''type'', c_int), (''protocol'', c_int), (''padding'', Arr 44 uint8_t)]"

definition mess_lc_vfs_sockmsg :: fields where
  "mess_lc_vfs_sockmsg =
    [(''fd'', c_int), (''msgbuf'', vir_bytes), (''flags'', c_int), (''padding'', Arr 44 uint8_t)]"

definition mess_lc_vfs_sockopt :: fields where
  "mess_lc_vfs_sockopt =
    [(''fd'', c_int), (''level'', c_int), (''name'', c_int), (''buf'', vir_bytes),
     (''len'', c_unsigned), (''padding'', Arr 36 uint8_t)]"

definition mess_lc_vfs_stat :: fields where
  "mess_lc_vfs_stat =
    [(''len'', size_t), (''name'', vir_bytes), (''buf'', vir_bytes),
     (''padding'', Arr 44 uint8_t)]"

definition mess_lc_vfs_statvfs1 :: fields where
  "mess_lc_vfs_statvfs1 =
    [(''fd'', c_int), (''flags'', c_int), (''len'', size_t), (''name'', vir_bytes),
     (''buf'', vir_bytes), (''padding'', Arr 36 uint8_t)]"

definition mess_lc_vfs_truncate :: fields where
  "mess_lc_vfs_truncate =
    [(''offset'', off_t), (''fd'', c_int), (''name'', vir_bytes), (''len'', size_t),
     (''padding'', Arr 36 uint8_t)]"

definition mess_lc_vfs_umask :: fields where
  "mess_lc_vfs_umask =
    [(''mask'', mode_t), (''padding'', Arr 52 uint8_t)]"

definition mess_lc_vfs_umount :: fields where
  "mess_lc_vfs_umount =
    [(''name'', vir_bytes), (''namelen'', size_t), (''label'', vir_bytes),
     (''labellen'', size_t), (''padding'', Arr 40 uint8_t)]"

definition mess_lc_vm_brk :: fields where
  "mess_lc_vm_brk =
    [(''addr'', c_ptr), (''padding'', Arr 52 uint8_t)]"

definition mess_lc_vm_getphys :: fields where
  "mess_lc_vm_getphys =
    [(''endpt'', endpoint_t), (''addr'', c_ptr), (''ret_addr'', c_ptr),
     (''padding'', Arr 44 uint8_t)]"

definition mess_lc_vm_shm_unmap :: fields where
  "mess_lc_vm_shm_unmap =
    [(''forwhom'', endpoint_t), (''addr'', c_ptr), (''padding'', Arr 48 uint8_t)]"

definition mess_lchardriver_vfs_reply :: fields where
  "mess_lchardriver_vfs_reply =
    [(''status'', c_int), (''id'', uint32_t), (''padding'', Arr 48 uint8_t)]"

definition mess_lchardriver_vfs_sel1 :: fields where
  "mess_lchardriver_vfs_sel1 =
    [(''status'', c_int), (''minor'', int32_t), (''padding'', Arr 48 uint8_t)]"

definition mess_lchardriver_vfs_sel2 :: fields where
  "mess_lchardriver_vfs_sel2 =
    [(''status'', c_int), (''minor'', int32_t), (''padding'', Arr 48 uint8_t)]"

definition mess_lexec_pm_exec_new :: fields where
  "mess_lexec_pm_exec_new =
    [(''endpt'', endpoint_t), (''ptr'', vir_bytes), (''padding'', Arr 48 uint8_t)]"

definition mess_li2cdriver_i2c_busc_i2c_exec :: fields where
  "mess_li2cdriver_i2c_busc_i2c_exec =
    [(''grant'', cp_grant_id_t), (''padding'', Arr 52 uint8_t)]"

definition mess_li2cdriver_i2c_busc_i2c_reserve :: fields where
  "mess_li2cdriver_i2c_busc_i2c_reserve =
    [(''addr'', uint16_t), (''padding'', Arr 54 uint8_t)]"

definition mess_linputdriver_input_event :: fields where
  "mess_linputdriver_input_event =
    [(''id'', c_int), (''page'', c_int), (''code'', c_int), (''value'', c_int),
     (''flags'', c_int), (''padding'', Arr 36 uint8_t)]"

definition mess_lsockdriver_vfs_accept_reply :: fields where
  "mess_lsockdriver_vfs_accept_reply =
    [(''req_id'', int32_t), (''sock_id'', int32_t), (''status'', c_int), (''len'', c_unsigned),
     (''padding'', Arr 40 uint8_t)]"

definition mess_lsockdriver_vfs_recv_reply :: fields where
  "mess_lsockdriver_vfs_recv_reply =
    [(''req_id'', int32_t), (''status'', c_int), (''ctl_len'', c_unsigned),
     (''addr_len'', c_unsigned), (''flags'', c_int), (''padding'', Arr 36 uint8_t)]"

definition mess_lsockdriver_vfs_reply :: fields where
  "mess_lsockdriver_vfs_reply =
    [(''req_id'', int32_t), (''status'', c_int), (''padding'', Arr 48 uint8_t)]"

definition mess_lsockdriver_vfs_select_reply :: fields where
  "mess_lsockdriver_vfs_select_reply =
    [(''sock_id'', int32_t), (''status'', c_int), (''padding'', Arr 48 uint8_t)]"

definition mess_lsockdriver_vfs_socket_reply :: fields where
  "mess_lsockdriver_vfs_socket_reply =
    [(''req_id'', int32_t), (''sock_id'', int32_t), (''sock_id2'', int32_t),
     (''padding'', Arr 44 uint8_t)]"

definition mess_lsys_fi_ctl :: fields where
  "mess_lsys_fi_ctl =
    [(''gid'', cp_grant_id_t), (''size'', size_t), (''subtype'', c_int),
     (''padding'', Arr 44 uint8_t)]"

definition mess_lsys_fi_reply :: fields where
  "mess_lsys_fi_reply =
    [(''status'', c_int), (''padding'', Arr 52 uint8_t)]"

definition mess_lsys_getsysinfo :: fields where
  "mess_lsys_getsysinfo =
    [(''what'', c_int), (''where'', vir_bytes), (''size'', size_t), (''padding'', Arr 44 uint8_t)]"

definition mess_lsys_krn_readbios :: fields where
  "mess_lsys_krn_readbios =
    [(''size'', size_t), (''addr'', phys_bytes), (''buf'', vir_bytes),
     (''padding'', Arr 44 uint8_t)]"

definition mess_lsys_kern_safecopy :: fields where
  "mess_lsys_kern_safecopy =
    [(''from_to'', endpoint_t), (''gid'', cp_grant_id_t), (''offset'', size_t),
     (''address'', c_ptr), (''bytes'', size_t), (''padding'', Arr 36 uint8_t)]"

definition mess_lsys_krn_schedctl :: fields where
  "mess_lsys_krn_schedctl =
    [(''flags'', uint32_t), (''endpoint'', endpoint_t), (''priority'', c_int),
     (''quantum'', c_int), (''cpu'', c_int), (''padding'', Arr 36 uint8_t)]"

definition mess_lsys_krn_schedule :: fields where
  "mess_lsys_krn_schedule =
    [(''endpoint'', endpoint_t), (''quantum'', c_int), (''priority'', c_int), (''cpu'', c_int),
     (''niced'', c_int), (''padding'', Arr 36 uint8_t)]"

definition mess_lsys_krn_sys_abort :: fields where
  "mess_lsys_krn_sys_abort =
    [(''how'', c_int), (''padding'', Arr 52 uint8_t)]"

definition mess_lsys_krn_sys_clear :: fields where
  "mess_lsys_krn_sys_clear =
    [(''endpt'', endpoint_t), (''padding'', Arr 52 uint8_t)]"

definition mess_lsys_krn_sys_copy :: fields where
  "mess_lsys_krn_sys_copy =
    [(''src_endpt'', endpoint_t), (''src_addr'', vir_bytes), (''dst_endpt'', endpoint_t),
     (''dst_addr'', vir_bytes), (''nr_bytes'', phys_bytes), (''flags'', c_int),
     (''padding'', Arr 32 uint8_t)]"

definition mess_lsys_krn_sys_devio :: fields where
  "mess_lsys_krn_sys_devio =
    [(''request'', c_int), (''port'', c_int), (''value'', uint32_t),
     (''padding'', Arr 44 uint8_t)]"

definition mess_lsys_krn_sys_diagctl :: fields where
  "mess_lsys_krn_sys_diagctl =
    [(''code'', c_int), (''buf'', vir_bytes), (''len'', c_int), (''endpt'', endpoint_t),
     (''padding'', Arr 40 uint8_t)]"

definition mess_lsys_krn_sys_exec :: fields where
  "mess_lsys_krn_sys_exec =
    [(''endpt'', endpoint_t), (''ip'', vir_bytes), (''stack'', vir_bytes), (''name'', vir_bytes),
     (''ps_str'', vir_bytes), (''padding'', Arr 36 uint8_t)]"

definition mess_lsys_krn_sys_fork :: fields where
  "mess_lsys_krn_sys_fork =
    [(''endpt'', endpoint_t), (''slot'', endpoint_t), (''flags'', uint32_t),
     (''padding'', Arr 44 uint8_t)]"

definition mess_lsys_krn_sys_getinfo :: fields where
  "mess_lsys_krn_sys_getinfo =
    [(''request'', c_int), (''endpt'', endpoint_t), (''val_ptr'', vir_bytes),
     (''val_len'', c_int), (''val_ptr2'', vir_bytes), (''val_len2_e'', c_int),
     (''padding'', Arr 32 uint8_t)]"

definition mess_lsys_krn_sys_getmcontext :: fields where
  "mess_lsys_krn_sys_getmcontext =
    [(''endpt'', endpoint_t), (''ctx_ptr'', vir_bytes), (''padding'', Arr 48 uint8_t)]"

definition mess_lsys_krn_sys_iopenable :: fields where
  "mess_lsys_krn_sys_iopenable =
    [(''endpt'', endpoint_t), (''padding'', Arr 52 uint8_t)]"

definition mess_lsys_krn_sys_irqctl :: fields where
  "mess_lsys_krn_sys_irqctl =
    [(''request'', c_int), (''vector'', c_int), (''policy'', c_int), (''hook_id'', c_int),
     (''padding'', Arr 40 uint8_t)]"

definition mess_lsys_krn_sys_memset :: fields where
  "mess_lsys_krn_sys_memset =
    [(''base'', phys_bytes), (''count'', phys_bytes), (''pattern'', c_unsigned_long),
     (''process'', endpoint_t), (''padding'', Arr 40 uint8_t)]"

definition mess_lsys_krn_sys_privctl :: fields where
  "mess_lsys_krn_sys_privctl =
    [(''request'', c_int), (''endpt'', endpoint_t), (''arg_ptr'', vir_bytes),
     (''phys_start'', phys_bytes), (''phys_len'', phys_bytes), (''padding'', Arr 36 uint8_t)]"

definition mess_lsys_krn_sys_sdevio :: fields where
  "mess_lsys_krn_sys_sdevio =
    [(''request'', c_int), (''port'', c_long), (''vec_endpt'', endpoint_t),
     (''vec_addr'', phys_bytes), (''vec_size'', vir_bytes), (''offset'', vir_bytes),
     (''padding'', Arr 32 uint8_t)]"

definition mess_lsys_krn_sys_setalarm :: fields where
  "mess_lsys_krn_sys_setalarm =
    [(''exp_time'', clock_t), (''time_left'', clock_t), (''uptime'', clock_t),
     (''abs_time'', c_int), (''padding'', Arr 40 uint8_t)]"

definition mess_lsys_krn_sys_setgrant :: fields where
  "mess_lsys_krn_sys_setgrant =
    [(''addr'', vir_bytes), (''size'', c_int), (''padding'', Arr 48 uint8_t)]"

definition mess_lsys_krn_sys_setmcontext :: fields where
  "mess_lsys_krn_sys_setmcontext =
    [(''endpt'', endpoint_t), (''ctx_ptr'', vir_bytes), (''padding'', Arr 48 uint8_t)]"

definition mess_lsys_krn_sys_settime :: fields where
  "mess_lsys_krn_sys_settime =
    [(''sec'', time_t), (''nsec'', c_long), (''now'', c_int), (''clock_id'', clockid_t),
     (''padding'', Arr 36 uint8_t)]"

definition mess_lsys_krn_sys_sprof :: fields where
  "mess_lsys_krn_sys_sprof =
    [(''action'', c_int), (''freq'', c_int), (''intr_type'', c_int), (''endpt'', endpoint_t),
     (''ctl_ptr'', vir_bytes), (''mem_ptr'', vir_bytes), (''mem_size'', size_t),
     (''padding'', Arr 28 uint8_t)]"

definition mess_lsys_krn_sys_statectl :: fields where
  "mess_lsys_krn_sys_statectl =
    [(''request'', c_int), (''address'', c_ptr), (''length'', c_int),
     (''padding'', Arr 44 uint8_t)]"

definition mess_lsys_krn_sys_stime :: fields where
  "mess_lsys_krn_sys_stime =
    [(''boot_time'', time_t), (''padding'', Arr 48 uint8_t)]"

definition mess_lsys_krn_sys_times :: fields where
  "mess_lsys_krn_sys_times =
    [(''endpt'', endpoint_t), (''padding'', Arr 52 uint8_t)]"

definition mess_lsys_krn_sys_trace :: fields where
  "mess_lsys_krn_sys_trace =
    [(''request'', c_int), (''endpt'', endpoint_t), (''address'', vir_bytes), (''data'', c_long),
     (''padding'', Arr 40 uint8_t)]"

definition mess_lsys_krn_sys_umap :: fields where
  "mess_lsys_krn_sys_umap =
    [(''src_endpt'', endpoint_t), (''segment'', c_int), (''src_addr'', vir_bytes),
     (''dst_endpt'', endpoint_t), (''nr_bytes'', c_int), (''padding'', Arr 36 uint8_t)]"

definition mess_lsys_krn_sys_vdevio :: fields where
  "mess_lsys_krn_sys_vdevio =
    [(''request'', c_int), (''vec_size'', c_int), (''vec_addr'', vir_bytes),
     (''padding'', Arr 44 uint8_t)]"

definition mess_lsys_krn_sys_vumap :: fields where
  "mess_lsys_krn_sys_vumap =
    [(''endpt'', endpoint_t), (''vaddr'', vir_bytes), (''vcount'', c_int),
     (''paddr'', vir_bytes), (''pmax'', c_int), (''access'', c_int), (''offset'', size_t),
     (''padding'', Arr 28 uint8_t)]"

definition mess_lsys_kern_vsafecopy :: fields where
  "mess_lsys_kern_vsafecopy =
    [(''vec_addr'', c_ptr), (''vec_size'', c_int), (''padding'', Arr 48 uint8_t)]"

definition mess_lsys_mib_register :: fields where
  "mess_lsys_mib_register =
    [(''root_id'', uint32_t), (''flags'', uint32_t), (''csize'', c_unsigned),
     (''clen'', c_unsigned), (''miblen'', c_unsigned), (''mib'', Arr CTL_SHORTNAME c_int),
     (''padding'', Arr 4 uint8_t)]"

definition mess_lsys_mib_reply :: fields where
  "mess_lsys_mib_reply =
    [(''req_id'', uint32_t), (''status'', ssize_t), (''padding'', Arr 48 uint8_t)]"

definition mess_lsys_pci_busc_get_bar :: fields where
  "mess_lsys_pci_busc_get_bar =
    [(''devind'', c_int), (''port'', c_int), (''padding'', Arr 48 uint8_t)]"

definition mess_lsys_pm_getepinfo :: fields where
  "mess_lsys_pm_getepinfo =
    [(''endpt'', endpoint_t), (''groups'', vir_bytes), (''ngroups'', c_int),
     (''padding'', Arr 44 uint8_t)]"

definition mess_lsys_pm_getprocnr :: fields where
  "mess_lsys_pm_getprocnr =
    [(''pid'', pid_t), (''padding'', Arr 52 uint8_t)]"

definition mess_lsys_pm_proceventmask :: fields where
  "mess_lsys_pm_proceventmask =
    [(''mask'', c_unsigned), (''padding'', Arr 52 uint8_t)]"

definition mess_lsys_pm_srv_fork :: fields where
  "mess_lsys_pm_srv_fork =
    [(''uid'', uid_t), (''gid'', gid_t), (''padding'', Arr 48 uint8_t)]"

definition mess_lsys_sched_scheduling_start :: fields where
  "mess_lsys_sched_scheduling_start =
    [(''endpoint'', endpoint_t), (''parent'', endpoint_t), (''maxprio'', c_int),
     (''quantum'', c_int), (''padding'', Arr 40 uint8_t)]"

definition mess_lsys_sched_scheduling_stop :: fields where
  "mess_lsys_sched_scheduling_stop =
    [(''endpoint'', endpoint_t), (''padding'', Arr 52 uint8_t)]"

definition mess_lsys_tty_fkey_ctl :: fields where
  "mess_lsys_tty_fkey_ctl =
    [(''request'', c_int), (''fkeys'', c_int), (''sfkeys'', c_int), (''padding'', Arr 44 uint8_t)]"

definition mess_lsys_vfs_copyfd :: fields where
  "mess_lsys_vfs_copyfd =
    [(''endpt'', endpoint_t), (''fd'', c_int), (''what'', c_int), (''padding'', Arr 44 uint8_t)]"

definition mess_lsys_vfs_mapdriver :: fields where
  "mess_lsys_vfs_mapdriver =
    [(''major'', devmajor_t), (''labellen'', size_t), (''label'', vir_bytes),
     (''ndomains'', c_int), (''domains'', Arr NR_DOMAIN c_int), (''padding'', Arr 8 uint8_t)]"

definition mess_lsys_vfs_socketpath :: fields where
  "mess_lsys_vfs_socketpath =
    [(''endpt'', endpoint_t), (''grant'', cp_grant_id_t), (''count'', size_t), (''what'', c_int),
     (''padding'', Arr 40 uint8_t)]"

definition mess_lsys_vm_getref :: fields where
  "mess_lsys_vm_getref =
    [(''endpt'', endpoint_t), (''addr'', c_ptr), (''retc'', c_int), (''padding'', Arr 44 uint8_t)]"

definition mess_lsys_vm_info :: fields where
  "mess_lsys_vm_info =
    [(''what'', c_int), (''ep'', endpoint_t), (''count'', c_int), (''ptr'', c_ptr),
     (''next'', vir_bytes), (''padding'', Arr 36 uint8_t)]"

definition mess_lsys_vm_map_phys :: fields where
  "mess_lsys_vm_map_phys =
    [(''ep'', endpoint_t), (''phaddr'', phys_bytes), (''len'', size_t), (''reply'', c_ptr),
     (''padding'', Arr 40 uint8_t)]"

definition mess_lsys_vm_rusage :: fields where
  "mess_lsys_vm_rusage =
    [(''endpt'', endpoint_t), (''addr'', vir_bytes), (''children'', c_int),
     (''padding'', Arr 44 uint8_t)]"

definition mess_lsys_vm_unmap_phys :: fields where
  "mess_lsys_vm_unmap_phys =
    [(''ep'', endpoint_t), (''vaddr'', c_ptr), (''padding'', Arr 48 uint8_t)]"

definition mess_lsys_vm_update :: fields where
  "mess_lsys_vm_update =
    [(''src'', endpoint_t), (''dst'', endpoint_t), (''flags'', c_int),
     (''padding'', Arr 44 uint8_t)]"

definition mess_lsys_vm_vmremap :: fields where
  "mess_lsys_vm_vmremap =
    [(''destination'', endpoint_t), (''source'', endpoint_t), (''dest_addr'', c_ptr),
     (''src_addr'', c_ptr), (''size'', size_t), (''ret_addr'', c_ptr),
     (''padding'', Arr 32 uint8_t)]"

definition mess_mib_lc_sysctl :: fields where
  "mess_mib_lc_sysctl =
    [(''oldlen'', size_t), (''padding'', Arr 52 uint8_t)]"

definition mess_mib_lsys_call :: fields where
  "mess_mib_lsys_call =
    [(''req_id'', uint32_t), (''root_id'', uint32_t), (''name_grant'', cp_grant_id_t),
     (''name_len'', c_unsigned), (''oldp_grant'', cp_grant_id_t), (''oldp_len'', size_t),
     (''newp_grant'', cp_grant_id_t), (''newp_len'', size_t), (''user_endpt'', endpoint_t),
     (''flags'', uint32_t), (''root_ver'', uint32_t), (''tree_ver'', uint32_t),
     (''padding'', Arr 8 uint8_t)]"

definition mess_mib_lsys_info :: fields where
  "mess_mib_lsys_info =
    [(''req_id'', uint32_t), (''root_id'', uint32_t), (''name_grant'', cp_grant_id_t),
     (''name_size'', size_t), (''desc_grant'', cp_grant_id_t), (''desc_size'', size_t),
     (''padding'', Arr 32 uint8_t)]"

definition mess_mmap :: fields where
  "mess_mmap =
    [(''offset'', off_t), (''addr'', c_ptr), (''len'', size_t), (''prot'', c_int),
     (''flags'', c_int), (''fd'', c_int), (''forwhom'', endpoint_t), (''retaddr'', c_ptr),
     (''padding'', Arr 5 u32_t)]"

definition mess_ndev_netdriver_init :: fields where
  "mess_ndev_netdriver_init =
    [(''id'', uint32_t), (''padding'', Arr 52 uint8_t)]"

definition mess_ndev_netdriver_conf :: fields where
  "mess_ndev_netdriver_conf =
    [(''id'', uint32_t), (''set'', uint32_t), (''mode'', uint32_t),
     (''mcast_grant'', cp_grant_id_t), (''mcast_count'', c_unsigned), (''caps'', uint32_t),
     (''flags'', uint32_t), (''media'', uint32_t), (''hwaddr'', Arr NDEV_HWADDR_MAX uint8_t),
     (''padding'', Arr 18 uint8_t)]"

definition mess_ndev_netdriver_transfer :: fields where
  "mess_ndev_netdriver_transfer =
    [(''id'', uint32_t), (''count'', uint32_t), (''grant'', Arr NDEV_IOV_MAX cp_grant_id_t),
     (''len'', Arr NDEV_IOV_MAX uint16_t)]"

definition mess_ndev_netdriver_status_reply :: fields where
  "mess_ndev_netdriver_status_reply =
    [(''id'', uint32_t), (''padding'', Arr 52 uint8_t)]"

definition mess_netdriver_ndev_init_reply :: fields where
  "mess_netdriver_ndev_init_reply =
    [(''id'', uint32_t), (''link'', uint32_t), (''media'', uint32_t), (''caps'', uint32_t),
     (''name'', Arr NDEV_NAME_MAX c_char), (''hwaddr'', Arr NDEV_HWADDR_MAX uint8_t),
     (''hwaddr_len'', uint8_t), (''max_send'', uint8_t), (''max_recv'', uint8_t),
     (''padding'', Arr 15 uint8_t)]"

definition mess_netdriver_ndev_reply :: fields where
  "mess_netdriver_ndev_reply =
    [(''id'', uint32_t), (''result'', int32_t), (''padding'', Arr 48 uint8_t)]"

definition mess_netdriver_ndev_status :: fields where
  "mess_netdriver_ndev_status =
    [(''id'', uint32_t), (''link'', uint32_t), (''media'', uint32_t), (''oerror'', uint32_t),
     (''coll'', uint32_t), (''ierror'', uint32_t), (''iqdrop'', uint32_t),
     (''padding'', Arr 28 uint8_t)]"

definition mess_net_netdrv_dl_conf :: fields where
  "mess_net_netdrv_dl_conf =
    [(''mode'', c_int), (''padding'', Arr 52 uint8_t)]"

definition mess_net_netdrv_dl_getstat_s :: fields where
  "mess_net_netdrv_dl_getstat_s =
    [(''grant'', cp_grant_id_t), (''padding'', Arr 52 uint8_t)]"

definition mess_net_netdrv_dl_readv_s :: fields where
  "mess_net_netdrv_dl_readv_s =
    [(''grant'', cp_grant_id_t), (''count'', c_int), (''padding'', Arr 48 uint8_t)]"

definition mess_net_netdrv_dl_writev_s :: fields where
  "mess_net_netdrv_dl_writev_s =
    [(''grant'', cp_grant_id_t), (''count'', c_int), (''padding'', Arr 48 uint8_t)]"

definition mess_netdrv_net_dl_conf :: fields where
  "mess_netdrv_net_dl_conf =
    [(''stat'', c_int), (''hw_addr'', Arr 6 uint8_t), (''padding'', Arr 46 uint8_t)]"

definition mess_netdrv_net_dl_task :: fields where
  "mess_netdrv_net_dl_task =
    [(''count'', c_int), (''flags'', uint32_t), (''padding'', Arr 48 uint8_t)]"

definition mess_notify :: fields where
  "mess_notify =
    [(''timestamp'', u64_t), (''interrupts'', u64_t), (''sigset'', sigset_t),
     (''padding'', Arr 24 uint8_t)]"

definition mess_pci_lsys_busc_get_bar :: fields where
  "mess_pci_lsys_busc_get_bar =
    [(''base'', c_int), (''size'', size_t), (''flags'', uint32_t), (''padding'', Arr 44 uint8_t)]"

definition mess_pm_lc_getgid :: fields where
  "mess_pm_lc_getgid =
    [(''egid'', uid_t), (''padding'', Arr 52 uint8_t)]"

definition mess_pm_lc_getpid :: fields where
  "mess_pm_lc_getpid =
    [(''parent_pid'', pid_t), (''padding'', Arr 52 uint8_t)]"

definition mess_pm_lc_getuid :: fields where
  "mess_pm_lc_getuid =
    [(''euid'', uid_t), (''padding'', Arr 52 uint8_t)]"

definition mess_pm_lc_ptrace :: fields where
  "mess_pm_lc_ptrace =
    [(''data'', c_long), (''padding'', Arr 52 uint8_t)]"

definition mess_pm_lc_sigset :: fields where
  "mess_pm_lc_sigset =
    [(''set'', sigset_t), (''padding'', Arr 40 uint8_t)]"

definition mess_pm_lc_time :: fields where
  "mess_pm_lc_time =
    [(''sec'', time_t), (''nsec'', c_long), (''padding'', Arr 44 uint8_t)]"

definition mess_pm_lc_wait4 :: fields where
  "mess_pm_lc_wait4 =
    [(''status'', c_int), (''padding'', Arr 52 uint8_t)]"

definition mess_pm_lexec_exec_new :: fields where
  "mess_pm_lexec_exec_new =
    [(''suid'', c_int), (''padding'', Arr 52 uint8_t)]"

definition mess_pm_lsys_getepinfo :: fields where
  "mess_pm_lsys_getepinfo =
    [(''uid'', uid_t), (''euid'', uid_t), (''gid'', gid_t), (''egid'', gid_t),
     (''ngroups'', c_int), (''padding'', Arr 36 uint8_t)]"

definition mess_pm_lsys_getprocnr :: fields where
  "mess_pm_lsys_getprocnr =
    [(''endpt'', endpoint_t), (''padding'', Arr 52 uint8_t)]"

definition mess_pm_lsys_proc_event :: fields where
  "mess_pm_lsys_proc_event =
    [(''endpt'', endpoint_t), (''event'', c_unsigned), (''padding'', Arr 48 uint8_t)]"

definition mess_pm_lsys_sigs_signal :: fields where
  "mess_pm_lsys_sigs_signal =
    [(''num'', c_int), (''padding'', Arr 52 uint8_t)]"

definition mess_pm_sched_scheduling_set_nice :: fields where
  "mess_pm_sched_scheduling_set_nice =
    [(''endpoint'', endpoint_t), (''maxprio'', uint32_t), (''padding'', Arr 48 uint8_t)]"

definition mess_pty_ptyfs_req :: fields where
  "mess_pty_ptyfs_req =
    [(''dev'', dev_t), (''mode'', mode_t), (''uid'', uid_t), (''gid'', gid_t),
     (''index'', uint32_t), (''padding'', Arr 32 uint8_t)]"

definition mess_ptyfs_pty_name :: fields where
  "mess_ptyfs_pty_name =
    [(''name'', Arr 20 c_char), (''padding'', Arr 36 uint8_t)]"

definition mess_readclock_lc_rtcdev :: fields where
  "mess_readclock_lc_rtcdev =
    [(''status'', c_int), (''padding'', Arr 52 uint8_t)]"

definition mess_rs_init :: fields where
  "mess_rs_init =
    [(''result'', c_int), (''type'', c_int), (''rproctab_gid'', cp_grant_id_t),
     (''old_endpoint'', endpoint_t), (''restarts'', c_int), (''flags'', c_int),
     (''buff_addr'', vir_bytes), (''buff_len'', size_t), (''prepare_state'', c_int),
     (''padding'', Arr 20 uint8_t)]"

definition mess_rs_pm_exec_restart :: fields where
  "mess_rs_pm_exec_restart =
    [(''endpt'', endpoint_t), (''result'', c_int), (''pc'', vir_bytes), (''ps_str'', vir_bytes),
     (''padding'', Arr 40 uint8_t)]"

definition mess_rs_pm_srv_kill :: fields where
  "mess_rs_pm_srv_kill =
    [(''pid'', pid_t), (''nr'', c_int), (''padding'', Arr 48 uint8_t)]"

definition mess_rs_req :: fields where
  "mess_rs_req =
    [(''len'', c_int), (''name_len'', c_int), (''endpoint'', endpoint_t), (''addr'', c_ptr),
     (''name'', c_ptr), (''subtype'', c_int), (''padding'', Arr 32 uint8_t)]"

definition mess_rs_update :: fields where
  "mess_rs_update =
    [(''result'', c_int), (''state'', c_int), (''prepare_maxtime'', c_int), (''flags'', c_int),
     (''state_data_gid'', gid_t), (''padding'', Arr 36 uint8_t)]"

definition mess_sched_lsys_scheduling_start :: fields where
  "mess_sched_lsys_scheduling_start =
    [(''scheduler'', endpoint_t), (''padding'', Arr 52 uint8_t)]"

definition mess_sigcalls :: fields where
  "mess_sigcalls =
    [(''map'', sigset_t), (''endpt'', endpoint_t), (''sig'', c_int), (''sigctx'', c_ptr),
     (''padding'', Arr 28 uint8_t)]"

definition mess_tty_lsys_fkey_ctl :: fields where
  "mess_tty_lsys_fkey_ctl =
    [(''fkeys'', c_int), (''sfkeys'', c_int), (''padding'', Arr 48 uint8_t)]"

definition mess_vfs_fs_breadwrite :: fields where
  "mess_vfs_fs_breadwrite =
    [(''device'', dev_t), (''seek_pos'', off_t), (''grant'', cp_grant_id_t),
     (''nbytes'', size_t), (''data'', Arr 32 uint8_t)]"

definition mess_vfs_fs_chmod :: fields where
  "mess_vfs_fs_chmod =
    [(''inode'', ino_t), (''mode'', mode_t), (''data'', Arr 44 uint8_t)]"

definition mess_vfs_fs_chown :: fields where
  "mess_vfs_fs_chown =
    [(''inode'', ino_t), (''uid'', uid_t), (''gid'', gid_t), (''data'', Arr 40 uint8_t)]"

definition mess_vfs_fs_create :: fields where
  "mess_vfs_fs_create =
    [(''inode'', ino_t), (''mode'', mode_t), (''uid'', uid_t), (''gid'', gid_t),
     (''grant'', cp_grant_id_t), (''path_len'', size_t), (''data'', Arr 28 uint8_t)]"

definition mess_vfs_fs_flush :: fields where
  "mess_vfs_fs_flush =
    [(''device'', dev_t), (''data'', Arr 48 uint8_t)]"

definition mess_vfs_fs_ftrunc :: fields where
  "mess_vfs_fs_ftrunc =
    [(''inode'', ino_t), (''trc_start'', off_t), (''trc_end'', off_t), (''data'', Arr 32 uint8_t)]"

definition mess_vfs_fs_getdents :: fields where
  "mess_vfs_fs_getdents =
    [(''inode'', ino_t), (''seek_pos'', off_t), (''grant'', cp_grant_id_t),
     (''mem_size'', size_t), (''data'', Arr 32 uint8_t)]"

definition mess_vfs_fs_inhibread :: fields where
  "mess_vfs_fs_inhibread =
    [(''inode'', ino_t), (''data'', Arr 48 uint8_t)]"

definition mess_vfs_fs_link :: fields where
  "mess_vfs_fs_link =
    [(''inode'', ino_t), (''dir_ino'', ino_t), (''grant'', cp_grant_id_t),
     (''path_len'', size_t), (''data'', Arr 32 uint8_t)]"

definition mess_vfs_fs_lookup :: fields where
  "mess_vfs_fs_lookup =
    [(''dir_ino'', ino_t), (''root_ino'', ino_t), (''flags'', uint32_t), (''path_len'', size_t),
     (''path_size'', size_t), (''ucred_size'', size_t), (''grant_path'', cp_grant_id_t),
     (''grant_ucred'', cp_grant_id_t), (''uid'', uid_t), (''gid'', gid_t),
     (''data'', Arr 8 uint8_t)]"

definition mess_vfs_fs_mkdir :: fields where
  "mess_vfs_fs_mkdir =
    [(''inode'', ino_t), (''mode'', mode_t), (''uid'', uid_t), (''gid'', gid_t),
     (''grant'', cp_grant_id_t), (''path_len'', size_t), (''data'', Arr 28 uint8_t)]"

definition mess_vfs_fs_mknod :: fields where
  "mess_vfs_fs_mknod =
    [(''device'', dev_t), (''inode'', ino_t), (''mode'', mode_t), (''uid'', uid_t),
     (''gid'', gid_t), (''grant'', cp_grant_id_t), (''path_len'', size_t),
     (''data'', Arr 20 uint8_t)]"

definition mess_vfs_fs_mountpoint :: fields where
  "mess_vfs_fs_mountpoint =
    [(''inode'', ino_t), (''data'', Arr 48 uint8_t)]"

definition mess_vfs_fs_new_driver :: fields where
  "mess_vfs_fs_new_driver =
    [(''device'', dev_t), (''grant'', cp_grant_id_t), (''path_len'', size_t),
     (''data'', Arr 40 uint8_t)]"

definition mess_vfs_fs_newnode :: fields where
  "mess_vfs_fs_newnode =
    [(''device'', dev_t), (''mode'', mode_t), (''uid'', uid_t), (''gid'', gid_t),
     (''data'', Arr 36 uint8_t)]"

definition mess_vfs_fs_putnode :: fields where
  "mess_vfs_fs_putnode =
    [(''inode'', ino_t), (''count'', c_unsigned), (''data'', Arr 44 uint8_t)]"

definition mess_vfs_fs_rdlink :: fields where
  "mess_vfs_fs_rdlink =
    [(''inode'', ino_t), (''grant'', cp_grant_id_t), (''mem_size'', size_t),
     (''data'', Arr 40 uint8_t)]"

definition mess_vfs_fs_readsuper :: fields where
  "mess_vfs_fs_readsuper =
    [(''device'', dev_t), (''flags'', uint32_t), (''path_len'', size_t),
     (''grant'', cp_grant_id_t), (''data'', Arr 36 uint8_t)]"

definition mess_vfs_fs_readwrite :: fields where
  "mess_vfs_fs_readwrite =
    [(''inode'', ino_t), (''seek_pos'', off_t), (''grant'', cp_grant_id_t), (''nbytes'', size_t),
     (''data'', Arr 32 uint8_t)]"

definition mess_vfs_fs_rename :: fields where
  "mess_vfs_fs_rename =
    [(''dir_old'', ino_t), (''dir_new'', ino_t), (''len_old'', size_t), (''len_new'', size_t),
     (''grant_old'', cp_grant_id_t), (''grant_new'', cp_grant_id_t), (''data'', Arr 24 uint8_t)]"

definition mess_vfs_fs_slink :: fields where
  "mess_vfs_fs_slink =
    [(''inode'', ino_t), (''path_len'', size_t), (''mem_size'', size_t),
     (''grant_path'', cp_grant_id_t), (''grant_target'', cp_grant_id_t), (''uid'', uid_t),
     (''gid'', gid_t), (''data'', Arr 24 uint8_t)]"

definition mess_vfs_fs_stat :: fields where
  "mess_vfs_fs_stat =
    [(''inode'', ino_t), (''grant'', cp_grant_id_t), (''data'', Arr 44 uint8_t)]"

definition mess_vfs_fs_statvfs :: fields where
  "mess_vfs_fs_statvfs =
    [(''grant'', cp_grant_id_t), (''data'', Arr 52 uint8_t)]"

definition mess_vfs_fs_unlink :: fields where
  "mess_vfs_fs_unlink =
    [(''inode'', ino_t), (''grant'', cp_grant_id_t), (''path_len'', size_t),
     (''data'', Arr 40 uint8_t)]"

definition mess_vfs_fs_utime :: fields where
  "mess_vfs_fs_utime =
    [(''inode'', ino_t), (''actime'', time_t), (''modtime'', time_t), (''acnsec'', uint32_t),
     (''modnsec'', uint32_t), (''data'', Arr 24 uint8_t)]"

definition mess_vfs_lc_fdpair :: fields where
  "mess_vfs_lc_fdpair =
    [(''fd0'', c_int), (''fd1'', c_int), (''padding'', Arr 48 uint8_t)]"

definition mess_vfs_lc_lseek :: fields where
  "mess_vfs_lc_lseek =
    [(''offset'', off_t), (''padding'', Arr 48 uint8_t)]"

definition mess_vfs_lc_socklen :: fields where
  "mess_vfs_lc_socklen =
    [(''len'', c_unsigned), (''padding'', Arr 52 uint8_t)]"

definition mess_vfs_lchardriver_cancel :: fields where
  "mess_vfs_lchardriver_cancel =
    [(''id'', endpoint_t), (''minor'', devminor_t), (''padding'', Arr 48 uint8_t)]"

definition mess_vfs_lchardriver_openclose :: fields where
  "mess_vfs_lchardriver_openclose =
    [(''id'', endpoint_t), (''user'', endpoint_t), (''minor'', devminor_t), (''access'', c_int),
     (''padding'', Arr 40 uint8_t)]"

definition mess_vfs_lchardriver_readwrite :: fields where
  "mess_vfs_lchardriver_readwrite =
    [(''pos'', off_t), (''grant'', cp_grant_id_t), (''count'', size_t),
     (''request'', c_unsigned_long), (''flags'', c_int), (''id'', endpoint_t),
     (''user'', endpoint_t), (''minor'', devminor_t), (''padding'', Arr 20 uint8_t)]"

definition mess_vfs_lchardriver_select :: fields where
  "mess_vfs_lchardriver_select =
    [(''minor'', devminor_t), (''ops'', c_int), (''padding'', Arr 48 uint8_t)]"

definition mess_vfs_lsockdriver_addr :: fields where
  "mess_vfs_lsockdriver_addr =
    [(''req_id'', int32_t), (''sock_id'', int32_t), (''grant'', cp_grant_id_t),
     (''len'', c_unsigned), (''user_endpt'', endpoint_t), (''sflags'', c_int),
     (''padding'', Arr 32 uint8_t)]"

definition mess_vfs_lsockdriver_getset :: fields where
  "mess_vfs_lsockdriver_getset =
    [(''req_id'', int32_t), (''sock_id'', int32_t), (''level'', c_int), (''name'', c_int),
     (''grant'', cp_grant_id_t), (''len'', c_unsigned), (''padding'', Arr 32 uint8_t)]"

definition mess_vfs_lsockdriver_ioctl :: fields where
  "mess_vfs_lsockdriver_ioctl =
    [(''req_id'', int32_t), (''sock_id'', int32_t), (''request'', c_unsigned_long),
     (''grant'', cp_grant_id_t), (''user_endpt'', endpoint_t), (''sflags'', c_int),
     (''padding'', Arr 32 uint8_t)]"

definition mess_vfs_lsockdriver_select :: fields where
  "mess_vfs_lsockdriver_select =
    [(''sock_id'', int32_t), (''ops'', c_int), (''padding'', Arr 48 uint8_t)]"

definition mess_vfs_lsockdriver_sendrecv :: fields where
  "mess_vfs_lsockdriver_sendrecv =
    [(''req_id'', int32_t), (''sock_id'', int32_t), (''data_grant'', cp_grant_id_t),
     (''data_len'', size_t), (''ctl_grant'', cp_grant_id_t), (''ctl_len'', c_unsigned),
     (''addr_grant'', cp_grant_id_t), (''addr_len'', c_unsigned), (''user_endpt'', endpoint_t),
     (''flags'', c_int), (''padding'', Arr 16 uint8_t)]"

definition mess_vfs_lsockdriver_simple :: fields where
  "mess_vfs_lsockdriver_simple =
    [(''req_id'', int32_t), (''sock_id'', int32_t), (''param'', c_int),
     (''padding'', Arr 44 uint8_t)]"

definition mess_vfs_lsockdriver_socket :: fields where
  "mess_vfs_lsockdriver_socket =
    [(''req_id'', int32_t), (''domain'', c_int), (''type'', c_int), (''protocol'', c_int),
     (''user_endpt'', endpoint_t), (''padding'', Arr 36 uint8_t)]"

definition mess_vfs_lsys_gcov :: fields where
  "mess_vfs_lsys_gcov =
    [(''grant'', cp_grant_id_t), (''size'', size_t), (''padding'', Arr 48 uint8_t)]"

definition mess_vfs_lsys_socketpath :: fields where
  "mess_vfs_lsys_socketpath =
    [(''device'', dev_t), (''inode'', ino_t), (''padding'', Arr 40 uint8_t)]"

definition mess_vfs_utimens :: fields where
  "mess_vfs_utimens =
    [(''atime'', time_t), (''mtime'', time_t), (''ansec'', c_long), (''mnsec'', c_long),
     (''len'', size_t), (''name'', c_ptr), (''fd'', c_int), (''flags'', c_int),
     (''padding'', Arr 16 uint8_t)]"

definition mess_vm_vfs_mmap :: fields where
  "mess_vm_vfs_mmap =
    [(''offset'', off_t), (''dev'', dev_t), (''ino'', ino_t), (''who'', endpoint_t),
     (''vaddr'', u32_t), (''len'', u32_t), (''flags'', u32_t), (''fd'', u32_t),
     (''clearend'', u16_t), (''padding'', Arr 8 uint8_t)]"

definition mess_vmmcp :: fields where
  "mess_vmmcp =
    [(''dev'', dev_t), (''dev_offset'', off_t), (''ino_offset'', off_t), (''ino'', ino_t),
     (''block'', c_ptr), (''flags_ptr'', c_ptr), (''pages'', u8_t), (''flags'', u8_t),
     (''padding'', Arr 12 uint8_t)]"

definition mess_vmmcp_reply :: fields where
  "mess_vmmcp_reply =
    [(''addr'', c_ptr), (''flags'', u8_t), (''padding'', Arr 51 uint8_t)]"


section \<open>The message\<close>

definition ipc_payloads :: "fields list" where
  "ipc_payloads =
    [mess_u8, mess_u16, mess_u32, mess_u64, mess_1, mess_2, mess_3, mess_4, mess_7, mess_9,
     mess_10, mess_ds_reply, mess_ds_req, mess_fs_vfs_breadwrite, mess_fs_vfs_chmod,
     mess_fs_vfs_chown, mess_fs_vfs_create, mess_fs_vfs_getdents, mess_fs_vfs_lookup,
     mess_fs_vfs_newnode, mess_fs_vfs_rdlink, mess_fs_vfs_readsuper, mess_fs_vfs_readwrite,
     mess_i2c_li2cdriver_busc_i2c_exec, mess_i2c_li2cdriver_busc_i2c_reserve,
     mess_input_linputdriver_input_conf, mess_input_linputdriver_setleds, mess_input_tty_event,
     mess_krn_lsys_schedule, mess_krn_lsys_sys_devio, mess_krn_lsys_sys_fork,
     mess_krn_lsys_sys_getwhoami, mess_krn_lsys_sys_irqctl, mess_krn_lsys_sys_times,
     mess_krn_lsys_sys_trace, mess_krn_lsys_sys_umap, mess_krn_lsys_sys_vumap,
     mess_lbdev_lblockdriver_msg, mess_lblockdriver_lbdev_reply, mess_lc_ipc_semctl,
     mess_lc_ipc_semget, mess_lc_ipc_semop, mess_lc_ipc_shmat, mess_lc_ipc_shmctl,
     mess_lc_ipc_shmdt, mess_lc_ipc_shmget, mess_lc_mib_sysctl, mess_lc_pm_exec, mess_lc_pm_exit,
     mess_lc_pm_getsid, mess_lc_pm_groups, mess_lc_pm_itimer, mess_lc_pm_mcontext,
     mess_lc_pm_priority, mess_lc_pm_ptrace, mess_lc_pm_reboot, mess_lc_pm_rusage,
     mess_lc_pm_setgid, mess_lc_pm_setuid, mess_lc_pm_sig, mess_lc_pm_sigset, mess_lc_pm_sprof,
     mess_lc_pm_sysuname, mess_lc_pm_time, mess_lc_pm_wait4, mess_lc_readclock_rtcdev,
     mess_lc_svrctl, mess_lc_vfs_chown, mess_lc_vfs_close, mess_lc_vfs_creat, mess_lc_vfs_fchdir,
     mess_lc_vfs_fchmod, mess_lc_vfs_fcntl, mess_lc_vfs_fstat, mess_lc_vfs_fsync,
     mess_lc_vfs_gcov, mess_lc_vfs_getvfsstat, mess_lc_vfs_ioctl, mess_lc_vfs_link,
     mess_lc_vfs_listen, mess_lc_vfs_lseek, mess_lc_vfs_mknod, mess_lc_vfs_mount,
     mess_lc_vfs_path, mess_lc_vfs_pipe2, mess_lc_vfs_readlink, mess_lc_vfs_readwrite,
     mess_lc_vfs_select, mess_lc_vfs_sendrecv, mess_lc_vfs_shutdown, mess_lc_vfs_sockaddr,
     mess_lc_vfs_socket, mess_lc_vfs_sockmsg, mess_lc_vfs_sockopt, mess_lc_vfs_stat,
     mess_lc_vfs_statvfs1, mess_lc_vfs_truncate, mess_lc_vfs_umask, mess_lc_vfs_umount,
     mess_lc_vm_brk, mess_lc_vm_getphys, mess_lc_vm_shm_unmap, mess_lchardriver_vfs_reply,
     mess_lchardriver_vfs_sel1, mess_lchardriver_vfs_sel2, mess_lexec_pm_exec_new,
     mess_li2cdriver_i2c_busc_i2c_exec, mess_li2cdriver_i2c_busc_i2c_reserve,
     mess_linputdriver_input_event, mess_lsockdriver_vfs_accept_reply,
     mess_lsockdriver_vfs_recv_reply, mess_lsockdriver_vfs_reply,
     mess_lsockdriver_vfs_select_reply, mess_lsockdriver_vfs_socket_reply, mess_lsys_fi_ctl,
     mess_lsys_fi_reply, mess_lsys_getsysinfo, mess_lsys_krn_readbios, mess_lsys_kern_safecopy,
     mess_lsys_krn_schedctl, mess_lsys_krn_schedule, mess_lsys_krn_sys_abort,
     mess_lsys_krn_sys_clear, mess_lsys_krn_sys_copy, mess_lsys_krn_sys_devio,
     mess_lsys_krn_sys_diagctl, mess_lsys_krn_sys_exec, mess_lsys_krn_sys_fork,
     mess_lsys_krn_sys_getinfo, mess_lsys_krn_sys_getmcontext, mess_lsys_krn_sys_iopenable,
     mess_lsys_krn_sys_irqctl, mess_lsys_krn_sys_memset, mess_lsys_krn_sys_privctl,
     mess_lsys_krn_sys_sdevio, mess_lsys_krn_sys_setalarm, mess_lsys_krn_sys_setgrant,
     mess_lsys_krn_sys_setmcontext, mess_lsys_krn_sys_settime, mess_lsys_krn_sys_sprof,
     mess_lsys_krn_sys_statectl, mess_lsys_krn_sys_stime, mess_lsys_krn_sys_times,
     mess_lsys_krn_sys_trace, mess_lsys_krn_sys_umap, mess_lsys_krn_sys_vdevio,
     mess_lsys_krn_sys_vumap, mess_lsys_kern_vsafecopy, mess_lsys_mib_register,
     mess_lsys_mib_reply, mess_lsys_pci_busc_get_bar, mess_lsys_pm_getepinfo,
     mess_lsys_pm_getprocnr, mess_lsys_pm_proceventmask, mess_lsys_pm_srv_fork,
     mess_lsys_sched_scheduling_start, mess_lsys_sched_scheduling_stop, mess_lsys_tty_fkey_ctl,
     mess_lsys_vfs_copyfd, mess_lsys_vfs_mapdriver, mess_lsys_vfs_socketpath,
     mess_lsys_vm_getref, mess_lsys_vm_info, mess_lsys_vm_map_phys, mess_lsys_vm_rusage,
     mess_lsys_vm_unmap_phys, mess_lsys_vm_update, mess_lsys_vm_vmremap, mess_mib_lc_sysctl,
     mess_mib_lsys_call, mess_mib_lsys_info, mess_mmap, mess_ndev_netdriver_init,
     mess_ndev_netdriver_conf, mess_ndev_netdriver_transfer, mess_ndev_netdriver_status_reply,
     mess_netdriver_ndev_init_reply, mess_netdriver_ndev_reply, mess_netdriver_ndev_status,
     mess_net_netdrv_dl_conf, mess_net_netdrv_dl_getstat_s, mess_net_netdrv_dl_readv_s,
     mess_net_netdrv_dl_writev_s, mess_netdrv_net_dl_conf, mess_netdrv_net_dl_task, mess_notify,
     mess_pci_lsys_busc_get_bar, mess_pm_lc_getgid, mess_pm_lc_getpid, mess_pm_lc_getuid,
     mess_pm_lc_ptrace, mess_pm_lc_sigset, mess_pm_lc_time, mess_pm_lc_wait4,
     mess_pm_lexec_exec_new, mess_pm_lsys_getepinfo, mess_pm_lsys_getprocnr,
     mess_pm_lsys_proc_event, mess_pm_lsys_sigs_signal, mess_pm_sched_scheduling_set_nice,
     mess_pty_ptyfs_req, mess_ptyfs_pty_name, mess_readclock_lc_rtcdev, mess_rs_init,
     mess_rs_pm_exec_restart, mess_rs_pm_srv_kill, mess_rs_req, mess_rs_update,
     mess_sched_lsys_scheduling_start, mess_sigcalls, mess_tty_lsys_fkey_ctl,
     mess_vfs_fs_breadwrite, mess_vfs_fs_chmod, mess_vfs_fs_chown, mess_vfs_fs_create,
     mess_vfs_fs_flush, mess_vfs_fs_ftrunc, mess_vfs_fs_getdents, mess_vfs_fs_inhibread,
     mess_vfs_fs_link, mess_vfs_fs_lookup, mess_vfs_fs_mkdir, mess_vfs_fs_mknod,
     mess_vfs_fs_mountpoint, mess_vfs_fs_new_driver, mess_vfs_fs_newnode, mess_vfs_fs_putnode,
     mess_vfs_fs_rdlink, mess_vfs_fs_readsuper, mess_vfs_fs_readwrite, mess_vfs_fs_rename,
     mess_vfs_fs_slink, mess_vfs_fs_stat, mess_vfs_fs_statvfs, mess_vfs_fs_unlink,
     mess_vfs_fs_utime, mess_vfs_lc_fdpair, mess_vfs_lc_lseek, mess_vfs_lc_socklen,
     mess_vfs_lchardriver_cancel, mess_vfs_lchardriver_openclose, mess_vfs_lchardriver_readwrite,
     mess_vfs_lchardriver_select, mess_vfs_lsockdriver_addr, mess_vfs_lsockdriver_getset,
     mess_vfs_lsockdriver_ioctl, mess_vfs_lsockdriver_select, mess_vfs_lsockdriver_sendrecv,
     mess_vfs_lsockdriver_simple, mess_vfs_lsockdriver_socket, mess_vfs_lsys_gcov,
     mess_vfs_lsys_socketpath, mess_vfs_utimens, mess_vm_vfs_mmap, mess_vmmcp, mess_vmmcp_reply]"

text \<open>The members of the anonymous union, in two parts.\<close>

definition message_members_1 :: fields where
  "message_members_1 =
    [(''m_u8'', Struct mess_u8), (''m_u16'', Struct mess_u16), (''m_u32'', Struct mess_u32),
     (''m_u64'', Struct mess_u64), (''m_m1'', Struct mess_1), (''m_m2'', Struct mess_2),
     (''m_m3'', Struct mess_3), (''m_m4'', Struct mess_4), (''m_m7'', Struct mess_7),
     (''m_m9'', Struct mess_9), (''m_m10'', Struct mess_10),
     (''m_ds_reply'', Struct mess_ds_reply), (''m_ds_req'', Struct mess_ds_req),
     (''m_fs_vfs_breadwrite'', Struct mess_fs_vfs_breadwrite),
     (''m_fs_vfs_chmod'', Struct mess_fs_vfs_chmod),
     (''m_fs_vfs_chown'', Struct mess_fs_vfs_chown),
     (''m_fs_vfs_create'', Struct mess_fs_vfs_create),
     (''m_fs_vfs_getdents'', Struct mess_fs_vfs_getdents),
     (''m_fs_vfs_lookup'', Struct mess_fs_vfs_lookup),
     (''m_fs_vfs_newnode'', Struct mess_fs_vfs_newnode),
     (''m_fs_vfs_rdlink'', Struct mess_fs_vfs_rdlink),
     (''m_fs_vfs_readsuper'', Struct mess_fs_vfs_readsuper),
     (''m_fs_vfs_readwrite'', Struct mess_fs_vfs_readwrite),
     (''m_i2c_li2cdriver_busc_i2c_exec'', Struct mess_i2c_li2cdriver_busc_i2c_exec),
     (''m_i2c_li2cdriver_busc_i2c_reserve'', Struct mess_i2c_li2cdriver_busc_i2c_reserve),
     (''m_input_linputdriver_input_conf'', Struct mess_input_linputdriver_input_conf),
     (''m_input_linputdriver_setleds'', Struct mess_input_linputdriver_setleds),
     (''m_input_tty_event'', Struct mess_input_tty_event),
     (''m_krn_lsys_schedule'', Struct mess_krn_lsys_schedule),
     (''m_krn_lsys_sys_devio'', Struct mess_krn_lsys_sys_devio),
     (''m_krn_lsys_sys_fork'', Struct mess_krn_lsys_sys_fork),
     (''m_krn_lsys_sys_getwhoami'', Struct mess_krn_lsys_sys_getwhoami),
     (''m_krn_lsys_sys_irqctl'', Struct mess_krn_lsys_sys_irqctl),
     (''m_krn_lsys_sys_times'', Struct mess_krn_lsys_sys_times),
     (''m_krn_lsys_sys_trace'', Struct mess_krn_lsys_sys_trace),
     (''m_krn_lsys_sys_umap'', Struct mess_krn_lsys_sys_umap),
     (''m_krn_lsys_sys_vumap'', Struct mess_krn_lsys_sys_vumap),
     (''m_lbdev_lblockdriver_msg'', Struct mess_lbdev_lblockdriver_msg),
     (''m_lblockdriver_lbdev_reply'', Struct mess_lblockdriver_lbdev_reply),
     (''m_lc_ipc_semctl'', Struct mess_lc_ipc_semctl),
     (''m_lc_ipc_semget'', Struct mess_lc_ipc_semget),
     (''m_lc_ipc_semop'', Struct mess_lc_ipc_semop),
     (''m_lc_ipc_shmat'', Struct mess_lc_ipc_shmat),
     (''m_lc_ipc_shmctl'', Struct mess_lc_ipc_shmctl),
     (''m_lc_ipc_shmdt'', Struct mess_lc_ipc_shmdt),
     (''m_lc_ipc_shmget'', Struct mess_lc_ipc_shmget),
     (''m_lc_mib_sysctl'', Struct mess_lc_mib_sysctl),
     (''m_lc_pm_exec'', Struct mess_lc_pm_exec), (''m_lc_pm_exit'', Struct mess_lc_pm_exit),
     (''m_lc_pm_getsid'', Struct mess_lc_pm_getsid),
     (''m_lc_pm_groups'', Struct mess_lc_pm_groups),
     (''m_lc_pm_itimer'', Struct mess_lc_pm_itimer),
     (''m_lc_pm_mcontext'', Struct mess_lc_pm_mcontext),
     (''m_lc_pm_priority'', Struct mess_lc_pm_priority),
     (''m_lc_pm_ptrace'', Struct mess_lc_pm_ptrace),
     (''m_lc_pm_reboot'', Struct mess_lc_pm_reboot),
     (''m_lc_pm_rusage'', Struct mess_lc_pm_rusage),
     (''m_lc_pm_setgid'', Struct mess_lc_pm_setgid),
     (''m_lc_pm_setuid'', Struct mess_lc_pm_setuid), (''m_lc_pm_sig'', Struct mess_lc_pm_sig),
     (''m_lc_pm_sigset'', Struct mess_lc_pm_sigset),
     (''m_lc_pm_sprof'', Struct mess_lc_pm_sprof),
     (''m_lc_pm_sysuname'', Struct mess_lc_pm_sysuname),
     (''m_lc_pm_time'', Struct mess_lc_pm_time), (''m_lc_pm_wait4'', Struct mess_lc_pm_wait4),
     (''m_lc_readclock_rtcdev'', Struct mess_lc_readclock_rtcdev),
     (''m_lc_svrctl'', Struct mess_lc_svrctl), (''m_lc_vfs_chown'', Struct mess_lc_vfs_chown),
     (''m_lc_vfs_close'', Struct mess_lc_vfs_close),
     (''m_lc_vfs_creat'', Struct mess_lc_vfs_creat),
     (''m_lc_vfs_fchdir'', Struct mess_lc_vfs_fchdir),
     (''m_lc_vfs_fchmod'', Struct mess_lc_vfs_fchmod),
     (''m_lc_vfs_fcntl'', Struct mess_lc_vfs_fcntl),
     (''m_lc_vfs_fstat'', Struct mess_lc_vfs_fstat),
     (''m_lc_vfs_fsync'', Struct mess_lc_vfs_fsync),
     (''m_lc_vfs_gcov'', Struct mess_lc_vfs_gcov),
     (''m_lc_vfs_getvfsstat'', Struct mess_lc_vfs_getvfsstat),
     (''m_lc_vfs_ioctl'', Struct mess_lc_vfs_ioctl),
     (''m_lc_vfs_link'', Struct mess_lc_vfs_link),
     (''m_lc_vfs_listen'', Struct mess_lc_vfs_listen),
     (''m_lc_vfs_lseek'', Struct mess_lc_vfs_lseek),
     (''m_lc_vfs_mknod'', Struct mess_lc_vfs_mknod),
     (''m_lc_vfs_mount'', Struct mess_lc_vfs_mount),
     (''m_lc_vfs_path'', Struct mess_lc_vfs_path),
     (''m_lc_vfs_pipe2'', Struct mess_lc_vfs_pipe2),
     (''m_lc_vfs_readlink'', Struct mess_lc_vfs_readlink),
     (''m_lc_vfs_readwrite'', Struct mess_lc_vfs_readwrite),
     (''m_lc_vfs_select'', Struct mess_lc_vfs_select),
     (''m_lc_vfs_sendrecv'', Struct mess_lc_vfs_sendrecv),
     (''m_lc_vfs_shutdown'', Struct mess_lc_vfs_shutdown),
     (''m_lc_vfs_sockaddr'', Struct mess_lc_vfs_sockaddr),
     (''m_lc_vfs_socket'', Struct mess_lc_vfs_socket),
     (''m_lc_vfs_sockmsg'', Struct mess_lc_vfs_sockmsg),
     (''m_lc_vfs_sockopt'', Struct mess_lc_vfs_sockopt),
     (''m_lc_vfs_stat'', Struct mess_lc_vfs_stat),
     (''m_lc_vfs_statvfs1'', Struct mess_lc_vfs_statvfs1),
     (''m_lc_vfs_truncate'', Struct mess_lc_vfs_truncate),
     (''m_lc_vfs_umask'', Struct mess_lc_vfs_umask),
     (''m_lc_vfs_umount'', Struct mess_lc_vfs_umount), (''m_lc_vm_brk'', Struct mess_lc_vm_brk),
     (''m_lc_vm_getphys'', Struct mess_lc_vm_getphys),
     (''m_lc_vm_shm_unmap'', Struct mess_lc_vm_shm_unmap),
     (''m_lchardriver_vfs_reply'', Struct mess_lchardriver_vfs_reply),
     (''m_lchardriver_vfs_sel1'', Struct mess_lchardriver_vfs_sel1),
     (''m_lchardriver_vfs_sel2'', Struct mess_lchardriver_vfs_sel2),
     (''m_lexec_pm_exec_new'', Struct mess_lexec_pm_exec_new),
     (''m_li2cdriver_i2c_busc_i2c_exec'', Struct mess_li2cdriver_i2c_busc_i2c_exec),
     (''m_li2cdriver_i2c_busc_i2c_reserve'', Struct mess_li2cdriver_i2c_busc_i2c_reserve),
     (''m_linputdriver_input_event'', Struct mess_linputdriver_input_event),
     (''m_lsockdriver_vfs_accept_reply'', Struct mess_lsockdriver_vfs_accept_reply),
     (''m_lsockdriver_vfs_recv_reply'', Struct mess_lsockdriver_vfs_recv_reply),
     (''m_lsockdriver_vfs_reply'', Struct mess_lsockdriver_vfs_reply),
     (''m_lsockdriver_vfs_select_reply'', Struct mess_lsockdriver_vfs_select_reply),
     (''m_lsockdriver_vfs_socket_reply'', Struct mess_lsockdriver_vfs_socket_reply),
     (''m_lsys_fi_ctl'', Struct mess_lsys_fi_ctl),
     (''m_lsys_fi_reply'', Struct mess_lsys_fi_reply),
     (''m_lsys_getsysinfo'', Struct mess_lsys_getsysinfo),
     (''m_lsys_krn_readbios'', Struct mess_lsys_krn_readbios),
     (''m_lsys_kern_safecopy'', Struct mess_lsys_kern_safecopy),
     (''m_lsys_krn_schedctl'', Struct mess_lsys_krn_schedctl),
     (''m_lsys_krn_schedule'', Struct mess_lsys_krn_schedule),
     (''m_lsys_krn_sys_abort'', Struct mess_lsys_krn_sys_abort),
     (''m_lsys_krn_sys_clear'', Struct mess_lsys_krn_sys_clear),
     (''m_lsys_krn_sys_copy'', Struct mess_lsys_krn_sys_copy),
     (''m_lsys_krn_sys_devio'', Struct mess_lsys_krn_sys_devio),
     (''m_lsys_krn_sys_diagctl'', Struct mess_lsys_krn_sys_diagctl),
     (''m_lsys_krn_sys_exec'', Struct mess_lsys_krn_sys_exec),
     (''m_lsys_krn_sys_fork'', Struct mess_lsys_krn_sys_fork),
     (''m_lsys_krn_sys_getinfo'', Struct mess_lsys_krn_sys_getinfo),
     (''m_lsys_krn_sys_getmcontext'', Struct mess_lsys_krn_sys_getmcontext),
     (''m_lsys_krn_sys_iopenable'', Struct mess_lsys_krn_sys_iopenable),
     (''m_lsys_krn_sys_irqctl'', Struct mess_lsys_krn_sys_irqctl),
     (''m_lsys_krn_sys_memset'', Struct mess_lsys_krn_sys_memset)]"

definition message_members_2 :: fields where
  "message_members_2 =
    [(''m_lsys_krn_sys_privctl'', Struct mess_lsys_krn_sys_privctl),
     (''m_lsys_krn_sys_sdevio'', Struct mess_lsys_krn_sys_sdevio),
     (''m_lsys_krn_sys_setalarm'', Struct mess_lsys_krn_sys_setalarm),
     (''m_lsys_krn_sys_setgrant'', Struct mess_lsys_krn_sys_setgrant),
     (''m_lsys_krn_sys_setmcontext'', Struct mess_lsys_krn_sys_setmcontext),
     (''m_lsys_krn_sys_settime'', Struct mess_lsys_krn_sys_settime),
     (''m_lsys_krn_sys_sprof'', Struct mess_lsys_krn_sys_sprof),
     (''m_lsys_krn_sys_statectl'', Struct mess_lsys_krn_sys_statectl),
     (''m_lsys_krn_sys_stime'', Struct mess_lsys_krn_sys_stime),
     (''m_lsys_krn_sys_times'', Struct mess_lsys_krn_sys_times),
     (''m_lsys_krn_sys_trace'', Struct mess_lsys_krn_sys_trace),
     (''m_lsys_krn_sys_umap'', Struct mess_lsys_krn_sys_umap),
     (''m_lsys_krn_sys_vdevio'', Struct mess_lsys_krn_sys_vdevio),
     (''m_lsys_krn_sys_vumap'', Struct mess_lsys_krn_sys_vumap),
     (''m_lsys_kern_vsafecopy'', Struct mess_lsys_kern_vsafecopy),
     (''m_lsys_mib_register'', Struct mess_lsys_mib_register),
     (''m_lsys_mib_reply'', Struct mess_lsys_mib_reply),
     (''m_lsys_pci_busc_get_bar'', Struct mess_lsys_pci_busc_get_bar),
     (''m_lsys_pm_getepinfo'', Struct mess_lsys_pm_getepinfo),
     (''m_lsys_pm_getprocnr'', Struct mess_lsys_pm_getprocnr),
     (''m_lsys_pm_proceventmask'', Struct mess_lsys_pm_proceventmask),
     (''m_lsys_pm_srv_fork'', Struct mess_lsys_pm_srv_fork),
     (''m_lsys_sched_scheduling_start'', Struct mess_lsys_sched_scheduling_start),
     (''m_lsys_sched_scheduling_stop'', Struct mess_lsys_sched_scheduling_stop),
     (''m_lsys_tty_fkey_ctl'', Struct mess_lsys_tty_fkey_ctl),
     (''m_lsys_vfs_copyfd'', Struct mess_lsys_vfs_copyfd),
     (''m_lsys_vfs_mapdriver'', Struct mess_lsys_vfs_mapdriver),
     (''m_lsys_vfs_socketpath'', Struct mess_lsys_vfs_socketpath),
     (''m_lsys_vm_getref'', Struct mess_lsys_vm_getref),
     (''m_lsys_vm_info'', Struct mess_lsys_vm_info),
     (''m_lsys_vm_map_phys'', Struct mess_lsys_vm_map_phys),
     (''m_lsys_vm_rusage'', Struct mess_lsys_vm_rusage),
     (''m_lsys_vm_unmap_phys'', Struct mess_lsys_vm_unmap_phys),
     (''m_lsys_vm_update'', Struct mess_lsys_vm_update),
     (''m_lsys_vm_vmremap'', Struct mess_lsys_vm_vmremap),
     (''m_mib_lc_sysctl'', Struct mess_mib_lc_sysctl),
     (''m_mib_lsys_call'', Struct mess_mib_lsys_call),
     (''m_mib_lsys_info'', Struct mess_mib_lsys_info), (''m_mmap'', Struct mess_mmap),
     (''m_ndev_netdriver_init'', Struct mess_ndev_netdriver_init),
     (''m_ndev_netdriver_conf'', Struct mess_ndev_netdriver_conf),
     (''m_ndev_netdriver_transfer'', Struct mess_ndev_netdriver_transfer),
     (''m_ndev_netdriver_status_reply'', Struct mess_ndev_netdriver_status_reply),
     (''m_netdriver_ndev_init_reply'', Struct mess_netdriver_ndev_init_reply),
     (''m_netdriver_ndev_reply'', Struct mess_netdriver_ndev_reply),
     (''m_netdriver_ndev_status'', Struct mess_netdriver_ndev_status),
     (''m_net_netdrv_dl_conf'', Struct mess_net_netdrv_dl_conf),
     (''m_net_netdrv_dl_getstat_s'', Struct mess_net_netdrv_dl_getstat_s),
     (''m_net_netdrv_dl_readv_s'', Struct mess_net_netdrv_dl_readv_s),
     (''m_net_netdrv_dl_writev_s'', Struct mess_net_netdrv_dl_writev_s),
     (''m_netdrv_net_dl_conf'', Struct mess_netdrv_net_dl_conf),
     (''m_netdrv_net_dl_task'', Struct mess_netdrv_net_dl_task),
     (''m_notify'', Struct mess_notify),
     (''m_pci_lsys_busc_get_bar'', Struct mess_pci_lsys_busc_get_bar),
     (''m_pm_lc_getgid'', Struct mess_pm_lc_getgid),
     (''m_pm_lc_getpid'', Struct mess_pm_lc_getpid),
     (''m_pm_lc_getuid'', Struct mess_pm_lc_getuid),
     (''m_pm_lc_ptrace'', Struct mess_pm_lc_ptrace),
     (''m_pm_lc_sigset'', Struct mess_pm_lc_sigset), (''m_pm_lc_time'', Struct mess_pm_lc_time),
     (''m_pm_lc_wait4'', Struct mess_pm_lc_wait4),
     (''m_pm_lexec_exec_new'', Struct mess_pm_lexec_exec_new),
     (''m_pm_lsys_getepinfo'', Struct mess_pm_lsys_getepinfo),
     (''m_pm_lsys_getprocnr'', Struct mess_pm_lsys_getprocnr),
     (''m_pm_lsys_proc_event'', Struct mess_pm_lsys_proc_event),
     (''m_pm_lsys_sigs_signal'', Struct mess_pm_lsys_sigs_signal),
     (''m_pm_sched_scheduling_set_nice'', Struct mess_pm_sched_scheduling_set_nice),
     (''m_pty_ptyfs_req'', Struct mess_pty_ptyfs_req),
     (''m_ptyfs_pty_name'', Struct mess_ptyfs_pty_name),
     (''m_readclock_lc_rtcdev'', Struct mess_readclock_lc_rtcdev),
     (''m_rs_init'', Struct mess_rs_init),
     (''m_rs_pm_exec_restart'', Struct mess_rs_pm_exec_restart),
     (''m_rs_pm_srv_kill'', Struct mess_rs_pm_srv_kill), (''m_rs_req'', Struct mess_rs_req),
     (''m_rs_update'', Struct mess_rs_update),
     (''m_sched_lsys_scheduling_start'', Struct mess_sched_lsys_scheduling_start),
     (''m_sigcalls'', Struct mess_sigcalls),
     (''m_tty_lsys_fkey_ctl'', Struct mess_tty_lsys_fkey_ctl),
     (''m_vfs_fs_breadwrite'', Struct mess_vfs_fs_breadwrite),
     (''m_vfs_fs_chmod'', Struct mess_vfs_fs_chmod),
     (''m_vfs_fs_chown'', Struct mess_vfs_fs_chown),
     (''m_vfs_fs_create'', Struct mess_vfs_fs_create),
     (''m_vfs_fs_flush'', Struct mess_vfs_fs_flush),
     (''m_vfs_fs_ftrunc'', Struct mess_vfs_fs_ftrunc),
     (''m_vfs_fs_getdents'', Struct mess_vfs_fs_getdents),
     (''m_vfs_fs_inhibread'', Struct mess_vfs_fs_inhibread),
     (''m_vfs_fs_link'', Struct mess_vfs_fs_link),
     (''m_vfs_fs_lookup'', Struct mess_vfs_fs_lookup),
     (''m_vfs_fs_mkdir'', Struct mess_vfs_fs_mkdir),
     (''m_vfs_fs_mknod'', Struct mess_vfs_fs_mknod),
     (''m_vfs_fs_mountpoint'', Struct mess_vfs_fs_mountpoint),
     (''m_vfs_fs_new_driver'', Struct mess_vfs_fs_new_driver),
     (''m_vfs_fs_newnode'', Struct mess_vfs_fs_newnode),
     (''m_vfs_fs_putnode'', Struct mess_vfs_fs_putnode),
     (''m_vfs_fs_rdlink'', Struct mess_vfs_fs_rdlink),
     (''m_vfs_fs_readsuper'', Struct mess_vfs_fs_readsuper),
     (''m_vfs_fs_readwrite'', Struct mess_vfs_fs_readwrite),
     (''m_vfs_fs_rename'', Struct mess_vfs_fs_rename),
     (''m_vfs_fs_slink'', Struct mess_vfs_fs_slink),
     (''m_vfs_fs_stat'', Struct mess_vfs_fs_stat),
     (''m_vfs_fs_statvfs'', Struct mess_vfs_fs_statvfs),
     (''m_vfs_fs_unlink'', Struct mess_vfs_fs_unlink),
     (''m_vfs_fs_utime'', Struct mess_vfs_fs_utime),
     (''m_vfs_lc_fdpair'', Struct mess_vfs_lc_fdpair),
     (''m_vfs_lc_lseek'', Struct mess_vfs_lc_lseek),
     (''m_vfs_lc_socklen'', Struct mess_vfs_lc_socklen),
     (''m_vfs_lchardriver_cancel'', Struct mess_vfs_lchardriver_cancel),
     (''m_vfs_lchardriver_openclose'', Struct mess_vfs_lchardriver_openclose),
     (''m_vfs_lchardriver_readwrite'', Struct mess_vfs_lchardriver_readwrite),
     (''m_vfs_lchardriver_select'', Struct mess_vfs_lchardriver_select),
     (''m_vfs_lsockdriver_addr'', Struct mess_vfs_lsockdriver_addr),
     (''m_vfs_lsockdriver_getset'', Struct mess_vfs_lsockdriver_getset),
     (''m_vfs_lsockdriver_ioctl'', Struct mess_vfs_lsockdriver_ioctl),
     (''m_vfs_lsockdriver_select'', Struct mess_vfs_lsockdriver_select),
     (''m_vfs_lsockdriver_sendrecv'', Struct mess_vfs_lsockdriver_sendrecv),
     (''m_vfs_lsockdriver_simple'', Struct mess_vfs_lsockdriver_simple),
     (''m_vfs_lsockdriver_socket'', Struct mess_vfs_lsockdriver_socket),
     (''m_vfs_lsys_gcov'', Struct mess_vfs_lsys_gcov),
     (''m_vfs_lsys_socketpath'', Struct mess_vfs_lsys_socketpath),
     (''m_vfs_utimens'', Struct mess_vfs_utimens), (''m_vm_vfs_mmap'', Struct mess_vm_vfs_mmap),
     (''m_vmmcp'', Struct mess_vmmcp), (''m_vmmcp_reply'', Struct mess_vmmcp_reply),
     (''size'', Arr 56 u8_t)]"

definition message_fields :: fields where
  "message_fields = [(''m_source'', endpoint_t), (''m_type'', c_int),
     ('''', Union (message_members_1 @ message_members_2))]"

definition message_t :: ctype where
  "message_t = Aligned 16 (Struct message_fields)"

definition asynmsg_t :: fields where
  "asynmsg_t = [(''flags'', c_unsigned), (''dst'', endpoint_t), (''result'', c_int), (''msg'', message_t)]"


text \<open>The names for the members of the generic payloads.\<close>

definition member_names :: "(string \<times> string \<times> string) list" where
  "member_names =
    [(''m1_i1'', ''m_m1'', ''m1i1''), (''m1_i2'', ''m_m1'', ''m1i2''),
     (''m1_i3'', ''m_m1'', ''m1i3''), (''m1_p1'', ''m_m1'', ''m1p1''),
     (''m1_p2'', ''m_m1'', ''m1p2''), (''m1_p3'', ''m_m1'', ''m1p3''),
     (''m1_p4'', ''m_m1'', ''m1p4''), (''m1_ull1'', ''m_m1'', ''m1ull1''),
     (''m2_ll1'', ''m_m2'', ''m2ll1''), (''m2_i1'', ''m_m2'', ''m2i1''),
     (''m2_i2'', ''m_m2'', ''m2i2''), (''m2_i3'', ''m_m2'', ''m2i3''),
     (''m2_l1'', ''m_m2'', ''m2l1''), (''m2_l2'', ''m_m2'', ''m2l2''),
     (''m2_p1'', ''m_m2'', ''m2p1''), (''m2_sigset'', ''m_m2'', ''sigset''),
     (''m2_s1'', ''m_m2'', ''m2s1''), (''m3_i1'', ''m_m3'', ''m3i1''),
     (''m3_i2'', ''m_m3'', ''m3i2''), (''m3_p1'', ''m_m3'', ''m3p1''),
     (''m3_ca1'', ''m_m3'', ''m3ca1''), (''m4_ll1'', ''m_m4'', ''m4ll1''),
     (''m4_l1'', ''m_m4'', ''m4l1''), (''m4_l2'', ''m_m4'', ''m4l2''),
     (''m4_l3'', ''m_m4'', ''m4l3''), (''m4_l4'', ''m_m4'', ''m4l4''),
     (''m4_l5'', ''m_m4'', ''m4l5''), (''m7_i1'', ''m_m7'', ''m7i1''),
     (''m7_i2'', ''m_m7'', ''m7i2''), (''m7_i3'', ''m_m7'', ''m7i3''),
     (''m7_i4'', ''m_m7'', ''m7i4''), (''m7_i5'', ''m_m7'', ''m7i5''),
     (''m7_p1'', ''m_m7'', ''m7p1''), (''m7_p2'', ''m_m7'', ''m7p2''),
     (''m9_l1'', ''m_m9'', ''m9l1''), (''m9_l2'', ''m_m9'', ''m9l2''),
     (''m9_l3'', ''m_m9'', ''m9l3''), (''m9_l4'', ''m_m9'', ''m9l4''),
     (''m9_l5'', ''m_m9'', ''m9l5''), (''m9_s1'', ''m_m9'', ''m9s1''),
     (''m9_s2'', ''m_m9'', ''m9s2''), (''m9_s3'', ''m_m9'', ''m9s3''),
     (''m9_s4'', ''m_m9'', ''m9s4''), (''m9_ull1'', ''m_m9'', ''m9ull1''),
     (''m9_ull2'', ''m_m9'', ''m9ull2''), (''m10_i1'', ''m_m10'', ''m10i1''),
     (''m10_i2'', ''m_m10'', ''m10i2''), (''m10_i3'', ''m_m10'', ''m10i3''),
     (''m10_i4'', ''m_m10'', ''m10i4''), (''m10_l1'', ''m_m10'', ''m10l1''),
     (''m10_l2'', ''m_m10'', ''m10l2''),
     (''m10_l3'', ''m_m10'', ''m10l3''), (''m10_ull1'', ''m_m10'', ''m10ull1'')]"


section \<open>Properties\<close>

lemmas payload_defs =
  mess_u8_def mess_u16_def mess_u32_def mess_u64_def mess_1_def mess_2_def mess_3_def mess_4_def
  mess_7_def mess_9_def mess_10_def mess_ds_reply_def mess_ds_req_def mess_fs_vfs_breadwrite_def
  mess_fs_vfs_chmod_def mess_fs_vfs_chown_def mess_fs_vfs_create_def mess_fs_vfs_getdents_def
  mess_fs_vfs_lookup_def mess_fs_vfs_newnode_def mess_fs_vfs_rdlink_def mess_fs_vfs_readsuper_def
  mess_fs_vfs_readwrite_def mess_i2c_li2cdriver_busc_i2c_exec_def
  mess_i2c_li2cdriver_busc_i2c_reserve_def mess_input_linputdriver_input_conf_def
  mess_input_linputdriver_setleds_def mess_input_tty_event_def mess_krn_lsys_schedule_def
  mess_krn_lsys_sys_devio_def mess_krn_lsys_sys_fork_def mess_krn_lsys_sys_getwhoami_def
  mess_krn_lsys_sys_irqctl_def mess_krn_lsys_sys_times_def mess_krn_lsys_sys_trace_def
  mess_krn_lsys_sys_umap_def mess_krn_lsys_sys_vumap_def mess_lbdev_lblockdriver_msg_def
  mess_lblockdriver_lbdev_reply_def mess_lc_ipc_semctl_def mess_lc_ipc_semget_def
  mess_lc_ipc_semop_def mess_lc_ipc_shmat_def mess_lc_ipc_shmctl_def mess_lc_ipc_shmdt_def
  mess_lc_ipc_shmget_def mess_lc_mib_sysctl_def mess_lc_pm_exec_def mess_lc_pm_exit_def
  mess_lc_pm_getsid_def mess_lc_pm_groups_def mess_lc_pm_itimer_def mess_lc_pm_mcontext_def
  mess_lc_pm_priority_def mess_lc_pm_ptrace_def mess_lc_pm_reboot_def mess_lc_pm_rusage_def
  mess_lc_pm_setgid_def mess_lc_pm_setuid_def mess_lc_pm_sig_def mess_lc_pm_sigset_def
  mess_lc_pm_sprof_def mess_lc_pm_sysuname_def mess_lc_pm_time_def mess_lc_pm_wait4_def
  mess_lc_readclock_rtcdev_def mess_lc_svrctl_def mess_lc_vfs_chown_def mess_lc_vfs_close_def
  mess_lc_vfs_creat_def mess_lc_vfs_fchdir_def mess_lc_vfs_fchmod_def mess_lc_vfs_fcntl_def
  mess_lc_vfs_fstat_def mess_lc_vfs_fsync_def mess_lc_vfs_gcov_def mess_lc_vfs_getvfsstat_def
  mess_lc_vfs_ioctl_def mess_lc_vfs_link_def mess_lc_vfs_listen_def mess_lc_vfs_lseek_def
  mess_lc_vfs_mknod_def mess_lc_vfs_mount_def mess_lc_vfs_path_def mess_lc_vfs_pipe2_def
  mess_lc_vfs_readlink_def mess_lc_vfs_readwrite_def mess_lc_vfs_select_def
  mess_lc_vfs_sendrecv_def mess_lc_vfs_shutdown_def mess_lc_vfs_sockaddr_def
  mess_lc_vfs_socket_def mess_lc_vfs_sockmsg_def mess_lc_vfs_sockopt_def mess_lc_vfs_stat_def
  mess_lc_vfs_statvfs1_def mess_lc_vfs_truncate_def mess_lc_vfs_umask_def mess_lc_vfs_umount_def
  mess_lc_vm_brk_def mess_lc_vm_getphys_def mess_lc_vm_shm_unmap_def
  mess_lchardriver_vfs_reply_def mess_lchardriver_vfs_sel1_def mess_lchardriver_vfs_sel2_def
  mess_lexec_pm_exec_new_def mess_li2cdriver_i2c_busc_i2c_exec_def
  mess_li2cdriver_i2c_busc_i2c_reserve_def mess_linputdriver_input_event_def
  mess_lsockdriver_vfs_accept_reply_def mess_lsockdriver_vfs_recv_reply_def
  mess_lsockdriver_vfs_reply_def mess_lsockdriver_vfs_select_reply_def
  mess_lsockdriver_vfs_socket_reply_def mess_lsys_fi_ctl_def mess_lsys_fi_reply_def
  mess_lsys_getsysinfo_def mess_lsys_krn_readbios_def mess_lsys_kern_safecopy_def
  mess_lsys_krn_schedctl_def mess_lsys_krn_schedule_def mess_lsys_krn_sys_abort_def
  mess_lsys_krn_sys_clear_def mess_lsys_krn_sys_copy_def mess_lsys_krn_sys_devio_def
  mess_lsys_krn_sys_diagctl_def mess_lsys_krn_sys_exec_def mess_lsys_krn_sys_fork_def
  mess_lsys_krn_sys_getinfo_def mess_lsys_krn_sys_getmcontext_def mess_lsys_krn_sys_iopenable_def
  mess_lsys_krn_sys_irqctl_def mess_lsys_krn_sys_memset_def mess_lsys_krn_sys_privctl_def
  mess_lsys_krn_sys_sdevio_def mess_lsys_krn_sys_setalarm_def mess_lsys_krn_sys_setgrant_def
  mess_lsys_krn_sys_setmcontext_def mess_lsys_krn_sys_settime_def mess_lsys_krn_sys_sprof_def
  mess_lsys_krn_sys_statectl_def mess_lsys_krn_sys_stime_def mess_lsys_krn_sys_times_def
  mess_lsys_krn_sys_trace_def mess_lsys_krn_sys_umap_def mess_lsys_krn_sys_vdevio_def
  mess_lsys_krn_sys_vumap_def mess_lsys_kern_vsafecopy_def mess_lsys_mib_register_def
  mess_lsys_mib_reply_def mess_lsys_pci_busc_get_bar_def mess_lsys_pm_getepinfo_def
  mess_lsys_pm_getprocnr_def mess_lsys_pm_proceventmask_def mess_lsys_pm_srv_fork_def
  mess_lsys_sched_scheduling_start_def mess_lsys_sched_scheduling_stop_def
  mess_lsys_tty_fkey_ctl_def mess_lsys_vfs_copyfd_def mess_lsys_vfs_mapdriver_def
  mess_lsys_vfs_socketpath_def mess_lsys_vm_getref_def mess_lsys_vm_info_def
  mess_lsys_vm_map_phys_def mess_lsys_vm_rusage_def mess_lsys_vm_unmap_phys_def
  mess_lsys_vm_update_def mess_lsys_vm_vmremap_def mess_mib_lc_sysctl_def mess_mib_lsys_call_def
  mess_mib_lsys_info_def mess_mmap_def mess_ndev_netdriver_init_def mess_ndev_netdriver_conf_def
  mess_ndev_netdriver_transfer_def mess_ndev_netdriver_status_reply_def
  mess_netdriver_ndev_init_reply_def mess_netdriver_ndev_reply_def mess_netdriver_ndev_status_def
  mess_net_netdrv_dl_conf_def mess_net_netdrv_dl_getstat_s_def mess_net_netdrv_dl_readv_s_def
  mess_net_netdrv_dl_writev_s_def mess_netdrv_net_dl_conf_def mess_netdrv_net_dl_task_def
  mess_notify_def mess_pci_lsys_busc_get_bar_def mess_pm_lc_getgid_def mess_pm_lc_getpid_def
  mess_pm_lc_getuid_def mess_pm_lc_ptrace_def mess_pm_lc_sigset_def mess_pm_lc_time_def
  mess_pm_lc_wait4_def mess_pm_lexec_exec_new_def mess_pm_lsys_getepinfo_def
  mess_pm_lsys_getprocnr_def mess_pm_lsys_proc_event_def mess_pm_lsys_sigs_signal_def
  mess_pm_sched_scheduling_set_nice_def mess_pty_ptyfs_req_def mess_ptyfs_pty_name_def
  mess_readclock_lc_rtcdev_def mess_rs_init_def mess_rs_pm_exec_restart_def
  mess_rs_pm_srv_kill_def mess_rs_req_def mess_rs_update_def mess_sched_lsys_scheduling_start_def
  mess_sigcalls_def mess_tty_lsys_fkey_ctl_def mess_vfs_fs_breadwrite_def mess_vfs_fs_chmod_def
  mess_vfs_fs_chown_def mess_vfs_fs_create_def mess_vfs_fs_flush_def mess_vfs_fs_ftrunc_def
  mess_vfs_fs_getdents_def mess_vfs_fs_inhibread_def mess_vfs_fs_link_def mess_vfs_fs_lookup_def
  mess_vfs_fs_mkdir_def mess_vfs_fs_mknod_def mess_vfs_fs_mountpoint_def
  mess_vfs_fs_new_driver_def mess_vfs_fs_newnode_def mess_vfs_fs_putnode_def
  mess_vfs_fs_rdlink_def mess_vfs_fs_readsuper_def mess_vfs_fs_readwrite_def
  mess_vfs_fs_rename_def mess_vfs_fs_slink_def mess_vfs_fs_stat_def mess_vfs_fs_statvfs_def
  mess_vfs_fs_unlink_def mess_vfs_fs_utime_def mess_vfs_lc_fdpair_def mess_vfs_lc_lseek_def
  mess_vfs_lc_socklen_def mess_vfs_lchardriver_cancel_def mess_vfs_lchardriver_openclose_def
  mess_vfs_lchardriver_readwrite_def mess_vfs_lchardriver_select_def
  mess_vfs_lsockdriver_addr_def mess_vfs_lsockdriver_getset_def mess_vfs_lsockdriver_ioctl_def
  mess_vfs_lsockdriver_select_def mess_vfs_lsockdriver_sendrecv_def
  mess_vfs_lsockdriver_simple_def mess_vfs_lsockdriver_socket_def mess_vfs_lsys_gcov_def
  mess_vfs_lsys_socketpath_def mess_vfs_utimens_def mess_vm_vfs_mmap_def mess_vmmcp_def
  mess_vmmcp_reply_def

text \<open>Every payload has the size the header asserts (\<open>_ASSERT_MSG_SIZE\<close>).\<close>

lemma payload_56:
  "csize (Struct mess_u8) = 56"
  "csize (Struct mess_u16) = 56"
  "csize (Struct mess_u32) = 56"
  "csize (Struct mess_u64) = 56"
  "csize (Struct mess_1) = 56"
  "csize (Struct mess_2) = 56"
  "csize (Struct mess_3) = 56"
  "csize (Struct mess_4) = 56"
  "csize (Struct mess_7) = 56"
  "csize (Struct mess_9) = 56"
  "csize (Struct mess_10) = 56"
  "csize (Struct mess_ds_reply) = 56"
  "csize (Struct mess_ds_req) = 56"
  "csize (Struct mess_fs_vfs_breadwrite) = 56"
  "csize (Struct mess_fs_vfs_chmod) = 56"
  "csize (Struct mess_fs_vfs_chown) = 56"
  "csize (Struct mess_fs_vfs_create) = 56"
  "csize (Struct mess_fs_vfs_getdents) = 56"
  "csize (Struct mess_fs_vfs_lookup) = 56"
  "csize (Struct mess_fs_vfs_newnode) = 56"
  "csize (Struct mess_fs_vfs_rdlink) = 56"
  "csize (Struct mess_fs_vfs_readsuper) = 56"
  "csize (Struct mess_fs_vfs_readwrite) = 56"
  "csize (Struct mess_i2c_li2cdriver_busc_i2c_exec) = 56"
  "csize (Struct mess_i2c_li2cdriver_busc_i2c_reserve) = 56"
  "csize (Struct mess_input_linputdriver_input_conf) = 56"
  "csize (Struct mess_input_linputdriver_setleds) = 56"
  "csize (Struct mess_input_tty_event) = 56"
  "csize (Struct mess_krn_lsys_schedule) = 56"
  "csize (Struct mess_krn_lsys_sys_devio) = 56"
  "csize (Struct mess_krn_lsys_sys_fork) = 56"
  "csize (Struct mess_krn_lsys_sys_getwhoami) = 56"
  "csize (Struct mess_krn_lsys_sys_irqctl) = 56"
  "csize (Struct mess_krn_lsys_sys_times) = 56"
  "csize (Struct mess_krn_lsys_sys_trace) = 56"
  "csize (Struct mess_krn_lsys_sys_umap) = 56"
  "csize (Struct mess_krn_lsys_sys_vumap) = 56"
  "csize (Struct mess_lbdev_lblockdriver_msg) = 56"
  "csize (Struct mess_lblockdriver_lbdev_reply) = 56"
  "csize (Struct mess_lc_ipc_semctl) = 56"
  "csize (Struct mess_lc_ipc_semget) = 56"
  "csize (Struct mess_lc_ipc_semop) = 56"
  "csize (Struct mess_lc_ipc_shmat) = 56"
  "csize (Struct mess_lc_ipc_shmctl) = 56"
  "csize (Struct mess_lc_ipc_shmdt) = 56"
  "csize (Struct mess_lc_ipc_shmget) = 56"
  "csize (Struct mess_lc_mib_sysctl) = 56"
  "csize (Struct mess_lc_pm_exec) = 56"
  "csize (Struct mess_lc_pm_exit) = 56"
  "csize (Struct mess_lc_pm_getsid) = 56"
  "csize (Struct mess_lc_pm_groups) = 56"
  "csize (Struct mess_lc_pm_itimer) = 56"
  "csize (Struct mess_lc_pm_mcontext) = 56"
  "csize (Struct mess_lc_pm_priority) = 56"
  "csize (Struct mess_lc_pm_ptrace) = 56"
  "csize (Struct mess_lc_pm_reboot) = 56"
  "csize (Struct mess_lc_pm_rusage) = 56"
  "csize (Struct mess_lc_pm_setgid) = 56"
  "csize (Struct mess_lc_pm_setuid) = 56"
  "csize (Struct mess_lc_pm_sig) = 56"
  "csize (Struct mess_lc_pm_sigset) = 56"
  "csize (Struct mess_lc_pm_sprof) = 56"
  "csize (Struct mess_lc_pm_sysuname) = 56"
  "csize (Struct mess_lc_pm_time) = 56"
  "csize (Struct mess_lc_pm_wait4) = 56"
  "csize (Struct mess_lc_readclock_rtcdev) = 56"
  "csize (Struct mess_lc_svrctl) = 56"
  "csize (Struct mess_lc_vfs_chown) = 56"
  "csize (Struct mess_lc_vfs_close) = 56"
  "csize (Struct mess_lc_vfs_creat) = 56"
  "csize (Struct mess_lc_vfs_fchdir) = 56"
  "csize (Struct mess_lc_vfs_fchmod) = 56"
  "csize (Struct mess_lc_vfs_fcntl) = 56"
  "csize (Struct mess_lc_vfs_fstat) = 56"
  "csize (Struct mess_lc_vfs_fsync) = 56"
  "csize (Struct mess_lc_vfs_gcov) = 56"
  "csize (Struct mess_lc_vfs_getvfsstat) = 56"
  "csize (Struct mess_lc_vfs_ioctl) = 56"
  "csize (Struct mess_lc_vfs_link) = 56"
  "csize (Struct mess_lc_vfs_listen) = 56"
  "csize (Struct mess_lc_vfs_lseek) = 56"
  "csize (Struct mess_lc_vfs_mknod) = 56"
  "csize (Struct mess_lc_vfs_mount) = 56"
  "csize (Struct mess_lc_vfs_path) = 56"
  "csize (Struct mess_lc_vfs_pipe2) = 56"
  "csize (Struct mess_lc_vfs_readlink) = 56"
  "csize (Struct mess_lc_vfs_readwrite) = 56"
  "csize (Struct mess_lc_vfs_select) = 56"
  "csize (Struct mess_lc_vfs_sendrecv) = 56"
  "csize (Struct mess_lc_vfs_shutdown) = 56"
  "csize (Struct mess_lc_vfs_sockaddr) = 56"
  "csize (Struct mess_lc_vfs_socket) = 56"
  "csize (Struct mess_lc_vfs_sockmsg) = 56"
  "csize (Struct mess_lc_vfs_sockopt) = 56"
  "csize (Struct mess_lc_vfs_stat) = 56"
  "csize (Struct mess_lc_vfs_statvfs1) = 56"
  "csize (Struct mess_lc_vfs_truncate) = 56"
  "csize (Struct mess_lc_vfs_umask) = 56"
  "csize (Struct mess_lc_vfs_umount) = 56"
  "csize (Struct mess_lc_vm_brk) = 56"
  "csize (Struct mess_lc_vm_getphys) = 56"
  "csize (Struct mess_lc_vm_shm_unmap) = 56"
  "csize (Struct mess_lchardriver_vfs_reply) = 56"
  "csize (Struct mess_lchardriver_vfs_sel1) = 56"
  "csize (Struct mess_lchardriver_vfs_sel2) = 56"
  "csize (Struct mess_lexec_pm_exec_new) = 56"
  "csize (Struct mess_li2cdriver_i2c_busc_i2c_exec) = 56"
  "csize (Struct mess_li2cdriver_i2c_busc_i2c_reserve) = 56"
  "csize (Struct mess_linputdriver_input_event) = 56"
  "csize (Struct mess_lsockdriver_vfs_accept_reply) = 56"
  "csize (Struct mess_lsockdriver_vfs_recv_reply) = 56"
  "csize (Struct mess_lsockdriver_vfs_reply) = 56"
  "csize (Struct mess_lsockdriver_vfs_select_reply) = 56"
  "csize (Struct mess_lsockdriver_vfs_socket_reply) = 56"
  "csize (Struct mess_lsys_fi_ctl) = 56"
  "csize (Struct mess_lsys_fi_reply) = 56"
  "csize (Struct mess_lsys_getsysinfo) = 56"
  "csize (Struct mess_lsys_krn_readbios) = 56"
  "csize (Struct mess_lsys_kern_safecopy) = 56"
  "csize (Struct mess_lsys_krn_schedctl) = 56"
  "csize (Struct mess_lsys_krn_schedule) = 56"
  "csize (Struct mess_lsys_krn_sys_abort) = 56"
  "csize (Struct mess_lsys_krn_sys_clear) = 56"
  "csize (Struct mess_lsys_krn_sys_copy) = 56"
  "csize (Struct mess_lsys_krn_sys_devio) = 56"
  "csize (Struct mess_lsys_krn_sys_diagctl) = 56"
  "csize (Struct mess_lsys_krn_sys_exec) = 56"
  "csize (Struct mess_lsys_krn_sys_fork) = 56"
  "csize (Struct mess_lsys_krn_sys_getinfo) = 56"
  "csize (Struct mess_lsys_krn_sys_getmcontext) = 56"
  "csize (Struct mess_lsys_krn_sys_iopenable) = 56"
  "csize (Struct mess_lsys_krn_sys_irqctl) = 56"
  "csize (Struct mess_lsys_krn_sys_memset) = 56"
  "csize (Struct mess_lsys_krn_sys_privctl) = 56"
  "csize (Struct mess_lsys_krn_sys_sdevio) = 56"
  "csize (Struct mess_lsys_krn_sys_setalarm) = 56"
  "csize (Struct mess_lsys_krn_sys_setgrant) = 56"
  "csize (Struct mess_lsys_krn_sys_setmcontext) = 56"
  "csize (Struct mess_lsys_krn_sys_settime) = 56"
  "csize (Struct mess_lsys_krn_sys_sprof) = 56"
  "csize (Struct mess_lsys_krn_sys_statectl) = 56"
  "csize (Struct mess_lsys_krn_sys_stime) = 56"
  "csize (Struct mess_lsys_krn_sys_times) = 56"
  "csize (Struct mess_lsys_krn_sys_trace) = 56"
  "csize (Struct mess_lsys_krn_sys_umap) = 56"
  "csize (Struct mess_lsys_krn_sys_vdevio) = 56"
  "csize (Struct mess_lsys_krn_sys_vumap) = 56"
  "csize (Struct mess_lsys_kern_vsafecopy) = 56"
  "csize (Struct mess_lsys_mib_register) = 56"
  "csize (Struct mess_lsys_mib_reply) = 56"
  "csize (Struct mess_lsys_pci_busc_get_bar) = 56"
  "csize (Struct mess_lsys_pm_getepinfo) = 56"
  "csize (Struct mess_lsys_pm_getprocnr) = 56"
  "csize (Struct mess_lsys_pm_proceventmask) = 56"
  "csize (Struct mess_lsys_pm_srv_fork) = 56"
  "csize (Struct mess_lsys_sched_scheduling_start) = 56"
  "csize (Struct mess_lsys_sched_scheduling_stop) = 56"
  "csize (Struct mess_lsys_tty_fkey_ctl) = 56"
  "csize (Struct mess_lsys_vfs_copyfd) = 56"
  "csize (Struct mess_lsys_vfs_mapdriver) = 56"
  "csize (Struct mess_lsys_vfs_socketpath) = 56"
  "csize (Struct mess_lsys_vm_getref) = 56"
  "csize (Struct mess_lsys_vm_info) = 56"
  "csize (Struct mess_lsys_vm_map_phys) = 56"
  "csize (Struct mess_lsys_vm_rusage) = 56"
  "csize (Struct mess_lsys_vm_unmap_phys) = 56"
  "csize (Struct mess_lsys_vm_update) = 56"
  "csize (Struct mess_lsys_vm_vmremap) = 56"
  "csize (Struct mess_mib_lc_sysctl) = 56"
  "csize (Struct mess_mib_lsys_call) = 56"
  "csize (Struct mess_mib_lsys_info) = 56"
  "csize (Struct mess_mmap) = 56"
  "csize (Struct mess_ndev_netdriver_init) = 56"
  "csize (Struct mess_ndev_netdriver_conf) = 56"
  "csize (Struct mess_ndev_netdriver_transfer) = 56"
  "csize (Struct mess_ndev_netdriver_status_reply) = 56"
  "csize (Struct mess_netdriver_ndev_init_reply) = 56"
  "csize (Struct mess_netdriver_ndev_reply) = 56"
  "csize (Struct mess_netdriver_ndev_status) = 56"
  "csize (Struct mess_net_netdrv_dl_conf) = 56"
  "csize (Struct mess_net_netdrv_dl_getstat_s) = 56"
  "csize (Struct mess_net_netdrv_dl_readv_s) = 56"
  "csize (Struct mess_net_netdrv_dl_writev_s) = 56"
  "csize (Struct mess_netdrv_net_dl_conf) = 56"
  "csize (Struct mess_netdrv_net_dl_task) = 56"
  "csize (Struct mess_notify) = 56"
  "csize (Struct mess_pci_lsys_busc_get_bar) = 56"
  "csize (Struct mess_pm_lc_getgid) = 56"
  "csize (Struct mess_pm_lc_getpid) = 56"
  "csize (Struct mess_pm_lc_getuid) = 56"
  "csize (Struct mess_pm_lc_ptrace) = 56"
  "csize (Struct mess_pm_lc_sigset) = 56"
  "csize (Struct mess_pm_lc_time) = 56"
  "csize (Struct mess_pm_lc_wait4) = 56"
  "csize (Struct mess_pm_lexec_exec_new) = 56"
  "csize (Struct mess_pm_lsys_getepinfo) = 56"
  "csize (Struct mess_pm_lsys_getprocnr) = 56"
  "csize (Struct mess_pm_lsys_proc_event) = 56"
  "csize (Struct mess_pm_lsys_sigs_signal) = 56"
  "csize (Struct mess_pm_sched_scheduling_set_nice) = 56"
  "csize (Struct mess_pty_ptyfs_req) = 56"
  "csize (Struct mess_ptyfs_pty_name) = 56"
  "csize (Struct mess_readclock_lc_rtcdev) = 56"
  "csize (Struct mess_rs_init) = 56"
  "csize (Struct mess_rs_pm_exec_restart) = 56"
  "csize (Struct mess_rs_pm_srv_kill) = 56"
  "csize (Struct mess_rs_req) = 56"
  "csize (Struct mess_rs_update) = 56"
  "csize (Struct mess_sched_lsys_scheduling_start) = 56"
  "csize (Struct mess_sigcalls) = 56"
  "csize (Struct mess_tty_lsys_fkey_ctl) = 56"
  "csize (Struct mess_vfs_fs_breadwrite) = 56"
  "csize (Struct mess_vfs_fs_chmod) = 56"
  "csize (Struct mess_vfs_fs_chown) = 56"
  "csize (Struct mess_vfs_fs_create) = 56"
  "csize (Struct mess_vfs_fs_flush) = 56"
  "csize (Struct mess_vfs_fs_ftrunc) = 56"
  "csize (Struct mess_vfs_fs_getdents) = 56"
  "csize (Struct mess_vfs_fs_inhibread) = 56"
  "csize (Struct mess_vfs_fs_link) = 56"
  "csize (Struct mess_vfs_fs_lookup) = 56"
  "csize (Struct mess_vfs_fs_mkdir) = 56"
  "csize (Struct mess_vfs_fs_mknod) = 56"
  "csize (Struct mess_vfs_fs_mountpoint) = 56"
  "csize (Struct mess_vfs_fs_new_driver) = 56"
  "csize (Struct mess_vfs_fs_newnode) = 56"
  "csize (Struct mess_vfs_fs_putnode) = 56"
  "csize (Struct mess_vfs_fs_rdlink) = 56"
  "csize (Struct mess_vfs_fs_readsuper) = 56"
  "csize (Struct mess_vfs_fs_readwrite) = 56"
  "csize (Struct mess_vfs_fs_rename) = 56"
  "csize (Struct mess_vfs_fs_slink) = 56"
  "csize (Struct mess_vfs_fs_stat) = 56"
  "csize (Struct mess_vfs_fs_statvfs) = 56"
  "csize (Struct mess_vfs_fs_unlink) = 56"
  "csize (Struct mess_vfs_fs_utime) = 56"
  "csize (Struct mess_vfs_lc_fdpair) = 56"
  "csize (Struct mess_vfs_lc_lseek) = 56"
  "csize (Struct mess_vfs_lc_socklen) = 56"
  "csize (Struct mess_vfs_lchardriver_cancel) = 56"
  "csize (Struct mess_vfs_lchardriver_openclose) = 56"
  "csize (Struct mess_vfs_lchardriver_readwrite) = 56"
  "csize (Struct mess_vfs_lchardriver_select) = 56"
  "csize (Struct mess_vfs_lsockdriver_addr) = 56"
  "csize (Struct mess_vfs_lsockdriver_getset) = 56"
  "csize (Struct mess_vfs_lsockdriver_ioctl) = 56"
  "csize (Struct mess_vfs_lsockdriver_select) = 56"
  "csize (Struct mess_vfs_lsockdriver_sendrecv) = 56"
  "csize (Struct mess_vfs_lsockdriver_simple) = 56"
  "csize (Struct mess_vfs_lsockdriver_socket) = 56"
  "csize (Struct mess_vfs_lsys_gcov) = 56"
  "csize (Struct mess_vfs_lsys_socketpath) = 56"
  "csize (Struct mess_vfs_utimens) = 56"
  "csize (Struct mess_vm_vfs_mmap) = 56"
  "csize (Struct mess_vmmcp) = 56"
  "csize (Struct mess_vmmcp_reply) = 56"
  by (simp_all add: payload_defs layout csize_Struct round_up_def numeral_2_eq_2 [symmetric] del: csize.simps(3))

lemma payloads_56: "list_all (\<lambda>m. csize (Struct m) = 56) ipc_payloads"
  by (simp add: ipc_payloads_def payload_56 del: csize.simps)

lemma payloads_align: "list_all (\<lambda>m. calign (Struct m) \<le> 4) ipc_payloads"
  by (simp add: ipc_payloads_def payload_defs layout)

text \<open>The members of the union are the payloads, in order, and the array that gives the size.\<close>

lemma members_payloads:
  "map snd (message_members_1 @ message_members_2) = map Struct ipc_payloads @ [Arr 56 u8_t]"
  by (simp add: message_members_1_def message_members_2_def ipc_payloads_def del: csize.simps)

lemma foldr_snd: "foldr (\<lambda>(f, t). h t) fs a = foldr h (map snd fs) a"
  by (induction fs) auto

lemma foldr_max_const:
  "list_all (\<lambda>x. g x = k) xs \<Longrightarrow> a \<le> k \<Longrightarrow> foldr (\<lambda>x. max (g x)) xs a = (if xs = [] then a else k)"
  for k :: nat
  by (induction xs) auto

lemma foldr_max_le: "list_all (\<lambda>x. g x \<le> k) xs \<Longrightarrow> a \<le> k \<Longrightarrow> foldr (\<lambda>x. max (g x)) xs a \<le> k"
  for k :: nat
  by (induction xs) auto

lemma foldr_max_ge: "x \<in> set xs \<Longrightarrow> g x \<le> foldr (\<lambda>x. max (g x)) xs a"
  for a :: nat
  by (induction xs) auto

lemma union_size: "csize (Union (message_members_1 @ message_members_2)) = 56"
  and union_align: "calign (Union (message_members_1 @ message_members_2)) = 4"
proof -
  let ?al = "foldr (\<lambda>t. max (calign t)) (map Struct ipc_payloads) (max (calign (Arr 56 u8_t)) 1)"
  have "Struct mess_u32 \<in> set (map Struct ipc_payloads)" by (simp add: ipc_payloads_def)
  then have "calign (Struct mess_u32) \<le> ?al" by (rule foldr_max_ge)
  then have "4 \<le> ?al" by (simp add: mess_u32_def layout)
  moreover have "foldr (\<lambda>t. max (calign t)) (map Struct ipc_payloads) (max (calign (Arr 56 u8_t)) 1) \<le> 4"
    by (rule foldr_max_le)
      (use payloads_align in \<open>simp_all add: list.pred_map o_def layout del: calign.simps(3)\<close>)
  ultimately have "?al = 4" by simp
  then show align: "calign (Union (message_members_1 @ message_members_2)) = 4"
    unfolding calign.simps(4) foldr_snd members_payloads
    by (simp only: foldr_append list.map foldr_Cons o_def foldr_Nil id_apply)
  have "foldr (\<lambda>t. max (csize t)) (map Struct ipc_payloads) (max (csize (Arr 56 u8_t)) 0)
      = (if map Struct ipc_payloads = [] then max (csize (Arr 56 u8_t)) 0 else 56)"
    by (rule foldr_max_const)
      (use payloads_56 in \<open>simp_all add: list.pred_map o_def layout del: csize.simps(3)\<close>)
  moreover have "map Struct ipc_payloads \<noteq> []" by (simp add: ipc_payloads_def)
  ultimately have "foldr (\<lambda>t. max (csize t)) (map Struct ipc_payloads) (max (csize (Arr 56 u8_t)) 0) = 56"
    by (simp only: if_False)
  then have "foldr (\<lambda>(f, t). max (csize t)) (message_members_1 @ message_members_2) 0 = 56"
    unfolding foldr_snd members_payloads
    by (simp only: foldr_append list.map foldr_Cons o_def foldr_Nil id_apply)
  then show "csize (Union (message_members_1 @ message_members_2)) = 56"
    by (simp only: csize.simps(4) align) (simp add: round_up_def)
qed

lemma message_size: "csize message_t = 64" "calign message_t = 16" "csize (Struct asynmsg_t) = 80"
proof -
  have fields: "csize (Struct message_fields) = 64" "calign (Struct message_fields) = 4"
    by (simp_all add: message_fields_def csize_Struct union_size union_align layout round_up_def
        del: csize.simps(3,4) calign.simps(4))
  show "csize message_t = 64" "calign message_t = 16"
    by (simp_all add: message_t_def fields round_up_def del: csize.simps(3) calign.simps(3))
  then show "csize (Struct asynmsg_t) = 80"
    by (simp add: asynmsg_t_def csize_Struct layout round_up_def del: csize.simps(3))
qed

lemma message_fields_of:
  "fields_of message_t = [(''m_source'', 0, endpoint_t), (''m_type'', 4, c_int),
     ('''', 8, Union (message_members_1 @ message_members_2))]"
  by (simp add: message_t_def message_fields_def layout round_up_def union_align union_size Let_def
      del: calign.simps(4) csize.simps(4))

lemma find_field_Union:
  "find_field f (fields_of (Union fs)) = map_option (Pair 0) (map_of fs f)"
proof (induction fs)
  case (Cons x fs)
  then show ?case by (cases x) auto
qed simp

lemma map_of_append_case:
  "map_of (xs @ ys) k = (case map_of xs k of None \<Rightarrow> map_of ys k | Some v \<Rightarrow> Some v)"
  by (simp add: map_add_def)

text \<open>Lookup by evaluation that leaves the rest of the list alone.\<close>

lemma map_of_lookup_cong: "k = k' \<Longrightarrow> map_of xs k = map_of xs k'"
  by simp

lemma generic_payloads:
  "map_of message_members_1 ''m_m1'' = Some (Struct mess_1)"
  "map_of message_members_1 ''m_m2'' = Some (Struct mess_2)"
  "map_of message_members_1 ''m_m3'' = Some (Struct mess_3)"
  "map_of message_members_1 ''m_m4'' = Some (Struct mess_4)"
  "map_of message_members_1 ''m_m7'' = Some (Struct mess_7)"
  "map_of message_members_1 ''m_m9'' = Some (Struct mess_9)"
  "map_of message_members_1 ''m_m10'' = Some (Struct mess_10)"
  unfolding message_members_1_def
  by (simp_all add: map_of_Cons_code cong: map_of_lookup_cong del: map_of.simps)

lemma find_field_place: "find_field f (place p fs) = None \<longleftrightarrow> f \<notin> fst ` set fs"
  by (induction p fs rule: place.induct) (auto simp: Let_def)

text \<open>A name of a member denotes a field of a payload, inside the message.\<close>

definition member_in_payload :: "string \<times> string \<times> string \<Rightarrow> bool" where
  "member_in_payload n =
     (case n of (name, m, f) \<Rightarrow> (case member message_t ['''', m, f] of
        None \<Rightarrow> False | Some (q, u) \<Rightarrow> 8 \<le> q \<and> q + csize u \<le> csize message_t))"

lemma member_in_payloadI:
  assumes "map_of message_members_1 m = Some (Struct fs)" and "f \<in> fst ` set fs"
  shows "member_in_payload (name, m, f)"
proof -
  obtain q u where "find_field f (fields_of (Struct fs)) = Some (q, u)"
    using assms(2) find_field_place [of f 0 fs] by (cases "find_field f (place 0 fs)") auto
  moreover have "find_field m (fields_of (Union (message_members_1 @ message_members_2))) = Some (0, Struct fs)"
    using assms(1) by (simp add: find_field_Union map_of_append_case del: fields_of.simps map_of_append)
  ultimately have "member message_t ['''', m, f] = Some (8 + q, u)"
    by (simp add: message_fields_of del: fields_of.simps)
  then show ?thesis using member_inside by (fastforce simp: member_in_payload_def)
qed

lemma member_names_in_payload: "list_all member_in_payload member_names"
  unfolding member_names_def list.pred_inject
  by ((intro conjI TrueI member_in_payloadI; (rule generic_payloads)?))
    (simp_all add: mess_1_def mess_2_def mess_3_def mess_4_def mess_7_def mess_9_def mess_10_def)

text \<open>
  Every payload of the header has 56 bytes, the message 64 with an alignment of 16, and the entry of the
  table of asynchronous sends 80: what the compile-time assertions of the header demand. The members
  of the union are these payloads, and every name the header gives to a member of a generic payload
  denotes a field inside the payload.
\<close>

lemma ipc_message_sizes:
  "list_all (\<lambda>m. csize (Struct m) = 56) ipc_payloads
     \<and> map snd (message_members_1 @ message_members_2) = map Struct ipc_payloads @ [Arr 56 u8_t]
     \<and> csize message_t = 64 \<and> calign message_t = 16 \<and> csize (Struct asynmsg_t) = 80
     \<and> list_all member_in_payload member_names"
  using payloads_56 members_payloads message_size member_names_in_payload by blast

end
