(* ===== verification/Lcf_Structs.thy ===== *)
theory Lcf_Structs
  imports Sys_Interface Ipc_Messages
begin

text \<open>
  The structures the program shares with the system, byte by byte: the message of
  \<open>driver_receive\<close>, the register block of \<open>sys_int86\<close> (a union of three views) and the packed
  mode information of the VBE. Shown: the bytes at the places the layout computes are the fields
  the records of the interface have, so that what the drivers read of them is what the system wrote.
\<close>


section \<open>Structures of the LCF\<close>

definition vbe_mode_info_t :: ctype where
  "vbe_mode_info_t = Packed
    [(''ModeAttributes'', uint16_t), (''WinAAttributes'', uint8_t),
     (''WinBAttributes'', uint8_t), (''WinGranularity'', uint16_t), (''WinSize'', uint16_t),
     (''WinASegment'', uint16_t), (''WinBSegment'', uint16_t), (''WinFuncPtr'', phys_bytes),
     (''BytesPerScanLine'', uint16_t), (''XResolution'', uint16_t), (''YResolution'', uint16_t),
     (''XCharSize'', uint8_t), (''YCharSize'', uint8_t), (''NumberOfPlanes'', uint8_t),
     (''BitsPerPixel'', uint8_t), (''NumberOfBanks'', uint8_t), (''MemoryModel'', uint8_t),
     (''BankSize'', uint8_t), (''NumberOfImagePages'', uint8_t), (''Reserved1'', uint8_t),
     (''RedMaskSize'', uint8_t), (''RedFieldPosition'', uint8_t), (''GreenMaskSize'', uint8_t),
     (''GreenFieldPosition'', uint8_t), (''BlueMaskSize'', uint8_t),
     (''BlueFieldPosition'', uint8_t), (''RsvdMaskSize'', uint8_t),
     (''RsvdFieldPosition'', uint8_t), (''DirectColorModeInfo'', uint8_t),
     (''PhysBasePtr'', phys_bytes), (''Reserved2'', Arr 4 uint8_t),
     (''Reserved3'', Arr 2 uint8_t), (''LinBytesPerScanLine'', uint16_t),
     (''BnkNumberOfImagePages'', uint8_t), (''LinNumberOfImagePages'', uint8_t),
     (''LinRedMaskSize'', uint8_t), (''LinRedFieldPosition'', uint8_t),
     (''LinGreenMaskSize'', uint8_t), (''LinGreenFieldPosition'', uint8_t),
     (''LinBlueMaskSize'', uint8_t), (''LinBlueFieldPosition'', uint8_t),
     (''LinRsvdMaskSize'', uint8_t), (''LinRsvdFieldPosition'', uint8_t),
     (''MaxPixelClock'', uint32_t), (''Reserved4'', Arr 190 uint8_t)]"

text \<open>The three views of the registers; unnamed members are padding.\<close>

definition reg86_dword :: fields where
  "reg86_dword =
    [(''ef'', u32_t), (''vec'', u32_t), ('''', u32_t), (''eax'', u32_t), (''ebx'', u32_t),
     (''ecx'', u32_t), (''edx'', u32_t), (''esi'', u32_t), (''edi'', u32_t), (''ebp'', u32_t)]"

definition reg86_word :: fields where
  "reg86_word =
    [(''f'', u16_t), ('''', u16_t), (''off'', u16_t), (''seg'', u16_t), (''ds'', u16_t),
     (''es'', u16_t), (''ax'', u16_t), ('''', u16_t), (''bx'', u16_t), ('''', u16_t),
     (''cx'', u16_t), ('''', u16_t), (''dx'', u16_t), ('''', u16_t), (''si'', u16_t),
     ('''', u16_t), (''di'', u16_t), ('''', u16_t), (''bp'', u16_t), ('''', u16_t)]"

definition reg86_byte :: fields where
  "reg86_byte =
    [(''intno'', u8_t), ('''', u8_t), ('''', u16_t), ('''', u32_t), ('''', u32_t),
     (''al'', u8_t), (''ah'', u8_t), ('''', u16_t), (''bl'', u8_t), (''bh'', u8_t),
     ('''', u16_t), (''cl'', u8_t), (''ch'', u8_t), ('''', u16_t), (''dl'', u8_t),
     (''dh'', u8_t), ('''', u16_t), ('''', u32_t), ('''', u32_t), ('''', u32_t)]"

definition reg86_t :: ctype where
  "reg86_t = Struct [('''', Union [(''dword'', Struct reg86_dword), (''word'', Struct reg86_word),
     (''byte'', Struct reg86_byte)])]"


section \<open>Bytes\<close>

text \<open>Little-endian values of \<open>n\<close> bytes.\<close>

fun le_bytes :: "nat \<Rightarrow> nat \<Rightarrow> u8 list" where
  "le_bytes 0 x = []"
| "le_bytes (Suc n) x = of_nat x # le_bytes n (x div 256)"

fun get_le :: "nat \<Rightarrow> nat \<Rightarrow> (nat \<Rightarrow> u8) \<Rightarrow> nat" where
  "get_le q 0 m = 0"
| "get_le q (Suc n) m = unat (m q) + 256 * get_le (Suc q) n m"

definition put_le :: "nat \<Rightarrow> nat \<Rightarrow> nat \<Rightarrow> (nat \<Rightarrow> u8) \<Rightarrow> nat \<Rightarrow> u8" where
  "put_le q n x m = (\<lambda>i. if q \<le> i \<and> i < q + n then le_bytes n x ! (i - q) else m i)"

definition get_field :: "ctype \<Rightarrow> string list \<Rightarrow> (nat \<Rightarrow> u8) \<Rightarrow> nat" where
  "get_field t p m = (case member t p of None \<Rightarrow> 0 | Some (q, u) \<Rightarrow> get_le q (csize u) m)"

definition put_field :: "ctype \<Rightarrow> string list \<Rightarrow> nat \<Rightarrow> (nat \<Rightarrow> u8) \<Rightarrow> nat \<Rightarrow> u8" where
  "put_field t p x m = (case member t p of None \<Rightarrow> m | Some (q, u) \<Rightarrow> put_le q (csize u) x m)"

lemma length_le_bytes [simp]: "length (le_bytes n x) = n"
  by (induction n x rule: le_bytes.induct) simp_all

lemma unat_of_nat_8: "unat (of_nat x :: u8) = x mod 256"
  by (simp add: unat_of_nat)

lemma get_le_cong: "(\<And>i. q \<le> i \<Longrightarrow> i < q + n \<Longrightarrow> m i = m' i) \<Longrightarrow> get_le q n m = get_le q n m'"
  by (induction q n m rule: get_le.induct) simp_all

lemma get_le_bytes:
  "(\<And>i. i < n \<Longrightarrow> m (q + i) = le_bytes n x ! i) \<Longrightarrow> get_le q n m = x mod 256 ^ n"
proof (induction n arbitrary: q x)
  case (Suc n)
  have "m q = of_nat x" using Suc.prems [of 0] by simp
  moreover have "get_le (Suc q) n m = x div 256 mod 256 ^ n"
    by (rule Suc.IH) (use Suc.prems [of "Suc i" for i] in simp)
  ultimately show ?case by (simp add: unat_of_nat_8 mod_mult2_eq)
qed simp

lemma get_put_le: "get_le q n (put_le q n x m) = x mod 256 ^ n"
  by (rule get_le_bytes) (simp add: put_le_def)

lemma get_put_le_disjoint:
  "q + n \<le> r \<or> r + k \<le> q \<Longrightarrow> get_le q n (put_le r k x m) = get_le q n m"
  by (rule get_le_cong) (auto simp: put_le_def)


section \<open>The structures as bytes\<close>

text \<open>What the code reads of a message and of the mode information.\<close>

definition message_of_bytes :: "(nat \<Rightarrow> u8) \<Rightarrow> message" where
  "message_of_bytes m = \<lparr>
     m_source = sint (of_nat (get_field message_t [''m_source''] m) :: 32 word),
     interrupts = of_nat (get_field message_t ['''', ''m_notify'', ''interrupts''] m)\<rparr>"

definition mode_info_of_bytes :: "(nat \<Rightarrow> u8) \<Rightarrow> vbe_mode_info" where
  "mode_info_of_bytes m = \<lparr>
     BytesPerScanLine = of_nat (get_field vbe_mode_info_t [''BytesPerScanLine''] m),
     XResolution = of_nat (get_field vbe_mode_info_t [''XResolution''] m),
     YResolution = of_nat (get_field vbe_mode_info_t [''YResolution''] m),
     BitsPerPixel = of_nat (get_field vbe_mode_info_t [''BitsPerPixel''] m),
     info_RedMaskSize = of_nat (get_field vbe_mode_info_t [''RedMaskSize''] m),
     info_GreenMaskSize = of_nat (get_field vbe_mode_info_t [''GreenMaskSize''] m),
     info_BlueMaskSize = of_nat (get_field vbe_mode_info_t [''BlueMaskSize''] m),
     PhysBasePtr = of_nat (get_field vbe_mode_info_t [''PhysBasePtr''] m)\<rparr>"

text \<open>The register block after \<open>memset\<close> and the assignments of \<open>set_mode\<close>.\<close>

definition bytes_of_reg86 :: "reg86 \<Rightarrow> nat \<Rightarrow> u8" where
  "bytes_of_reg86 r =
     put_field reg86_t ['''', ''word'', ''bx''] (unat (bx r))
       (put_field reg86_t ['''', ''byte'', ''al''] (unat (al r))
         (put_field reg86_t ['''', ''byte'', ''ah''] (unat (ah r))
           (put_field reg86_t ['''', ''byte'', ''intno''] (unat (intno r)) (\<lambda>_. 0))))"

lemma notify_in_members:
  "map_of message_members_1 ''m_notify'' = None"
  "map_of message_members_2 ''m_notify'' = Some (Struct mess_notify)"
  unfolding message_members_1_def message_members_2_def
  by (simp_all add: map_of_Cons_code cong: map_of_lookup_cong del: map_of.simps)

lemma find_field_notify:
  "find_field ''m_notify'' (fields_of (Union (message_members_1 @ message_members_2)))
     = Some (0, Struct mess_notify)"
  by (simp add: find_field_Union map_of_append_case notify_in_members del: fields_of.simps map_of_append)

lemma find_field_interrupts: "find_field ''interrupts'' (fields_of (Struct mess_notify)) = Some (8, u64_t)"
  by (simp add: mess_notify_def layout round_up_def)

lemma message_members:
  "member message_t [''m_source''] = Some (0, endpoint_t)"
  "member message_t [''m_type''] = Some (4, c_int)"
  "member message_t ['''', ''m_notify'', ''interrupts''] = Some (16, u64_t)"
  by (simp_all add: message_fields_of find_field_notify find_field_interrupts del: fields_of.simps)

lemma reg86_members:
  "member reg86_t ['''', ''byte'', ''intno''] = Some (0, u8_t)"
  "member reg86_t ['''', ''byte'', ''al''] = Some (12, u8_t)"
  "member reg86_t ['''', ''byte'', ''ah''] = Some (13, u8_t)"
  "member reg86_t ['''', ''byte'', ''bl''] = Some (16, u8_t)"
  "member reg86_t ['''', ''byte'', ''bh''] = Some (17, u8_t)"
  "member reg86_t ['''', ''word'', ''ax''] = Some (12, u16_t)"
  "member reg86_t ['''', ''word'', ''bx''] = Some (16, u16_t)"
  "member reg86_t ['''', ''dword'', ''vec''] = Some (4, u32_t)"
  "member reg86_t ['''', ''dword'', ''eax''] = Some (12, u32_t)"
  "member reg86_t ['''', ''dword'', ''ebx''] = Some (16, u32_t)"
  "member reg86_t ['''', ''dword'', ''ecx''] = Some (20, u32_t)"
  by (simp_all add: reg86_t_def reg86_byte_def reg86_word_def reg86_dword_def layout round_up_def
      Let_def numeral_2_eq_2 [symmetric])

lemma vbe_members:
  "member vbe_mode_info_t [''BytesPerScanLine''] = Some (16, uint16_t)"
  "member vbe_mode_info_t [''XResolution''] = Some (18, uint16_t)"
  "member vbe_mode_info_t [''YResolution''] = Some (20, uint16_t)"
  "member vbe_mode_info_t [''BitsPerPixel''] = Some (25, uint8_t)"
  "member vbe_mode_info_t [''RedMaskSize''] = Some (31, uint8_t)"
  "member vbe_mode_info_t [''GreenMaskSize''] = Some (33, uint8_t)"
  "member vbe_mode_info_t [''BlueMaskSize''] = Some (35, uint8_t)"
  "member vbe_mode_info_t [''PhysBasePtr''] = Some (40, phys_bytes)"
  by (simp_all add: vbe_mode_info_t_def layout)

declare member.simps(2) [simp del]

lemmas get_field_simps = get_field_def put_field_def message_members reg86_members vbe_members layout

lemma get_le_nth:
  "get_le (length xs) n (nth (xs @ le_bytes n x @ ys)) = x mod 256 ^ n"
  by (rule get_le_bytes) (simp add: nth_append)

lemma numeral_4: "(4 :: nat) = Suc (Suc (Suc (Suc 0)))"
  by simp

lemma get_le_4:
  "get_le q 4 m = unat (m q) + 256 * (unat (m (q + 1)) + 256 * (unat (m (q + 2)) + 256 * unat (m (q + 3))))"
  by (simp only: numeral_4 get_le.simps mult_0_right add_0_right Suc_eq_plus1 add.assoc) (simp add: numeral_3_eq_3)

lemma get_le_word:
  "unat (x :: u16) mod 65536 = unat x" "unat (y :: u32) mod 4294967296 = unat y"
  "unat (z :: u64) mod 18446744073709551616 = unat z"
  using unsigned_less [of x, where ?'a = nat] unsigned_less [of y, where ?'a = nat]
    unsigned_less [of z, where ?'a = nat] by simp_all

lemma bytes_of_reg86_nth:
  "bytes_of_reg86 r i = (if i = 0 then intno r else if i = 12 then al r else if i = 13 then ah r
     else if i = 16 then of_nat (unat (bx r)) else if i = 17 then of_nat (unat (bx r) div 256) else 0)"
  by (auto simp: bytes_of_reg86_def get_field_simps put_le_def numeral_2_eq_2 nth_Cons'
      le_Suc_eq less_Suc_eq)

text \<open>
  C31. The head of a notification as the kernel writes it, 4 bytes for the sender, 4 for the type, 8 for the
  time stamp and 8 for the interrupts, whatever follows, is read by the drivers as exactly this
  sender (with its sign) and this set of interrupts.
\<close>

theorem notify_message_roundtrip:
  "message_of_bytes (nth (le_bytes 4 (unat source) @ le_bytes 4 (unat m_type)
       @ le_bytes 8 (unat timestamp) @ le_bytes 8 (unat ints) @ rest))
     = \<lparr>m_source = sint source, interrupts = ints\<rparr>"
  for source m_type :: u32 and timestamp ints :: u64
proof -
  let ?s = "le_bytes 4 (unat source)" and ?t = "le_bytes 4 (unat m_type)"
    and ?x = "le_bytes 8 (unat timestamp)" and ?i = "le_bytes 8 (unat ints)"
  have "get_le 0 4 (nth (?s @ ?t @ ?x @ ?i @ rest)) = unat source"
    using get_le_nth [of "[]" 4 "unat source" "?t @ ?x @ ?i @ rest"] by (simp add: get_le_word)
  moreover have "get_le 16 8 (nth (?s @ ?t @ ?x @ ?i @ rest)) = unat ints"
    using get_le_nth [of "?s @ ?t @ ?x" 8 "unat ints" rest] by (simp add: get_le_word)
  ultimately show ?thesis
    by (simp add: message_of_bytes_def get_field_simps del: get_le.simps le_bytes.simps)
qed

text \<open>
  The register block and the mode information have the sizes and places the BIOS expects: the bytes
  that \<open>set_mode\<close> assigns through the views \<open>intno\<close>, \<open>ah\<close>, \<open>al\<close> and \<open>bx\<close> are the interrupt number and
  the values of the 32-bit registers \<open>eax = ah * 256 + al\<close> and \<open>ebx = bx\<close>, and the other
  registers stay zero; the fields read of the packed mode information are at the offsets of the
  VBE standard.
\<close>

lemma bios_structures:
  "csize reg86_t = 40 \<and> csize vbe_mode_info_t = 256
   \<and> get_field reg86_t ['''', ''byte'', ''intno''] (bytes_of_reg86 r) = unat (intno r)
   \<and> get_field reg86_t ['''', ''dword'', ''vec''] (bytes_of_reg86 r) = 0
   \<and> get_field reg86_t ['''', ''dword'', ''eax''] (bytes_of_reg86 r) = 256 * unat (ah r) + unat (al r)
   \<and> get_field reg86_t ['''', ''dword'', ''ebx''] (bytes_of_reg86 r) = unat (bx r)
   \<and> get_field reg86_t ['''', ''dword'', ''ecx''] (bytes_of_reg86 r) = 0
   \<and> mode_info_of_bytes m = \<lparr>BytesPerScanLine = of_nat (get_le 16 2 m),
        XResolution = of_nat (get_le 18 2 m), YResolution = of_nat (get_le 20 2 m),
        BitsPerPixel = m 25, info_RedMaskSize = m 31, info_GreenMaskSize = m 33,
        info_BlueMaskSize = m 35, PhysBasePtr = of_nat (get_le 40 4 m)\<rparr>"
proof (intro conjI)
  show "csize reg86_t = 40" "csize vbe_mode_info_t = 256"
    by (simp_all add: reg86_t_def reg86_byte_def reg86_word_def reg86_dword_def vbe_mode_info_t_def
        layout round_up_def numeral_2_eq_2 [symmetric])
  have hi: "unat (bx r) div 256 < 256"
    using unsigned_less [of "bx r", where ?'a = nat] by simp
  have bx: "unat (ucast (bx r) :: u8) + 256 * (unat (bx r) div 256) = unat (bx r)"
    using unat_of_nat_8 [of "unat (bx r)"] by simp
  show "get_field reg86_t ['''', ''dword'', ''ebx''] (bytes_of_reg86 r) = unat (bx r)"
    using bx hi by (simp add: get_field_simps bytes_of_reg86_nth get_le_4 unat_of_nat_8)
qed (simp_all add: get_field_simps bytes_of_reg86_nth mode_info_of_bytes_def get_le_4)

end
