(* ===== verification/Message_Members.thy ===== *)
theory Message_Members
  imports Lcf_Structs
begin

text \<open>
  The members of a message as variables. A program writes a member as \<open>m_source\<close>, as
  \<open>m_notify.interrupts\<close> (through the anonymous union), or by one of the names that \<open>minix/ipc.h\<close>
  defines for the generic payloads, as \<open>m1_i1\<close>. Shown: an assignment to a member of a payload is
  read back, and it changes no other member of the payload, however both are written, nor the head
  of the message.
\<close>


section \<open>Member expressions\<close>

text \<open>The path of a member expression, after the preprocessor has replaced the names.\<close>

fun member_path :: "string list \<Rightarrow> string list" where
  "member_path [n] = (case map_of member_names n of None \<Rightarrow> [n] | Some (m, f) \<Rightarrow> ['''', m, f])"
| "member_path p = '''' # p"

definition read_member :: "string list \<Rightarrow> (nat \<Rightarrow> u8) \<Rightarrow> nat" where
  "read_member e b = get_field message_t (member_path e) b"

definition write_member :: "string list \<Rightarrow> nat \<Rightarrow> (nat \<Rightarrow> u8) \<Rightarrow> nat \<Rightarrow> u8" where
  "write_member e x b = put_field message_t (member_path e) x b"

text \<open>The expression names the field \<open>f\<close>, of type \<open>t\<close>, of the payload \<open>m\<close>.\<close>

definition names_field :: "string list \<Rightarrow> string \<Rightarrow> string \<Rightarrow> ctype \<Rightarrow> bool" where
  "names_field e m f t \<longleftrightarrow> member_path e = ['''', m, f]
     \<and> map_option snd (member message_t (member_path e)) = Some t"


section \<open>The fields of a payload\<close>

lemma names_distinct: "distinct (map snd member_names)"
  unfolding member_names_def by simp

lemma map_of_inj:
  "distinct (map snd xs) \<Longrightarrow> map_of xs k = Some v \<Longrightarrow> map_of xs k' = Some v \<Longrightarrow> k = k'"
  by (metis distinct_map eq_key_imp_eq_value inj_onD map_of_SomeD prod.inject snd_conv)

lemma member_payload:
  assumes "member message_t ['''', m, f] = Some (q, t)"
  obtains fs r where "map_of (message_members_1 @ message_members_2) m = Some (Struct fs)"
    and "(f, r, t) \<in> set (place 0 fs)" and "q = 8 + r"
proof -
  from assms obtain u r where u: "map_of (message_members_1 @ message_members_2) m = Some u"
    and f: "find_field f (fields_of u) = Some (r, t)" and q: "q = 8 + r"
    by (auto simp: message_fields_of find_field_Union member.simps(2) simp del: fields_of.simps
        map_of_append split: option.splits)
  have "u \<in> set (map snd (message_members_1 @ message_members_2))"
    using map_of_SomeD [OF u] by force
  then consider fs where "u = Struct fs" | "u = Arr 56 u8_t"
    unfolding members_payloads by auto
  then show thesis
  proof cases
    case 1
    then show thesis using that u f q find_field_mem by (metis fields_of.simps(1))
  qed (use f in simp)
qed

text \<open>Fields of different names do not overlap.\<close>

lemma sorted_wrt_either:
  "sorted_wrt P xs \<Longrightarrow> x \<in> set xs \<Longrightarrow> y \<in> set xs \<Longrightarrow> x \<noteq> y \<Longrightarrow> P x y \<or> P y x"
  by (induction xs) auto

lemma fields_disjoint:
  assumes "(f, q, t) \<in> set (place p fs)" and "(g, r, u) \<in> set (place p fs)" and "f \<noteq> g"
  shows "q + csize t \<le> r \<or> r + csize u \<le> q"
  using sorted_wrt_either [OF place_ordered assms(1,2)] assms(3) by auto

lemma payload_fields_apart:
  assumes "member message_t ['''', m, f] = Some (q, t)" and "member message_t ['''', m, g] = Some (r, u)"
    and "f \<noteq> g"
  shows "q + csize t \<le> r \<or> r + csize u \<le> q"
  using assms by (auto elim!: member_payload simp del: map_of_append dest: fields_disjoint)

lemma names_field_cases:
  assumes "names_field e m f t"
  obtains "e = [m, f]" | n where "e = [n]" and "map_of member_names n = Some (m, f)"
  using assms unfolding names_field_def
  by (cases e rule: member_path.cases) (auto split: option.splits)

lemma names_field_different:
  assumes "names_field e m f t" and "names_field e' m g u" and "length e = length e'" and "e \<noteq> e'"
  shows "f \<noteq> g"
  by (rule names_field_cases [OF assms(1)]; rule names_field_cases [OF assms(2)])
    (use assms(3,4) in \<open>auto dest: map_of_inj [OF names_distinct]\<close>)

text \<open>
  C30. Members of a message are independent variables, for every payload of \<open>minix/ipc.h\<close>, every message
  and every value: what is assigned to a field of a payload is read back (cut to the size of the
  field); every other field of the payload, written in the same way (both written out as
  \<open>m_m1.m1i1\<close>, or both by a name of the header as \<open>m1_i1\<close>), keeps its value; the sender and the
  type stay in the first and the second four bytes of the message, and nothing outside the payload
  (bytes 8 to 63) changes.
\<close>

theorem message_members_independent:
  assumes "names_field e m f t" and "names_field e' m g u"
    and "length e = length e'" and "e \<noteq> e'"
  shows "read_member e (write_member e x b) = x mod 256 ^ csize t
    \<and> read_member e' (write_member e x b) = read_member e' b
    \<and> read_member [''m_source''] (write_member e x b) = get_le 0 4 b
    \<and> read_member [''m_type''] (write_member e x b) = get_le 4 4 b
    \<and> (i < 8 \<or> 64 \<le> i \<longrightarrow> write_member e x b i = b i)"
proof -
  from assms(1) obtain q where e: "member_path e = ['''', m, f]" "member message_t ['''', m, f] = Some (q, t)"
    unfolding names_field_def by auto
  from assms(2) obtain r where e': "member_path e' = ['''', m, g]" "member message_t ['''', m, g] = Some (r, u)"
    unfolding names_field_def by auto
  have q: "8 \<le> q" using e(2) by (auto elim: member_payload)
  have q64: "q + csize t \<le> 64" using member_inside [OF e(2)] by (simp add: message_size)
  have apart: "q + csize t \<le> r \<or> r + csize u \<le> q"
    using payload_fields_apart [OF e(2) e'(2) names_field_different [OF assms]] .
  have heads: "member_path [''m_source''] = [''m_source'']" "member_path [''m_type''] = [''m_type'']"
    by (simp_all add: member_names_def)
  have sizes: "csize endpoint_t = 4" "csize c_int = 4" by (simp_all add: layout)
  note defs = read_member_def write_member_def get_field_def put_field_def e e' heads sizes
    message_members option.case prod.case
  show ?thesis
  proof (intro conjI impI)
    show "read_member e (write_member e x b) = x mod 256 ^ csize t"
      unfolding defs by (rule get_put_le)
    show "read_member e' (write_member e x b) = read_member e' b"
      unfolding defs using apart by (intro get_put_le_disjoint) auto
    show "read_member [''m_source''] (write_member e x b) = get_le 0 4 b"
      unfolding defs using q by (intro get_put_le_disjoint) auto
    show "read_member [''m_type''] (write_member e x b) = get_le 4 4 b"
      unfolding defs using q by (intro get_put_le_disjoint) auto
    show "write_member e x b i = b i" if "i < 8 \<or> 64 \<le> i"
      unfolding defs using that q q64 by (auto simp: put_le_def)
  qed
qed

lemma names_field_m1:
  "names_field [''m1_i1''] ''m_m1'' ''m1i1'' c_int" "names_field [''m1_i2''] ''m_m1'' ''m1i2'' c_int"
proof -
  have "find_field ''m_m1'' (fields_of (Union (message_members_1 @ message_members_2))) = Some (0, Struct mess_1)"
    by (simp add: find_field_Union map_of_append_case generic_payloads del: fields_of.simps map_of_append)
  then have "member message_t ['''', ''m_m1'', ''m1i1''] = Some (16, c_int)"
    "member message_t ['''', ''m_m1'', ''m1i2''] = Some (20, c_int)"
    by (simp_all add: member.simps(2) message_fields_of del: fields_of.simps(2))
      (simp_all add: mess_1_def layout round_up_def Let_def)
  then show "names_field [''m1_i1''] ''m_m1'' ''m1i1'' c_int" "names_field [''m1_i2''] ''m_m1'' ''m1i2'' c_int"
    by (simp_all add: names_field_def member_names_def)
qed

theorem message_members_independent_witness:
  "read_member [''m1_i1''] (write_member [''m1_i1''] 4294967298 (\<lambda>_. 7)) = 2
    \<and> read_member [''m1_i2''] (write_member [''m1_i1''] 4294967298 (\<lambda>_. 7)) = read_member [''m1_i2''] (\<lambda>_. 7)"
  using message_members_independent [OF names_field_m1, of 4294967298 "\<lambda>_. 7"]
  by (simp add: layout)

end
