(* ===== verification/Lab5_Move.thy ===== *)
theory Lab5_Move
  imports Lab5
begin

text \<open>
  The animation of \<open>lab5\<close>: \<open>xpm_move\<close> against a reference that draws the picture at the listed places one
  after the other. The list is a function of the distance, the speed and the frame rate alone: every
  \<open>frames\<close>-th interrupt shows the picture where it is, and a step that would pass the target shows it
  at the target.
\<close>


section \<open>Moving the picture\<close>

text \<open>The picture is on the screen with its corner anywhere up to \<open>(X, Y)\<close>.\<close>

definition fits_at :: "xpm_image \<Rightarrow> video_st \<Rightarrow> u16 \<Rightarrow> u16 \<Rightarrow> bool" where
  "fits_at img v X Y \<longleftrightarrow> unat X + unat (width img) \<le> scr_w v \<and> unat Y + unat (height img) \<le> scr_h v
     \<and> unat (width img) * unat (height img) \<le> length (bytes img)"

text \<open>A mapped screen with the resolution of \<open>v0\<close> on which the picture is the current one.\<close>

definition showing :: "xpm_image \<Rightarrow> video_st \<Rightarrow> video_st \<Rightarrow> bool" where
  "showing img v0 v \<longleftrightarrow> wf_video v \<and> h_res v = h_res v0 \<and> v_res v = v_res v0
     \<and> img_width v = width img \<and> img_height v = height img"

lemma frame_rest_showing:
  assumes "frame_rest v' = frame_rest v" and "wf_video v'"
  shows "showing img v0 v \<Longrightarrow> showing img v0 v'"
proof -
  have "img_width v' = img_width v" "img_height v' = img_height v"
    using arg_cong [OF assms(1), of img_width] arg_cong [OF assms(1), of img_height]
    by (simp_all add: frame_rest_def)
  then show "showing img v0 v \<Longrightarrow> showing img v0 v'"
    using frame_rest_eqD [OF assms(1)] assms(2) by (simp add: showing_def)
qed

lemma wf_video_img [simp]: "wf_video (v\<lparr>img_height := a, img_width := b\<rparr>) = wf_video v"
  by (simp add: wf_video_def)

text \<open>What the picture covers when its corner is at \<open>p\<close>, and what it shows there.\<close>

definition covers :: "xpm_image \<Rightarrow> u16 \<times> u16 \<Rightarrow> nat \<Rightarrow> nat \<Rightarrow> bool" where
  "covers img p a b \<longleftrightarrow> unat (fst p) \<le> a \<and> a < unat (fst p) + unat (width img)
     \<and> unat (snd p) \<le> b \<and> b < unat (snd p) + unat (height img)"

definition picture :: "xpm_image \<Rightarrow> u16 \<times> u16 \<Rightarrow> nat \<Rightarrow> nat \<Rightarrow> u32" where
  "picture img p a b = ucast (bytes img ! ((b - unat (snd p)) * unat (width img) + (a - unat (fst p))))"

text \<open>Erasing and drawing do not fault on the screen, and change exactly what the picture covers.\<close>

lemma take_bit_ucast_byte: "8 \<le> n \<Longrightarrow> take_bit n (ucast c :: u32) = ucast (c :: u8)"
  using bit_imp_le_length [of c]
  by (intro bit_eqI) (fastforce simp: bit_take_bit_iff bit_ucast_iff)

lemma lab5_hline_1: "lab5_vg_draw_hline x y 1 c v = vg_draw_pixel x y c v"
proof -
  have "unat x + unat (1 :: u16) \<le> 2 ^ 16" using unat_less [of x] by simp
  then show ?thesis by (simp add: lab5_hline_eq vg_draw_hline_def)
qed

lemma erase_pixels:
  assumes v: "showing img v0 v" and w: "unat (fst p) + unat (width img) \<le> scr_w v0"
    and h: "unat (snd p) + unat (height img) \<le> scr_h v0"
  shows "\<exists>v'. lab5_vg_draw_rectangle (fst p) (snd p) (img_width v) (img_height v) 0 v = Inr v' \<and> showing img v0 v'
    \<and> (\<forall>a < scr_w v0. \<forall>b < scr_h v0. pixel v' a b = (if covers img p a b then 0 else pixel v a b))"
proof -
  have s: "wf_video v" "scr_w v = scr_w v0" "scr_h v = scr_h v0" "img_width v = width img" "img_height v = height img"
    using v by (simp_all add: showing_def)
  obtain v' where v': "for_n (unat (height img)) (\<lambda>j. for_n (unat (width img))
        (\<lambda>i. vg_draw_pixel (fst p + of_nat i) (snd p + of_nat j) 0)) v = Inr v'" "wf_video v'" "frame_rest v' = frame_rest v"
      "\<And>x' y'. x' < scr_w v \<Longrightarrow> y' < scr_h v \<Longrightarrow> pixel v' x' y' =
        (if unat (fst p) \<le> x' \<and> x' < unat (fst p) + unat (width img)
            \<and> unat (snd p) \<le> y' \<and> y' < unat (snd p) + unat (height img)
         then take_bit (8 * bpp v) 0 else pixel v x' y')"
    by (rule block_on_screen [OF s(1), of "fst p" "unat (width img)" "snd p" "unat (height img)" "\<lambda>_ _. 0"])
      (use w h s in simp_all)
  have "unat (fst p) + unat (width img) \<le> 2 ^ 16" using w s(1,2) by (simp add: wf_video_def)
  then have "lab5_vg_draw_rectangle (fst p) (snd p) (img_width v) (img_height v) 0 v = Inr v'"
    using v'(1) by (simp add: s lab5_rectangle_eq vg_draw_hline_def)
  moreover have "showing img v0 v'" by (rule frame_rest_showing [OF v'(3,2) v])
  ultimately show ?thesis using v'(4) s(2,3) by (intro exI [of _ v']) (simp add: covers_def)
qed

lemma draw_pixels:
  assumes img: "img = xpm_load S rato XPM_8_8_8 uninit" and f: "fits_at img v0 X Y"
    and xy: "fst p \<le> X" "snd p \<le> Y" and v: "wf_video v" "h_res v = h_res v0" "v_res v = v_res v0"
  shows "\<exists>v'. xpm_drawer S rato uninit xpm (fst p) (snd p) v = Inr v' \<and> showing img v0 v'
    \<and> (\<forall>a < scr_w v0. \<forall>b < scr_h v0.
          pixel v' a b = (if covers img p a b then picture img p a b else pixel v a b))"
proof -
  let ?v = "v\<lparr>img_height := height img, img_width := width img\<rparr>"
  have le: "unat (fst p) \<le> unat X" "unat (snd p) \<le> unat Y" using xy by (simp_all add: word_le_nat_alt)
  have s: "wf_video ?v" "unat (fst p) + unat (width img) \<le> scr_w ?v" "unat (snd p) + unat (height img) \<le> scr_h ?v"
    using f v le by (simp_all add: fits_at_def)
  have byte: "ucast (c :: u8) = take_bit (8 * bpp ?v) (ucast c :: u32)" for c
    using s(1) by (intro sym [OF take_bit_ucast_byte]) (simp_all add: wf_video_def)
  obtain v' where v': "for_n (unat (height img)) (\<lambda>j. for_n (unat (width img)) (\<lambda>i. vg_draw_pixel (fst p + of_nat i)
        (snd p + of_nat j) (ucast (bytes img ! (j * unat (width img) + i))))) ?v = Inr v'"
      "wf_video v'" "frame_rest v' = frame_rest ?v"
      "\<And>x' y'. x' < scr_w ?v \<Longrightarrow> y' < scr_h ?v \<Longrightarrow> pixel v' x' y' =
        (if unat (fst p) \<le> x' \<and> x' < unat (fst p) + unat (width img)
            \<and> unat (snd p) \<le> y' \<and> y' < unat (snd p) + unat (height img)
         then take_bit (8 * bpp ?v) (ucast (bytes img ! ((y' - unat (snd p)) * unat (width img) + (x' - unat (fst p)))))
         else pixel ?v x' y')"
    by (rule block_on_screen [OF s, of "\<lambda>i j. ucast (bytes img ! (j * unat (width img) + i))"]) blast
  have "row * unat (width img) + col < length (bytes img)"
    if "row < unat (height img)" "col < unat (width img)" for row col
    using cell_index_less [OF that(2,1)] f by (simp add: fits_at_def)
  then have "xpm_drawer S rato uninit xpm (fst p) (snd p) v = Inr v'"
    unfolding xpm_drawer_def Let_def img [symmetric] v'(1) [symmetric]
    by (intro fun_cong [OF for_n_cong [OF refl]] fun_cong [OF for_n_cong [OF refl]]) (simp only: lab5_hline_1 if_True)
  moreover have "showing img v0 v'"
    using frame_rest_showing [OF v'(3,2)] v by (simp add: showing_def)
  moreover have "pixel ?v = pixel v" by (simp add: pixel_def fun_eq_iff)
  ultimately show ?thesis
    using v'(4) v byte [symmetric] by (intro exI [of _ v']) (simp add: covers_def picture_def)
qed

lemma redraw_showing:
  assumes img: "img = xpm_load S rato XPM_8_8_8 uninit" and f: "fits_at img v0 X Y" and v: "showing img v0 v"
    and l: "prevX l \<le> X" "prevY l \<le> Y" "move_xi l \<le> X" "move_yi l \<le> Y"
  shows "\<exists>v'. redraw S rato uninit xpm l v = Inr v' \<and> showing img v0 v'"
proof -
  have "unat (prevX l) \<le> unat X" "unat (prevY l) \<le> unat Y" using l(1,2) by (simp_all add: word_le_nat_alt)
  then obtain u where u: "lab5_vg_draw_rectangle (prevX l) (prevY l) (img_width v) (img_height v) 0 v = Inr u"
      "showing img v0 u"
    using erase_pixels [OF v, of "(prevX l, prevY l)"] f by (auto simp: fits_at_def)
  then obtain v' where "xpm_drawer S rato uninit xpm (move_xi l) (move_yi l) u = Inr v'" "showing img v0 v'"
    using draw_pixels [OF img f, of "(move_xi l, move_yi l)" u xpm] l(3,4) by (auto simp: showing_def)
  with u(1) show ?thesis by (simp add: redraw_def)
qed


section \<open>The reference\<close>

text \<open>The pictures of an animation that has the picture at \<open>q\<close> on the screen.\<close>

fun animate ::
    "'w sys \<Rightarrow> xpm_map \<Rightarrow> xpm_image \<Rightarrow> xpm_map \<Rightarrow> u16 \<times> u16 \<Rightarrow> (u16 \<times> u16) list \<Rightarrow> video_st \<Rightarrow>
     fault + video_st" where
  "animate S rato uninit xpm q [] v = Inr v"
| "animate S rato uninit xpm q (p # ps) v =
     bind_res (lab5_vg_draw_rectangle (fst q) (snd q) (img_width v) (img_height v) 0 v) (\<lambda>v.
     bind_res (xpm_drawer S rato uninit xpm (fst p) (snd p) v) (animate S rato uninit xpm p ps))"

lemma animate_Nil [simp]: "animate S rato uninit xpm q [] = Inr"
  by (rule ext) simp

lemma animate_snoc:
  "animate S rato uninit xpm q (ps @ [p]) v =
     bind_res (animate S rato uninit xpm q ps v)
       (animate S rato uninit xpm (last (q # ps)) [p])"
  by (induction ps arbitrary: q v) (auto simp: bind_res_def split: sum.splits)

text \<open>
  What an animation leaves on a background: the picture at the last place, black at the places before.
\<close>

definition animated :: "xpm_image \<Rightarrow> (u16 \<times> u16) list \<Rightarrow> (nat \<Rightarrow> nat \<Rightarrow> u32) \<Rightarrow> nat \<Rightarrow> nat \<Rightarrow> u32" where
  "animated img places bg a b =
     (if covers img (last places) a b then picture img (last places) a b
      else if \<exists>p \<in> set (butlast places). covers img p a b then 0
      else bg a b)"

lemma animate_pixels:
  assumes img: "img = xpm_load S rato XPM_8_8_8 uninit" and f: "fits_at img v0 X Y"
    and ab: "a < scr_w v0" "b < scr_h v0"
  shows "showing img v0 v \<Longrightarrow> \<forall>p \<in> set (q # ps). fst p \<le> X \<and> snd p \<le> Y \<Longrightarrow>
    animate S rato uninit xpm q ps v = Inr v' \<Longrightarrow>
    pixel v' a b = (if ps = [] then pixel v a b else animated img (q # ps) (pixel v) a b)"
proof (induction ps arbitrary: q v)
  case (Cons p ps)
  have le: "fst q \<le> X" "snd q \<le> Y" "fst p \<le> X" "snd p \<le> Y" using Cons.prems(2) by simp_all
  have "unat (fst q) + unat (width img) \<le> scr_w v0" "unat (snd q) + unat (height img) \<le> scr_h v0"
    using f le(1,2) by (auto simp: fits_at_def word_le_nat_alt)
  then obtain u where u: "lab5_vg_draw_rectangle (fst q) (snd q) (img_width v) (img_height v) 0 v = Inr u"
      "showing img v0 u" "pixel u a b = (if covers img q a b then 0 else pixel v a b)"
    using erase_pixels [OF Cons.prems(1), of q] ab by auto
  obtain w where w: "xpm_drawer S rato uninit xpm (fst p) (snd p) u = Inr w" "showing img v0 w"
      "pixel w a b = (if covers img p a b then picture img p a b else pixel u a b)"
    using draw_pixels [OF img f le(3,4), of u xpm] u(2) ab by (auto simp: showing_def)
  have "animate S rato uninit xpm p ps w = Inr v'" using Cons.prems(3) u(1) w(1) by simp
  then have "pixel v' a b = (if ps = [] then pixel w a b else animated img (p # ps) (pixel w) a b)"
    using Cons.prems(2) by (intro Cons.IH [OF w(2)]) simp_all
  then show ?case using u(3) w(3) by (auto simp: animated_def)
qed simp

lemma drawn_and_animated:
  assumes img: "img = xpm_load S rato XPM_8_8_8 uninit" and f: "fits_at img v X Y" and v: "wf_video v"
    and ps: "\<forall>p \<in> set (q # ps). fst p \<le> X \<and> snd p \<le> Y"
    and run: "bind_res (xpm_drawer S rato uninit xpm (fst q) (snd q) v) (animate S rato uninit xpm q ps) = Inr v'"
    and ab: "a < scr_w v" "b < scr_h v"
  shows "pixel v' a b = animated img (q # ps) (pixel v) a b"
proof -
  obtain u where u: "xpm_drawer S rato uninit xpm (fst q) (snd q) v = Inr u" "showing img v u"
      "pixel u a b = (if covers img q a b then picture img q a b else pixel v a b)"
    using draw_pixels [OF img f, of q v xpm] ps v ab by auto
  have "animate S rato uninit xpm q ps u = Inr v'" using run u(1) by simp
  from animate_pixels [OF img f ab u(2) ps this] u(3) show ?thesis
    by (auto simp: animated_def)
qed

text \<open>The coordinates at which the picture is drawn: by the \<open>k\<close>-th interrupt, and by the first \<open>n\<close>.\<close>

definition drawn_at :: "nat \<Rightarrow> u16 \<Rightarrow> u16 \<Rightarrow> nat \<Rightarrow> nat \<Rightarrow> u16 list" where
  "drawn_at p0 p1 speed frames k =
     (let p = p0 + k * unat speed
      in if unat p1 < p then [p1] else if k mod frames = 0 then [of_nat p] else [])"

definition trajectory :: "nat \<Rightarrow> u16 \<Rightarrow> u16 \<Rightarrow> nat \<Rightarrow> nat \<Rightarrow> u16 list" where
  "trajectory p0 p1 speed frames n = concat (map (drawn_at p0 p1 speed frames) [1..<Suc n])"

lemma trajectory_simps [simp]:
  "trajectory p0 p1 speed frames 0 = []"
  "trajectory p0 p1 speed frames (Suc n) = trajectory p0 p1 speed frames n @ drawn_at p0 p1 speed frames (Suc n)"
  by (simp_all add: trajectory_def)

lemma drawn_at_le:
  assumes "p \<in> set (drawn_at p0 p1 speed frames k)"
  shows "p \<le> p1"
proof -
  have "of_nat n \<le> p1" if "n \<le> unat p1" for n
  proof -
    have "n < 2 ^ 16" using that unat_less [of p1] by simp
    then show ?thesis using that by (simp add: word_le_nat_alt unat_of_nat_small)
  qed
  moreover have "p = p1 \<or> (\<exists>n \<le> unat p1. p = of_nat n)"
    using assms by (auto simp: drawn_at_def Let_def not_less simp del: of_nat_add of_nat_mult split: if_splits)
  ultimately show ?thesis by auto
qed

lemma trajectory_le: "p \<in> set (trajectory p0 p1 speed frames n) \<Longrightarrow> p \<le> p1"
  by (induction n) (auto dest: drawn_at_le)

text \<open>
  When the distance is a number of whole steps that is not a multiple of \<open>frames\<close>, the picture is never drawn at
  the target.
\<close>

lemma trajectory_stops_short:
  assumes "unat p1 = p0 + n * unat speed" and "n mod frames \<noteq> 0" and "0 < unat speed"
  shows "p1 \<notin> set (trajectory p0 p1 speed frames n)"
proof
  assume "p1 \<in> set (trajectory p0 p1 speed frames n)"
  then obtain k where k: "k \<in> set [1..<Suc n]" "p1 \<in> set (drawn_at p0 p1 speed frames k)"
    unfolding trajectory_def set_concat set_map by blast
  have le: "p0 + k * unat speed \<le> unat p1" using k(1) by (auto simp: assms(1))
  then have p: "k mod frames = 0" "p1 = of_nat (p0 + k * unat speed)"
    using k(2) by (auto simp: drawn_at_def Let_def split: if_splits)
  have "unat p1 = p0 + k * unat speed"
    by (subst p(2), rule unat_of_nat_small) (use le unat_less [of p1] in simp)
  then have "k = n" using assms(1,3) by simp
  with p(1) assms(2) show False by simp
qed

text \<open>The place of a coordinate on a row (\<open>h\<close>) or a column, the other coordinate being \<open>c\<close>.\<close>

definition place :: "bool \<Rightarrow> u16 \<Rightarrow> u16 \<Rightarrow> u16 \<times> u16" where
  "place h c p = (if h then (p, c) else (c, p))"

text \<open>
  The position after \<open>k\<close> timer interrupts: \<open>speed\<close> pixels for each, and \<open>xf\<close> after the number of steps that
  cover the distance, the last of which may be shorter.
\<close>

definition steps_to :: "nat \<Rightarrow> u16 \<Rightarrow> u16 \<Rightarrow> nat" where
  "steps_to x0 xf speed = (unat xf - x0 + unat speed - 1) div unat speed"

definition at_step :: "nat \<Rightarrow> u16 \<Rightarrow> u16 \<Rightarrow> u16 \<Rightarrow> nat \<Rightarrow> bool" where
  "at_step x0 xf speed p k \<longleftrightarrow>
     (if p < xf then unat p = x0 + k * unat speed else p = xf \<and> k = steps_to x0 xf speed)"

lemma sint_pos: "0 < sint (x :: u16) \<Longrightarrow> sint x = int (unat x) \<and> 0 < unat x"
proof -
  assume pos: "0 < sint x"
  have "sint x = take_bit 16 (uint x) - 65536 * of_bool (bit (uint x) 15)"
    using signed_take_bit_eq_take_bit_minus [of 15 "uint x"] by (simp add: sint_uint)
  moreover have "take_bit 16 (uint x) = uint x" by (simp add: take_bit_int_eq_self uint_lt2p [of x, simplified])
  ultimately have "sint x = uint x"
    using pos uint_lt2p [of x] by (cases "bit (uint x) 15") simp_all
  then show ?thesis using pos by (metis uint_nat of_nat_0_less_iff)
qed

lemma advance_eq:
  assumes "0 < sint speed"
  shows "advance p xf speed = (if unat xf < unat p + unat speed then (xf, True) else (p + speed, False))"
  using sint_pos [OF assms] unfolding advance_def by (simp only: uint_nat flip: of_nat_add of_nat_less_iff [where ?'a = int])

lemma steps_to_eq:
  fixes v d k :: nat
  assumes "0 < v" and "k * v < d" and "d \<le> Suc k * v"
  shows "(d + v - 1) div v = Suc k"
proof (rule div_nat_eqI)
  show "v * Suc k \<le> d + v - 1" using assms by (simp add: mult.commute)
  show "d + v - 1 < v * Suc (Suc k)" using assms by (simp add: mult.commute)
qed

lemma advance_step:
  assumes k: "at_step x0 xf speed p k" and p: "p < xf" and speed: "0 < sint speed"
  obtains p' reached where "advance p xf speed = (p', reached)" "p < p'" "p' \<le> xf"
    "at_step x0 xf speed p' (Suc k)"
    "\<And>frames. drawn_at x0 xf speed frames (Suc k) = (if reached \<or> Suc k mod frames = 0 then [p'] else [])"
    "reached \<Longrightarrow> p' = xf"
proof -
  have s: "sint speed = int (unat speed)" "0 < unat speed" using sint_pos [OF speed] by simp_all
  have pk: "unat p = x0 + k * unat speed" using k p by (simp add: at_step_def)
  have lt: "unat p < unat xf" using p by (simp add: word_less_nat_alt)
  have pos: "x0 + Suc k * unat speed = unat p + unat speed" by (simp add: pk)
  have d: "drawn_at x0 xf speed fr (Suc k)
      = (if unat xf < unat p + unat speed then [xf] else if Suc k mod fr = 0 then [p + speed] else [])" for fr
    unfolding drawn_at_def Let_def pos by simp
  have last: "steps_to x0 xf speed = Suc k" if "unat xf \<le> unat p + unat speed"
    unfolding steps_to_def using that lt pk s(2) by (intro steps_to_eq) simp_all
  show ?thesis
  proof (cases "unat xf < unat p + unat speed")
    case True
    then have a: "advance p xf speed = (xf, True)" by (simp add: advance_eq [OF speed])
    have k': "at_step x0 xf speed xf (Suc k)"
      using last [OF less_imp_le [OF True]] unfolding at_step_def by simp
    show ?thesis by (rule that [OF a p _ k']) (simp_all add: d True)
  next
    case False
    then have a: "advance p xf speed = (p + speed, False)" by (simp add: advance_eq [OF speed])
    have u: "unat (p + speed) = unat p + unat speed"
      using False unat_less [of xf] by (intro unat_add_no_wrap) simp
    have "at_step x0 xf speed (p + speed) (Suc k)"
    proof (cases "p + speed < xf")
      case True
      then show ?thesis by (simp add: at_step_def u pk)
    next
      case False
      then have "unat (p + speed) = unat xf"
        using u \<open>\<not> unat xf < unat p + unat speed\<close> by (simp add: word_less_nat_alt)
      then have "p + speed = xf" "unat xf \<le> unat p + unat speed" using u by (simp_all add: word_unat_eq_iff)
      then show ?thesis using last unfolding at_step_def by simp
    qed
    moreover have "p < p + speed" "p + speed \<le> xf"
      using u s False by (simp_all add: word_less_nat_alt word_le_nat_alt)
    ultimately show ?thesis by (intro that [OF a]) (simp_all add: d False)
  qed
qed


section \<open>The loop\<close>

definition move_at :: "bool \<Rightarrow> u16 \<Rightarrow> u16 \<Rightarrow> u16 \<Rightarrow> move_locals" where
  "move_at h c p q = \<lparr>move_xi = fst (place h c p), move_yi = snd (place h c p),
     prevX = fst (place h c q), prevY = snd (place h c q)\<rparr>"

text \<open>
  \<open>v1\<close> is the screen after the first drawing. As long as the target is not reached, \<open>prevX\<close> and
  \<open>prevY\<close> are the place of the picture on the screen.
\<close>

definition move_inv ::
    "'w sys \<Rightarrow> ('w \<Rightarrow> nat) \<Rightarrow> xpm_map \<Rightarrow> xpm_image \<Rightarrow> xpm_map \<Rightarrow> video_st \<Rightarrow> video_st \<Rightarrow> bool \<Rightarrow> u16 \<Rightarrow>
     nat \<Rightarrow> u16 \<Rightarrow> u16 \<Rightarrow> nat \<Rightarrow> move_locals \<times> ('w, 'z) prog_st_scheme \<Rightarrow> bool" where
  "move_inv S busy rato uninit xpm v0 v1 h c p0 p1 speed frames ls \<longleftrightarrow>
     (case ls of (l, s) \<Rightarrow>
        keeps_interrupting S 0 busy \<and> silent S 1 \<and> 0 < sint speed \<and> 0 < frames
        \<and> fits_at (xpm_load S rato XPM_8_8_8 uninit) v0 (fst (place h c p1)) (snd (place h c p1))
        \<and> showing (xpm_load S rato XPM_8_8_8 uninit) v0 (vid s) \<and> scanCode s \<noteq> 0x81
        \<and> (let k = unat (totalInterrupts s); ps = trajectory p0 p1 speed frames k
           in animate S rato uninit xpm (place h c (of_nat p0)) (map (place h c) ps) v1 = Inr (vid s)
              \<and> (\<exists>p q. l = move_at h c p q \<and> p \<le> p1 \<and> q \<le> p1 \<and> at_step p0 p1 speed p k
                    \<and> (p < p1 \<longrightarrow> q = last (of_nat p0 # ps)))))"

definition coordinate :: "bool \<Rightarrow> move_locals \<Rightarrow> u16" where
  "coordinate h l = (if h then move_xi l else move_yi l)"

lemma coordinate_move_at [simp]: "coordinate h (move_at h c p q) = p"
  by (simp add: coordinate_def move_at_def place_def)

lemma place_le: "p \<le> p1 \<Longrightarrow> fst (place h c p) \<le> fst (place h c p1)" "p \<le> p1 \<Longrightarrow> snd (place h c p) \<le> snd (place h c p1)"
  by (simp_all add: place_def)

lemma redraw_animate:
  "redraw S rato uninit xpm (move_at h c p q) v = animate S rato uninit xpm (place h c q) [place h c p] v"
  by (simp add: redraw_def move_at_def)

lemma animate_place_snoc:
  "animate S rato uninit xpm (place h c p) (map (place h c) (ps @ [x])) v =
     bind_res (animate S rato uninit xpm (place h c p) (map (place h c) ps) v)
       (animate S rato uninit xpm (place h c (last (p # ps))) [place h c x])"
proof -
  have "last (map (place h c) (p # ps)) = place h c (last (p # ps))" by (rule last_map) simp
  then show ?thesis by (simp add: animate_snoc del: animate.simps)
qed

lemma move_tick_small:
  assumes "at_step x0 xf speed p k" and "p < xf" and "0 < sint speed"
  shows "k < 2 ^ 16"
proof -
  have "k \<le> k * unat speed" using sint_pos [OF assms(3)] by simp
  also have "\<dots> \<le> unat p" using assms(1,2) by (simp add: at_step_def)
  also have "\<dots> < 2 ^ 16" using unat_less [of p] by simp
  finally show ?thesis .
qed

lemma advance_move_at:
  assumes "(if h then xf else yf) = p1" and "advance p p1 speed = (p', reached)"
  shows "(if h then let (a, reached) = advance (move_xi (move_at h c p q)) xf speed in ((move_at h c p q)\<lparr>move_xi := a\<rparr>, reached)
     else let (a, reached) = advance (move_yi (move_at h c p q)) yf speed in ((move_at h c p q)\<lparr>move_yi := a\<rparr>, reached))
     = (move_at h c p' q, reached)"
  using assms by (cases h) (auto simp: move_at_def place_def)

lemma tick_mod:
  assumes "unat n < 2147483648"
  shows "sint (n :: u32) mod int frames = 0 \<longleftrightarrow> unat n mod frames = 0"
  unfolding sint_small [OF assms] by (metis of_nat_mod of_nat_eq_0_iff)

lemma move_inv_next:
  assumes "move_inv S busy rato uninit xpm v0 v1 h c p0 p1 speed frames ls"
    and "scanCode t = scanCode (snd ls)" and "unat (totalInterrupts t) = k"
    and "showing (xpm_load S rato XPM_8_8_8 uninit) v0 (vid t)"
    and "animate S rato uninit xpm (place h c (of_nat p0)) (map (place h c) (trajectory p0 p1 speed frames k)) v1
      = Inr (vid t)"
    and "p \<le> p1" "q \<le> p1" "at_step p0 p1 speed p k"
    and "p < p1 \<Longrightarrow> q = last (of_nat p0 # trajectory p0 p1 speed frames k)"
  shows "move_inv S busy rato uninit xpm v0 v1 h c p0 p1 speed frames (move_at h c p q, t)"
proof (cases ls)
  case (Pair l s)
  show ?thesis
    using assms(1,4-9) unfolding move_inv_def Let_def Pair prod.case assms(2,3) snd_conv
    by (intro conjI exI [of _ p] exI [of _ q] impI) simp_all
qed

lemma xpm_move_ih_tick:
  assumes I: "move_inv S busy rato uninit xpm v0 v1 h c p0 p1 speed frames (l, s)"
    and target: "(if h then xf else yf) = p1" and p: "coordinate h l < p1" and r: "raised ints 0" "\<not> raised ints 1"
  shows "\<exists>l' s'. xpm_move_ih S rato uninit xpm xf yf speed (int frames) h 0 1 ints (l, s) = Inr (l', s')
    \<and> move_inv S busy rato uninit xpm v0 v1 h c p0 p1 speed frames (l', s') \<and> coordinate h l < coordinate h l'"
proof -
  let ?k = "unat (totalInterrupts s)"
  let ?ps = "trajectory p0 p1 speed frames"
  obtain x q where l: "l = move_at h c x q" "x \<le> p1" "q \<le> p1" "at_step p0 p1 speed x ?k"
      "x < p1 \<longrightarrow> q = last (of_nat p0 # ?ps ?k)"
      and anim: "animate S rato uninit xpm (place h c (of_nat p0)) (map (place h c) (?ps ?k)) v1 = Inr (vid s)"
      and rest: "0 < sint speed" "0 < frames" "showing (xpm_load S rato XPM_8_8_8 uninit) v0 (vid s)"
        "fits_at (xpm_load S rato XPM_8_8_8 uninit) v0 (fst (place h c p1)) (snd (place h c p1))"
    using I by (auto simp: move_inv_def Let_def)
  have x: "x < p1" and q: "q = last (of_nat p0 # ?ps ?k)" using p l(5) by (simp_all add: l(1))
  obtain x' reached where a: "advance x p1 speed = (x', reached)" "x < x'" "x' \<le> p1"
      "at_step p0 p1 speed x' (Suc ?k)"
      "\<And>frames. drawn_at p0 p1 speed frames (Suc ?k) = (if reached \<or> Suc ?k mod frames = 0 then [x'] else [])"
      "reached \<Longrightarrow> x' = p1"
    using advance_step [OF l(4) x rest(1)] by metis
  have k: "unat (totalInterrupts s + 1) = Suc ?k"
    using move_tick_small [OF l(4) x rest(1)] unat_add_of_nat [of "totalInterrupts s" 1] by simp
  have "unat (totalInterrupts s + 1) < 2147483648" using move_tick_small [OF l(4) x rest(1)] by (simp add: k)
  then have mod0: "sint (totalInterrupts s + 1) mod int frames = 0 \<longleftrightarrow> Suc ?k mod frames = 0"
    by (simp add: tick_mod k)
  obtain v' where v': "redraw S rato uninit xpm (move_at h c x' q) (vid s) = Inr v'"
      "showing (xpm_load S rato XPM_8_8_8 uninit) v0 v'"
    using redraw_showing [OF refl rest(4,3), of "move_at h c x' q" xpm] a(3) l(3) place_le
    by (auto simp: move_at_def)
  let ?s = "s\<lparr>totalInterrupts := totalInterrupts s + 1\<rparr>"
  note adv = advance_move_at [of h xf yf p1 x speed x' reached c q, OF target a(1)]
  show ?thesis
  proof (cases "reached \<or> Suc ?k mod frames = 0")
    case True
    have next_ps: "?ps (Suc ?k) = ?ps ?k @ [x']" using True by (simp add: a(5))
    have anim': "animate S rato uninit xpm (place h c (of_nat p0)) (map (place h c) (?ps (Suc ?k))) v1 = Inr v'"
      using anim v'(1) unfolding next_ps q redraw_animate animate_place_snoc by (simp del: animate.simps)
    let ?q = "if reached then q else x'"
    have "xpm_move_ih S rato uninit xpm xf yf speed (int frames) h 0 1 ints (l, s) = Inr (move_at h c x' ?q, ?s\<lparr>vid := v'\<rparr>)"
      using r True v' adv rest(2) mod0 unfolding l(1)
      by (auto simp: xpm_move_ih_def set_vid_def) (simp_all add: move_at_def)
    moreover have "move_inv S busy rato uninit xpm v0 v1 h c p0 p1 speed frames (move_at h c x' ?q, ?s\<lparr>vid := v'\<rparr>)"
      by (rule move_inv_next [OF I, where k = "Suc ?k"])
        (use anim' v'(2) a(3,4,6) l(3) k in \<open>auto simp: next_ps simp del: trajectory_simps\<close>)
    ultimately show ?thesis using a(2) l(1) by auto
  next
    case False
    then have "xpm_move_ih S rato uninit xpm xf yf speed (int frames) h 0 1 ints (l, s) = Inr (move_at h c x' q, ?s)"
      using r adv rest(2) mod0 unfolding l(1) by (auto simp: xpm_move_ih_def)
    moreover have "move_inv S busy rato uninit xpm v0 v1 h c p0 p1 speed frames (move_at h c x' q, ?s)"
      by (rule move_inv_next [OF I, where k = "Suc ?k"])
        (use anim rest(3) a(3,4) l(3) k q False in \<open>simp_all add: a(5)\<close>)
    ultimately show ?thesis using a(2) l(1) by auto
  qed
qed

lemma xpm_move_ih_quiet:
  "\<not> raised ints 0 \<Longrightarrow> \<not> raised ints 1 \<Longrightarrow>
   xpm_move_ih S rato uninit xpm xf yf speed frames h 0 1 ints ls = Inr ls"
  by (cases ls) (simp add: xpm_move_ih_def)

lemma continueLoop_coordinate:
  "continueLoop (move_xi l) xf (move_yi l) yf h scan \<longleftrightarrow>
     scan \<noteq> 0x81 \<and> coordinate h l < (if h then xf else yf)"
  by (auto simp: continueLoop_def coordinate_def not_le not_less)

lemma move_inv_silent: "move_inv S busy rato uninit xpm v0 v1 h c p0 p1 speed frames ls \<Longrightarrow> silent S 1"
  by (auto simp: move_inv_def)

interpretation moving: driver_progress S
    "\<lambda>(l, s). continueLoop (move_xi l) xf (move_yi l) yf h (scanCode s)"
    "xpm_move_ih S rato uninit xpm xf yf speed (int frames) h 0 1"
    "\<lambda>ls. move_inv S busy rato uninit xpm v0 v1 h c p0 (if h then xf else yf) speed frames ls" 0
    "\<lambda>(l, s). unat (if h then xf else yf) - unat (coordinate h l)" busy
  for S rato uninit xpm xf yf speed frames busy v0 v1 h c p0
proof
  fix ls :: "move_locals \<times> ('a, 'b) prog_st_scheme" and w ints
  assume I: "move_inv S busy rato uninit xpm v0 v1 h c p0 (if h then xf else yf) speed frames ls"
    and b: "case ls of (l, s) \<Rightarrow> continueLoop (move_xi l) xf (move_yi l) yf h (scanCode s)"
    and d: "fst (receive_hw S w) = Some ints"
  have quiet: "\<not> raised ints 1" by (rule silent_D [OF move_inv_silent [OF I] d])
  show "\<exists>t. xpm_move_ih S rato uninit xpm xf yf speed (int frames) h 0 1 ints ls = Inr t
      \<and> move_inv S busy rato uninit xpm v0 v1 h c p0 (if h then xf else yf) speed frames t"
  proof (cases "raised ints 0")
    case True
    obtain l s where ls: "ls = (l, s)" by (cases ls)
    with b have "coordinate h l < (if h then xf else yf)" by (simp add: continueLoop_coordinate)
    with xpm_move_ih_tick [OF I [unfolded ls] refl _ True quiet] show ?thesis unfolding ls by blast
  qed (use I quiet in \<open>simp add: xpm_move_ih_quiet\<close>)
next
  fix ls t :: "move_locals \<times> ('a, 'b) prog_st_scheme" and w ints
  assume I: "move_inv S busy rato uninit xpm v0 v1 h c p0 (if h then xf else yf) speed frames ls"
    and b: "case ls of (l, s) \<Rightarrow> continueLoop (move_xi l) xf (move_yi l) yf h (scanCode s)"
    and d: "fst (receive_hw S w) = Some ints" "raised ints 0"
    and t: "xpm_move_ih S rato uninit xpm xf yf speed (int frames) h 0 1 ints ls = Inr t"
  obtain l s where ls: "ls = (l, s)" by (cases ls)
  with b have lt: "coordinate h l < (if h then xf else yf)" by (simp add: continueLoop_coordinate)
  have "coordinate h l < coordinate h (fst t)"
    using xpm_move_ih_tick [OF I [unfolded ls] refl lt d(2) silent_D [OF move_inv_silent [OF I] d(1)]] t
    by (auto simp: ls)
  with lt show "(case t of (l, s) \<Rightarrow> unat (if h then xf else yf) - unat (coordinate h l))
      < (case ls of (l, s) \<Rightarrow> unat (if h then xf else yf) - unat (coordinate h l))"
    unfolding ls word_less_nat_alt by (simp add: split_beta del: if_split)
next
  fix ls t :: "move_locals \<times> ('a, 'b) prog_st_scheme" and w ints
  assume I: "move_inv S busy rato uninit xpm v0 v1 h c p0 (if h then xf else yf) speed frames ls"
    and d: "fst (receive_hw S w) = Some ints"
    and r: "\<not> raised ints 0" "xpm_move_ih S rato uninit xpm xf yf speed (int frames) h 0 1 ints ls = Inr t"
  with silent_D [OF move_inv_silent [OF I] d] show "t = ls" by (simp add: xpm_move_ih_quiet)
qed (auto simp: move_inv_def)


section \<open>xpm_move\<close>

lemma move_inv_start:
  assumes "keeps_interrupting S 0 busy" "silent S 1" "0 < sint speed" "0 < frames" "p < p1"
    and "fits_at (xpm_load S rato XPM_8_8_8 uninit) v0 (fst (place h c p1)) (snd (place h c p1))"
    and "showing (xpm_load S rato XPM_8_8_8 uninit) v0 (vid s)" "scanCode s \<noteq> 0x81" "totalInterrupts s = 0"
  shows "move_inv S busy rato uninit xpm v0 (vid s) h c (unat p) p1 speed frames (move_at h c p p, s)"
  unfolding move_inv_def Let_def prod.case
  by (intro conjI exI [of _ p]) (use assms in \<open>simp_all add: at_step_def\<close>)

text \<open>Both directions at once: the moving coordinate goes from \<open>p0\<close> to \<open>p1\<close>, the other one is \<open>c\<close>.\<close>

lemma xpm_move_along:
  fixes s :: "('w, 'z) prog_st_scheme"
  assumes env: "keeps_interrupting S 0 busy" "silent S 1"
    and h: "h = (yi = yf)" and from_to: "place h c p0 = (xi, yi)" "p1 = (if h then xf else yf)" "p0 < p1"
    and screen: "wf_video (vid s)"
      "fits_at (xpm_load S rato XPM_8_8_8 uninit) (vid s) (fst (place h c p1)) (snd (place h c p1))"
    and args: "0 < sint speed" "0 < fr_rate" "fr_rate \<le> 60"
    and start: "totalInterrupts s = 0" "scanCode s \<noteq> ESC_BREAK_CODE"
  shows "\<exists>t. xpm_move S rato uninit xpm xi yi xf yf speed fr_rate s = Some (Inr (0, t))
    \<and> unat (totalInterrupts t) = steps_to (unat p0) p1 speed
    \<and> bind_res (xpm_drawer S rato uninit xpm xi yi (vid s)) (animate S rato uninit xpm (xi, yi)
        (map (place h c) (trajectory (unat p0) p1 speed (60 div unat fr_rate) (steps_to (unat p0) p1 speed))))
      = Inr (vid t)"
proof -
  let ?frames = "60 div unat fr_rate"
  obtain bt rt s1 bk rk s2 where sub: "timer_subscribe_int S s = (bt, rt, s1)"
      "keyboard_subscribe_int S s1 = (bk, rk, s2)"
    by (metis prod_cases3)
  then have s2: "bt = 0" "bk = 1" "vid s2 = vid s" "totalInterrupts s2 = 0" "scanCode s2 \<noteq> 0x81"
    using start by (auto simp: timer_subscribe_int_def keyboard_subscribe_int_def c_consts split: prod.splits)
  have le: "xi \<le> fst (place h c p1)" "yi \<le> snd (place h c p1)"
    using place_le [OF less_imp_le [OF from_to(3)], of h c] by (simp_all add: from_to(1))
  obtain v where v: "xpm_drawer S rato uninit xpm xi yi (vid s) = Inr v"
      "showing (xpm_load S rato XPM_8_8_8 uninit) (vid s) v"
    using draw_pixels [OF refl screen(2), of "(xi, yi)" "vid s" xpm] le screen(1) by auto
  let ?l = "\<lparr>move_xi = xi, move_yi = yi, prevX = xi, prevY = yi\<rparr>"
  have l: "?l = move_at h c p0 p0" by (simp add: move_at_def from_to(1))
  have fr: "0 < unat fr_rate" "unat fr_rate \<le> 60" using args(2,3) by (simp_all add: word_less_nat_alt word_le_nat_alt)
  have int: "60 div uint fr_rate = int ?frames" by (simp only: uint_nat zdiv_int of_nat_numeral)
  have frames: "0 < ?frames" using fr by (simp add: div_greater_zero_iff)
  have I0: "move_inv S busy rato uninit xpm (vid s) v h c (unat p0) p1 speed ?frames (?l, s2\<lparr>vid := v\<rparr>)"
    using move_inv_start [OF env args(1) frames from_to(3) screen(2), of "s2\<lparr>vid := v\<rparr>" xpm] s2 v(2)
    unfolding l by simp
  then obtain l t where
    t: "driver_loop S (\<lambda>(l, s). continueLoop (move_xi l) xf (move_yi l) yf h (scanCode s))
          (xpm_move_ih S rato uninit xpm xf yf speed (int ?frames) h 0 1) (?l, s2\<lparr>vid := v\<rparr>) = Some (Inr (l, t))"
    and I: "move_inv S busy rato uninit xpm (vid s) v h c (unat p0) p1 speed ?frames (l, t)"
    and stop: "\<not> continueLoop (move_xi l) xf (move_yi l) yf h (scanCode t)"
    using moving.returns [of S busy rato uninit xpm "vid s" v h c "unat p0" xf yf speed ?frames "(?l, s2\<lparr>vid := v\<rparr>)"]
      I0 [unfolded from_to(2)] unfolding from_to(2) by fast
  have n: "unat (totalInterrupts t) = steps_to (unat p0) p1 speed"
    using I stop by (auto simp: move_inv_def Let_def continueLoop_coordinate at_step_def from_to(2) [symmetric])
  have anim: "animate S rato uninit xpm (xi, yi)
      (map (place h c) (trajectory (unat p0) p1 speed ?frames (steps_to (unat p0) p1 speed))) v = Inr (vid t)"
    using I unfolding move_inv_def Let_def prod.case n by (simp add: from_to(1))
  obtain ru t1 rv t2 where un: "timer_unsubscribe_int S t = (ru, t1)" "keyboard_unsubscribe_int S t1 = (rv, t2)"
    by fastforce
  then have t2: "totalInterrupts t2 = totalInterrupts t" "vid t2 = vid t"
    by (auto simp: timer_unsubscribe_int_def keyboard_unsubscribe_int_def split: prod.splits)
  have "xpm_move S rato uninit xpm xi yi xf yf speed fr_rate s = Some (Inr (0, t2))"
    using args(2) t by (simp add: xpm_move_def sub s2 v set_vid_def int un flip: h)
  with n anim t2 v show ?thesis by auto
qed

lemma xpm_move_pixels:
  fixes s :: "('w, 'z) prog_st_scheme"
  assumes env: "keeps_interrupting S 0 busy" "silent S 1"
    and h: "h = (yi = yf)" and from_to: "place h c p0 = (xi, yi)" "p1 = (if h then xf else yf)" "p0 < p1"
    and screen: "wf_video (vid s)"
      "fits_at (xpm_load S rato XPM_8_8_8 uninit) (vid s) (fst (place h c p1)) (snd (place h c p1))"
    and args: "0 < sint speed" "0 < fr_rate" "fr_rate \<le> 60"
    and start: "totalInterrupts s = 0" "scanCode s \<noteq> ESC_BREAK_CODE"
  shows "\<exists>t. xpm_move S rato uninit xpm xi yi xf yf speed fr_rate s = Some (Inr (0, t))
    \<and> (\<forall>a < scr_w (vid s). \<forall>b < scr_h (vid s). pixel (vid t) a b =
         animated (xpm_load S rato XPM_8_8_8 uninit)
           (map (place h c) (p0 # trajectory (unat p0) p1 speed (60 div unat fr_rate) (steps_to (unat p0) p1 speed)))
           (pixel (vid s)) a b)"
proof -
  let ?ps = "map (place h c) (trajectory (unat p0) p1 speed (60 div unat fr_rate) (steps_to (unat p0) p1 speed))"
  obtain t where t: "xpm_move S rato uninit xpm xi yi xf yf speed fr_rate s = Some (Inr (0, t))"
    "bind_res (xpm_drawer S rato uninit xpm xi yi (vid s)) (animate S rato uninit xpm (xi, yi) ?ps) = Inr (vid t)"
    using xpm_move_along [OF assms, of xpm] by blast
  have le: "\<forall>p \<in> set (place h c p0 # ?ps). fst p \<le> fst (place h c p1) \<and> snd p \<le> snd (place h c p1)"
    using place_le [OF less_imp_le [OF from_to(3)]] place_le [OF trajectory_le] by auto
  have "pixel (vid t) a b = animated (xpm_load S rato XPM_8_8_8 uninit) (place h c p0 # ?ps) (pixel (vid s)) a b"
    if "a < scr_w (vid s)" "b < scr_h (vid s)" for a b
    using t(2) by (intro drawn_and_animated [OF refl screen(2,1) le _ that, of xpm]) (simp add: from_to(1))
  with t(1) show ?thesis by auto
qed

text \<open>
  C28. \<open>xpm_move\<close> on a row or a column. With a positive speed, a frame rate of 1 to 60, the picture on the
  screen all the way, a timer that keeps interrupting and a silent keyboard, it returns 0 after exactly
  as many timer interrupts as steps of \<open>speed\<close> pixels cover the distance, without an access outside the frame
  buffer, and the screen is the one on which the picture was drawn at the start and then, one after the
  other, at the places of the trajectory, erased at the place before. Unless the ordinates of
  start and target agree, the target's abscissa plays no role.
\<close>

theorem xpm_move_refines_animation:
  fixes s :: "('w, 'z) prog_st_scheme"
  assumes env: "keeps_interrupting S 0 busy" "silent S 1"
    and screen: "wf_video (vid s)"
      "fits_at (xpm_load S rato XPM_8_8_8 uninit) (vid s) (if yi = yf then xf else xi) yf"
    and args: "if yi = yf then xi < xf else yi < yf" "0 < sint speed" "0 < fr_rate" "fr_rate \<le> 60"
    and start: "totalInterrupts s = 0" "scanCode s \<noteq> ESC_BREAK_CODE"
  shows "\<exists>t n. xpm_move S rato uninit xpm xi yi xf yf speed fr_rate s = Some (Inr (0, t))
    \<and> n = (if yi = yf then steps_to (unat xi) xf speed else steps_to (unat yi) yf speed)
    \<and> unat (totalInterrupts t) = n
    \<and> bind_res (xpm_drawer S rato uninit xpm xi yi (vid s)) (animate S rato uninit xpm (xi, yi)
        (if yi = yf then map (\<lambda>x. (x, yi)) (trajectory (unat xi) xf speed (60 div unat fr_rate) n)
         else map (\<lambda>y. (xi, y)) (trajectory (unat yi) yf speed (60 div unat fr_rate) n))) = Inr (vid t)"
proof (cases "yi = yf")
  case True
  then show ?thesis
    using xpm_move_along [OF env, of True yi yf yi xi xi xf xf s rato uninit speed fr_rate xpm]
      screen args start by (auto simp: place_def [abs_def])
next
  case False
  then show ?thesis
    using xpm_move_along [OF env, of False yi yf xi yi xi yf xf s rato uninit speed fr_rate xpm]
      screen args start by (auto simp: place_def [abs_def])
qed

definition move_sys :: "unit sys" where
  "move_sys = idle_sys\<lparr>driver_receive := (\<lambda>w. (0, hw_message 1, 4, w))\<rparr>"

lemma move_sys_receive [simp]: "receive_hw move_sys w = (Some 1, w)"
  by (simp add: receive_hw_def move_sys_def hw_message_def is_ipc_notify_def)

lemma move_demo_env: "keeps_interrupting move_sys 0 (\<lambda>_. 0)" "silent move_sys 1"
  by (simp_all add: keeps_interrupting_def silent_def raised_iff)

lemma move_demo_img [simp]: "xpm_load move_sys [] XPM_8_8_8 tiny_img = tiny_img"
  by (simp add: move_sys_def idle_sys_def tiny_img_def)

lemma prog_demo_vid [simp]: "vid (prog_demo v) = v"
  by (simp add: prog_demo_def)

lemma tiny_video_res [simp]: "h_res tiny_video = 8" "v_res tiny_video = 6"
  by (simp_all add: tiny_video_def)

lemma move_demo_screen:
  "wf_video (vid (prog_demo tiny_video))"
  "fits_at (xpm_load move_sys [] XPM_8_8_8 tiny_img) (vid (prog_demo tiny_video)) (if (0 :: u16) = 0 then 5 else 0) 0"
  by (simp add: wf_video_def tiny_video_def) (simp add: fits_at_def, simp add: tiny_img_def)

lemma move_demo_start:
  "totalInterrupts (prog_demo tiny_video) = 0" "scanCode (prog_demo tiny_video) \<noteq> ESC_BREAK_CODE"
  by (simp_all add: prog_demo_def c_consts)

lemma move_demo_args:
  "if (0 :: u16) = 0 then (0 :: u16) < 5 else (0 :: u16) < 0" "0 < sint (2 :: u16)" "(0 :: u8) < 30" "(30 :: u8) \<le> 60"
  by simp_all

text \<open>Two pixels for each interrupt, a picture every second interrupt, and the last, shorter, step.\<close>

lemma move_demo_places: "steps_to 0 5 2 = 3" "trajectory 0 5 2 2 3 = [4, 5]"
  by (simp_all add: steps_to_def trajectory_def drawn_at_def upt_rec)

theorem xpm_move_refines_animation_witness:
  "\<exists>t. xpm_move move_sys [] tiny_img [] 0 0 5 0 2 30 (prog_demo tiny_video) = Some (Inr (0, t))
    \<and> unat (totalInterrupts t) = 3
    \<and> bind_res (xpm_drawer move_sys [] tiny_img [] 0 0 (vid (prog_demo tiny_video)))
         (animate move_sys [] tiny_img [] (0, 0) [(4, 0), (5, 0)]) = Inr (vid t)"
  using xpm_move_refines_animation [OF move_demo_env move_demo_screen move_demo_args move_demo_start, of "[]"]
    move_demo_places by auto

text \<open>
  C29. What \<open>xpm_move\<close> leaves on the screen, under the same conditions: the picture at the last place of the
  trajectory (the start, if it is empty), black where only earlier places were covered, and what was on the
  screen before everywhere else.
\<close>

theorem xpm_move_shows_picture:
  fixes s :: "('w, 'z) prog_st_scheme"
  assumes env: "keeps_interrupting S 0 busy" "silent S 1"
    and screen: "wf_video (vid s)"
      "fits_at (xpm_load S rato XPM_8_8_8 uninit) (vid s) (if yi = yf then xf else xi) yf"
    and args: "if yi = yf then xi < xf else yi < yf" "0 < sint speed" "0 < fr_rate" "fr_rate \<le> 60"
    and start: "totalInterrupts s = 0" "scanCode s \<noteq> ESC_BREAK_CODE"
  shows "\<exists>t. xpm_move S rato uninit xpm xi yi xf yf speed fr_rate s = Some (Inr (0, t))
    \<and> (\<forall>a < scr_w (vid s). \<forall>b < scr_h (vid s). pixel (vid t) a b =
         animated (xpm_load S rato XPM_8_8_8 uninit)
           (if yi = yf
            then map (\<lambda>x. (x, yi))
              (xi # trajectory (unat xi) xf speed (60 div unat fr_rate) (steps_to (unat xi) xf speed))
            else map (\<lambda>y. (xi, y))
              (yi # trajectory (unat yi) yf speed (60 div unat fr_rate) (steps_to (unat yi) yf speed)))
           (pixel (vid s)) a b)"
proof (cases "yi = yf")
  case True
  then show ?thesis
    using xpm_move_pixels [OF env, of True yi yf yi xi xi xf xf s rato uninit speed fr_rate xpm]
      screen args start by (auto simp: place_def [abs_def])
next
  case False
  then show ?thesis
    using xpm_move_pixels [OF env, of False yi yf xi yi xi yf xf s rato uninit speed fr_rate xpm]
      screen args start by (auto simp: place_def [abs_def])
qed

theorem xpm_move_shows_picture_witness:
  "\<exists>t. xpm_move move_sys [] tiny_img [] 0 0 5 0 2 30 (prog_demo tiny_video) = Some (Inr (0, t))
    \<and> pixel (vid t) 5 0 = 1 \<and> pixel (vid t) 6 1 = 4 \<and> pixel (vid t) 4 0 = 0"
proof -
  obtain t where t: "xpm_move move_sys [] tiny_img [] 0 0 5 0 2 30 (prog_demo tiny_video) = Some (Inr (0, t))"
    "\<forall>a < 8. \<forall>b < 6. pixel (vid t) a b = animated tiny_img [(0, 0), (4, 0), (5, 0)] (pixel tiny_video) a b"
    using xpm_move_shows_picture [OF move_demo_env move_demo_screen move_demo_args move_demo_start, of "[]"]
      move_demo_places by auto
  have "animated tiny_img [(0, 0), (4, 0), (5, 0)] (pixel tiny_video) 5 0 = 1"
    "animated tiny_img [(0, 0), (4, 0), (5, 0)] (pixel tiny_video) 6 1 = 4"
    "animated tiny_img [(0, 0), (4, 0), (5, 0)] (pixel tiny_video) 4 0 = 0"
    by (simp_all add: animated_def covers_def picture_def tiny_img_def)
  with t show ?thesis by simp
qed

end
