(* ===== verification/Serial.thy ===== *)
theory Serial
  imports Utils
begin

text \<open>
  \<open>proj/src/serial.c\<close> and \<open>serial.h\<close>: subscription of the serial port for the game on two machines. The file is not
  part of the program's build. It calls \<open>serial_set_bitrate\<close>, which no file defines: the
  function is a parameter here. Shown is which register of the UART receives the interrupt mask,
  for a UART that keeps the documented contract of its ports.
\<close>


section \<open>Constants of serial.h\<close>

definition COM1_PORT :: int where
  [c_consts]: "COM1_PORT = 0x3F8"

definition COM1_IRQ :: int where
  [c_consts]: "COM1_IRQ = 4"

definition SERIAL_DELAY :: u32 where
  [c_consts]: "SERIAL_DELAY = 10000"

definition SERIAL_BITRATE :: u32 where
  [c_consts]: "SERIAL_BITRATE = 1200"

definition INTERRUPT_ENABLE :: int where
  [c_consts]: "INTERRUPT_ENABLE = 1"

definition LINE_CONTROL :: int where
  [c_consts]: "LINE_CONTROL = 3"

definition EIGHT :: u32 where
  "EIGHT = BIT 1 OR BIT 0"

definition ONE_BIT :: u32 where
  "ONE_BIT = 0"

definition NO_PARITY :: u32 where
  "NO_PARITY = 0"

definition BREAK_CONTROL :: u32 where
  "BREAK_CONTROL = BIT 6"

definition DLAB :: u32 where
  "DLAB = BIT 7"

definition ENABLE_INTERRUPT_DATA :: u32 where
  "ENABLE_INTERRUPT_DATA = BIT 0"

definition ENABLE_INTERRUPT_LS :: u32 where
  "ENABLE_INTERRUPT_LS = BIT 2"

lemmas serial_bits = EIGHT_def ONE_BIT_def NO_PARITY_def BREAK_CONTROL_def DLAB_def
  ENABLE_INTERRUPT_DATA_def ENABLE_INTERRUPT_LS_def


section \<open>State and operations\<close>

record 'w serial_st = "'w utils_st" +
  serial_hook :: int

definition serial_subscribe ::
    "(u32 \<Rightarrow> 'w \<Rightarrow> 'w) \<Rightarrow> 'w sys \<Rightarrow> ('w, 'z) serial_st_scheme \<Rightarrow> int \<times> ('w, 'z) serial_st_scheme" where
  "serial_subscribe serial_set_bitrate S s =
     (let s = s\<lparr>serial_hook := 3\<rparr>;
          (_, r, w) = sys_inb S (COM1_PORT + LINE_CONTROL) (world s);
          r = r AND BREAK_CONTROL;
          r = r OR DLAB;
          r = r OR EIGHT;
          r = r OR ONE_BIT;
          r = r OR NO_PARITY;
          (_, w) = sys_outb S (COM1_PORT + LINE_CONTROL) r w;
          w = serial_set_bitrate SERIAL_BITRATE w;
          (e, hook, w) = sys_irqsetpolicy S COM1_IRQ (IRQ_REENABLE OR IRQ_EXCLUSIVE) (serial_hook s) w;
          s = s\<lparr>serial_hook := hook, world := w\<rparr>
      in if e \<noteq> 0 then (-1, s)
         else
           let (e, hook, w) = sys_irqenable S (serial_hook s) (world s);
               s = s\<lparr>serial_hook := hook, world := w\<rparr>
           in if e \<noteq> 0 then (-1, s)
              else
                let (_, r, w) = sys_inb S (COM1_PORT + INTERRUPT_ENABLE) (world s);
                    enable = ENABLE_INTERRUPT_DATA OR ENABLE_INTERRUPT_LS;
                    r = r OR enable;
                    (_, w) = sys_outb S (COM1_PORT + INTERRUPT_ENABLE) r w;
                    s = s\<lparr>world := w\<rparr>
                in (0, delay S SERIAL_DELAY s))"

definition serial_unsubscribe ::
    "'w sys \<Rightarrow> ('w, 'z) serial_st_scheme \<Rightarrow> int \<times> ('w, 'z) serial_st_scheme" where
  "serial_unsubscribe S s =
     (let (e, hook, w) = sys_irqdisable S (serial_hook s) (world s);
          s = s\<lparr>serial_hook := hook, world := w\<rparr>
      in if e \<noteq> 0 then (-1, s)
         else
           let (e, hook, w) = sys_irqrmpolicy S (serial_hook s) (world s);
               s = s\<lparr>serial_hook := hook, world := w\<rparr>
           in if e \<noteq> 0 then (-1, s)
              else
                let (e, s) = outb S (COM1_PORT + INTERRUPT_ENABLE) 0 s
                in if e \<noteq> OK then (-1, s) else (0, s))"


section \<open>The registers of the UART\<close>

text \<open>
  The registers the code accesses: line control, interrupt enable, and the upper byte of the divisor
  latch, which takes the place of interrupt enable while bit 7 of line control (DLAB) is set.
\<close>

record uart =
  lcr :: u8
  ier :: u8
  dlm :: u8

definition uart_write :: "int \<Rightarrow> u32 \<Rightarrow> uart \<Rightarrow> uart" where
  "uart_write port v u =
     (if port = COM1_PORT + LINE_CONTROL then u\<lparr>lcr := ucast v\<rparr>
      else if port = COM1_PORT + INTERRUPT_ENABLE
      then (if bit (lcr u) 7 then u\<lparr>dlm := ucast v\<rparr> else u\<lparr>ier := ucast v\<rparr>)
      else u)"

definition uart_read :: "int \<Rightarrow> uart \<Rightarrow> u32" where
  "uart_read port u =
     (if port = COM1_PORT + LINE_CONTROL then ucast (lcr u)
      else if port = COM1_PORT + INTERRUPT_ENABLE
      then (if bit (lcr u) 7 then ucast (dlm u) else ucast (ier u))
      else 0)"

text \<open>\<open>regs\<close> reads the registers off the world; only the ports change them.\<close>

definition uart_contract :: "'w sys \<Rightarrow> ('w \<Rightarrow> uart) \<Rightarrow> bool" where
  "uart_contract S regs \<longleftrightarrow>
     (\<forall>port w. port \<in> {COM1_PORT + LINE_CONTROL, COM1_PORT + INTERRUPT_ENABLE} \<longrightarrow>
        fst (snd (sys_inb S port w)) = uart_read port (regs w)
        \<and> regs (snd (snd (sys_inb S port w))) = regs w
        \<and> (\<forall>v. regs (snd (sys_outb S port v w)) = uart_write port v (regs w)))
     \<and> (\<forall>irq pol hook w. regs (snd (snd (sys_irqsetpolicy S irq pol hook w))) = regs w)
     \<and> (\<forall>hook w. regs (snd (snd (sys_irqenable S hook w))) = regs w)
     \<and> (\<forall>t w. regs (tickdelay S t w) = regs w)"

lemma uart_contract_D:
  assumes "uart_contract S regs"
  shows "fst (snd (sys_inb S (COM1_PORT + LINE_CONTROL) w)) = ucast (lcr (regs w))"
    "regs (snd (snd (sys_inb S (COM1_PORT + LINE_CONTROL) w))) = regs w"
    "regs (snd (sys_outb S (COM1_PORT + LINE_CONTROL) v w)) = (regs w)\<lparr>lcr := ucast v\<rparr>"
    "fst (snd (sys_inb S (COM1_PORT + INTERRUPT_ENABLE) w))
       = (if bit (lcr (regs w)) 7 then ucast (dlm (regs w)) else ucast (ier (regs w)))"
    "regs (snd (snd (sys_inb S (COM1_PORT + INTERRUPT_ENABLE) w))) = regs w"
    "regs (snd (sys_outb S (COM1_PORT + INTERRUPT_ENABLE) v w))
       = (if bit (lcr (regs w)) 7 then (regs w)\<lparr>dlm := ucast v\<rparr> else (regs w)\<lparr>ier := ucast v\<rparr>)"
    "regs (snd (snd (sys_irqsetpolicy S irq pol hook w))) = regs w"
    "regs (snd (snd (sys_irqenable S hook w))) = regs w"
    "regs (tickdelay S n w) = regs w"
  using assms by (auto simp: uart_contract_def uart_write_def uart_read_def c_consts)

text \<open>The control word: the break bit is kept, DLAB and eight bits per character are set.\<close>

definition line_word :: "u8 \<Rightarrow> u8" where
  "line_word x = (x AND BIT 6) OR (BIT 7 OR BIT 1 OR BIT 0)"

lemma bit_BIT: "bit (BIT k :: 'a::len word) n \<longleftrightarrow> n = k \<and> k < LENGTH('a)"
  by (auto simp: BIT_def bit_simps)

lemma line_word_eq:
  "ucast (((((ucast x AND BREAK_CONTROL) OR DLAB) OR EIGHT) OR ONE_BIT) OR NO_PARITY :: u32) = line_word x"
  by (rule bit_word_eqI) (auto simp: serial_bits line_word_def bit_BIT bit_simps)

lemma ucast_or_5: "ucast (ucast x OR (ENABLE_INTERRUPT_DATA OR ENABLE_INTERRUPT_LS) :: u32) = (x OR 5 :: u8)"
  by (rule bit_word_eqI) (auto simp: serial_bits BIT_def bit_simps bit_numeral_rec)

lemma line_word_DLAB: "bit (line_word x) 7"
  by (simp add: line_word_def BIT_def bit_simps)

text \<open>
  A successful \<open>serial_subscribe\<close> on a UART that keeps the contract of its ports. The line control register
  is set to eight bits, one stop bit and no parity with DLAB on; the interrupt mask reaches the
  interrupt-enable register exactly when \<open>serial_set_bitrate\<close> has switched DLAB off. If it leaves the
  line control register alone, the mask goes to the divisor latch, and no interrupt is enabled.
\<close>

lemma serial_subscribe_registers:
  assumes S: "uart_contract S regs" and run: "serial_subscribe set_bitrate S s = (0, t)"
  shows "\<exists>w. lcr (regs w) = line_word (lcr (regs (world s))) \<and> bit (lcr (regs w)) 7
    \<and> ier (regs w) = ier (regs (world s)) \<and> dlm (regs w) = dlm (regs (world s))
    \<and> (let u = regs (set_bitrate 1200 w)
       in regs (world t) = (if bit (lcr u) 7 then u\<lparr>dlm := dlm u OR 5\<rparr> else u\<lparr>ier := ier u OR 5\<rparr>))"
proof -
  note D = uart_contract_D [OF S]
  let ?r = "sys_inb S (COM1_PORT + LINE_CONTROL) (world s)"
  let ?w = "snd (sys_outb S (COM1_PORT + LINE_CONTROL)
    (((((fst (snd ?r) AND BREAK_CONTROL) OR DLAB) OR EIGHT) OR ONE_BIT) OR NO_PARITY) (snd (snd ?r)))"
  have w: "regs ?w = (regs (world s))\<lparr>lcr := line_word (lcr (regs (world s)))\<rparr>"
    by (simp add: D line_word_eq)
  have "regs (world t) = (let u = regs (set_bitrate 1200 ?w)
      in if bit (lcr u) 7 then u\<lparr>dlm := dlm u OR 5\<rparr> else u\<lparr>ier := ier u OR 5\<rparr>)"
    using run
    by (auto simp: serial_subscribe_def Let_def split_beta D delay_def ucast_or_5 SERIAL_BITRATE_def
        split: if_splits)
  with w line_word_DLAB show ?thesis by (intro exI [of _ ?w]) (simp add: Let_def)
qed

text \<open>A world that is a UART, and a bit rate function that switches DLAB off.\<close>

definition uart_sys :: "uart sys" where
  "uart_sys = idle_sys\<lparr>sys_inb := (\<lambda>p w. (0, uart_read p w, w)), sys_outb := (\<lambda>p v w. (0, uart_write p v w))\<rparr>"

definition bitrate_demo :: "u32 \<Rightarrow> uart \<Rightarrow> uart" where
  "bitrate_demo rate u = u\<lparr>lcr := lcr u AND 0x7F\<rparr>"

definition serial_demo :: "uart serial_st" where
  "serial_demo = \<lparr>world = \<lparr>lcr = 0x03, ier = 0, dlm = 0\<rparr>, countSysInb = 0, serial_hook = 0\<rparr>"

lemma serial_subscribe_registers_witness:
  "\<exists>t. serial_subscribe bitrate_demo uart_sys serial_demo = (0, t) \<and> ier (world t) = 5 \<and> dlm (world t) = 0"
proof -
  have c: "uart_contract uart_sys id"
    by (auto simp: uart_contract_def uart_sys_def idle_sys_def)
  obtain t where run: "serial_subscribe bitrate_demo uart_sys serial_demo = (0, t)"
    by (simp add: serial_subscribe_def uart_sys_def idle_sys_def Let_def)
  from serial_subscribe_registers [OF c run] show ?thesis
    using run by (auto simp: Let_def bitrate_demo_def serial_demo_def line_word_def BIT_def bit_simps split: if_splits)
qed

end
