(* ===== verification/Spec2Isabelle.thy ===== *)
theory Spec2Isabelle
  imports Game_Run Menu_Run Pause_Run Screen_Run Irq_Ledger Minix_Ipc Message_Members Lab5_Move Serial
begin

text \<open>
  Lab-Chase: a two-player light-cycle game for MINIX on the LCF library, the device drivers it is built
  on, and the laboratory programs (\<open>lab2\<close> to \<open>lab5\<close>) the drivers come from.

  \<^bold>\<open>The program.\<close> \<open>proj/src/main.c\<close> subscribes the timer, keyboard, mouse and clock interrupts, sets a graphics
  mode, and then runs one loop per screen (main menu, two end screens, pause, game on one machine,
  game on two machines) inside an outer loop until the screen is QUIT. The loops receive messages
  (\<open>driver_receive\<close>), call the interrupt handlers of the drivers (\<open>timer.c\<close>, \<open>keyboard.c\<close>, \<open>mouse.c\<close>) and draw and
  move players with \<open>video_gr.c\<close>. The drivers talk to the devices through port reads and writes; the
  keyboard handler also writes the globals \<open>screenState\<close> and \<open>nextMove\<close> that the loops read. The labs are
  small programs with the same structure, one loop each.

  \<^bold>\<open>Conventions.\<close> Machine integers are words of their width, so that wrap-around is that of the code. The
  globals of the modules are records that extend each other in the order of the theories; the state
  of the outside world is the field \<open>world\<close>. The system calls have no code in the repository: they are
  the fields of the record \<open>sys\<close>, an argument of every operation that uses them, and every theorem holds
  for all of them unless it names a hypothesis. Uninitialised locals are arguments named \<open>uninit\<close> (or after
  the local). Operations that can fault return \<open>fault + 'a\<close>: an access outside the mapped frame or an
  array, a call of \<open>panic\<close>, an undefined operation. Loops that need not end are \<open>while_res\<close>, whose value is
  \<open>None\<close> for a run that never returns; there is no fuel anywhere. Bounded loops are \<open>for_n\<close> or primitive
  recursion (\<open>send_KBC_loop\<close>, ten rounds, as in the code).

  \<^bold>\<open>Theories.\<close>
  \<^item> \<open>LC_Prelude\<close>: words, results, \<open>for_n\<close>, \<open>while_res\<close> and their rules.
  \<^item> \<open>Sys_Interface\<close>: the macros and data types of the MINIX and LCF headers that the program uses, the
    record of the system calls, the common head of the driver loops (\<open>receive_hw\<close>), and concrete worlds
    on which the witnesses run.
  \<^item> \<open>Utils\<close> (\<open>utils.c\<close>), \<open>Timer\<close> (\<open>timer.c\<close>, \<open>i8254.h\<close>), \<open>Kbc\<close> (controller commands, interrupt subscription and the
    lab handler of \<open>keyboard.c\<close>), \<open>Mouse\<close> (\<open>mouse.c\<close> and the packet assembly of the loops), \<open>Keyboard\<close> (the game's
    handler of \<open>keyboard.c\<close>), \<open>Rtc\<close> (\<open>rtc.c\<close>), \<open>Aux_Data\<close> (\<open>auxiliary_data_structures.h\<close>): the drivers, one
    definition per function. Shown: the exact port traffic of the timer and controller operations,
    with the wrap-around of the divisor at 18 Hz and the error paths; the decoding of every keyboard
    byte; that mouse packets are framed as a reference definition frames the byte stream and that
    decoding inverts encoding; that the memory of the clock chip is read back as written, while its clock
    registers go on.
  \<^item> \<open>Frame_Memory\<close>: bytes and colours in memory; the locale \<open>framebuffer\<close>, in which lines, rectangles and blocks
    of coloured cells are derived from the laws of a pixel.
  \<^item> \<open>Video\<close>: the drawing functions of \<open>video_gr.c\<close>, with an interpretation of \<open>framebuffer\<close>. Shown: rectangles
    are painted exactly, the two image copies agree, initialisation establishes a well-formed screen,
    and the cursor stays on it (but can jump to the far edge).
  \<^item> \<open>Game\<close>: players and rules of \<open>video_gr.c\<close>. An abstract game on a grid of cells (\<open>tron\<close>) is the specification;
    \<open>move_player\<close> and \<open>passive_move_players\<close> refine it. Also: how a game without keys ends, what happens
    on the white screen of the evening, and at the edges: at the sides the players reappear on a lower row as long
    as that is on the screen, and everywhere else beyond the edges they leave the frame.
  \<^item> \<open>Driver_Loops\<close>: nested loops over screens, abstractly; the locale \<open>screens\<close> shows that they are one loop that
    dispatches on the screen.
  \<^item> \<open>Main_Loop\<close>: all of \<open>main.c\<close>, with an interpretation of \<open>screens\<close>. Shown: the dispatch and the
    invariant of packet index and flags on all reachable states, what the start of a game clears, that
    resuming a pause restores the frame, what timer ticks and key presses do to a game, how the
    program ends, and that the game on two machines never ends.
  \<^item> \<open>Event_Runs\<close>: runs of a loop against a reference that sees the events of the iterations. The locale
    \<open>event_loop\<close> lifts the refinement of an iteration to a run; the game, the menus and the pause interpret it.
  \<^item> \<open>Game_Run\<close>: whole games. Every iteration of the game loop is read as a list of events (a tick, a key
    release) of the abstract game; the run of the loop refines the run of the abstract game on all events,
    and returns when the timer keeps interrupting. The last part is about \<open>nextMove\<close>: within a match that began with no
    effective move known only the eight keys move the players, but when the game before ended with a move up or
    down, the first keyboard interrupt of a new game repeats it if it comes before a tick and is none of them.
  \<^item> \<open>Menu_Run\<close>: the three menus. From mouse bytes to packets to a pointer with three buttons (\<open>pointer\<close>): every run
    of a menu ends where the reference pointer ends on the packets of the bytes it collected.
  \<^item> \<open>Pause_Run\<close>: the pause. The keys pressed during a pause move the players; when the game is resumed the
    old trails are back on the screen and the players stand at the places they were moved to.
  \<^item> \<open>Screen_Run\<close>: the screens as a machine that reacts to clicks, crashes and the pause key. The events of an
    iteration are read off its message and the results of the moves; after any run of the program the
    screen is the one the machine reaches on the events of the run.
  \<^item> \<open>Irq_Ledger\<close>: the interrupt lines the kernel holds for the process, under a contract of the interrupt
    calls in which subscriptions may fail and exclusive ones may drop other entries of their line: what
    the program, which looks at no result of a subscription, and the tests of the labs leave behind when
    they return.
  \<^item> \<open>Minix_Ipc\<close>: the macros of \<open>minix/endpoint.h\<close> and \<open>minix/ipcconst.h\<close>, the IPC vectors of \<open>minix/ipc.h\<close> and the
    shorthands of \<open>minix/syslib.h\<close>. Shown: endpoint numbers are pairs of generation and slot, and which
    messages the head of the driver loops accepts.
  \<^item> \<open>Ipc_Layout\<close> and \<open>Ipc_Messages\<close>: the layout of C structures on i386, and all message structures of
    \<open>minix/ipc.h\<close>; the sizes the header asserts are proved. \<open>Message_Members\<close>: the members of a message, also by
    the names the header gives them, are independent variables. \<open>Lcf_Structs\<close>: the bytes of a notification, of the
    BIOS registers and of the VBE mode information against the records of \<open>Sys_Interface\<close>.
  \<^item> \<open>Lab_Loop\<close>: the loop of the labs, with the locales \<open>driver_contract\<close> (safety) and \<open>driver_progress\<close> (the loop
    returns). \<open>Lab2\<close>, \<open>Lab3\<close>, \<open>Lab4\<close>: the test functions of these labs, each loop an interpretation. Shown: the
    seconds counted, the idle times, the packets printed, and that the gesture is never recognised.
  \<^item> \<open>Lab5\<close>: the graphics functions of \<open>lab5\<close> and their tests; agreement with the game's on rectangles, the
    division by zero in a fresh process and the colours of the test pattern. \<open>Lab5_Move\<close>: a reference for the
    animation (draw at the listed places, erase at the place before) and that \<open>xpm_move\<close> refines it, on a row
    or a column, which pixels it leaves on the screen, and that it arrives in time without leaving the
    frame (an interpretation of \<open>driver_progress\<close>).
  \<^item> \<open>Serial\<close>: \<open>serial.c\<close>, which is not part of the build; which UART register receives the interrupt mask.

  \<^bold>\<open>Hypotheses about code and devices that are not in the repository\<close> are predicates on \<open>sys\<close>:
  \<open>keeps_interrupting\<close> (a line raises interrupts again and again), \<open>ports_quiet\<close> (reading a port sends no
  message), \<open>irq_kernel\<close> (the table of interrupt policies, whose calls may fail), \<open>silent\<close>, \<open>packet_stream\<close> (the
  mouse delivers packets of three bytes, the first with bit 3 set), \<open>counts_prints\<close> and \<open>counts_packets\<close>
  (observers of the output), \<open>cmos_clock\<close> (the two ports of the clock chip) and \<open>uart_contract\<close>. Each theorem that uses one
  has a witness on a concrete world.

  \<^bold>\<open>Not modelled.\<close> The functions \<open>main\<close> (they start the LCF), printing to the console, \<open>lab0/hello.c\<close> (prints one
  line), the pixel data of the images, the functions in comments, and the rest of the MINIX headers, which the
  program does not use.
\<close>

end
